(* ===== verification/Rust_Prelude.thy ===== *)
theory Rust_Prelude
  imports Main "HOL-Library.Word" "HOL-Library.Char_ord" "HOL-Library.AList"
begin

unbundle bit_operations_syntax

section \<open>What the components share of Rust and its standard library\<close>

text \<open>
  The development's collections of rewrite rules, the type names of the machine integers, and
  the parts of \<^verbatim>\<open>str\<close>, \<^verbatim>\<open>HashMap\<close>, the integer parsers and the big-endian
  conversions that the modelled sources use.

  A Rust \<^verbatim>\<open>String\<close> is its UTF-8 byte sequence, one \<^typ>\<open>char\<close> per byte, so that
  \<^term>\<open>length\<close> is \<^verbatim>\<open>str::len\<close>. Searching, splitting and slicing at an ASCII
  character are then the same on bytes and on code points. White space and letter case are the
  ASCII ones. A \<^verbatim>\<open>HashMap\<close> is an association list with distinct keys whose order stands for
  the iteration order, which the language leaves open: statements hold for every order.
\<close>

named_theorems rust_str \<open>equations of the string functions\<close>
named_theorems rust_be \<open>big-endian encoding and decoding\<close>

type_synonym u8 = "8 word"
type_synonym u16 = "16 word"
type_synonym u32 = "32 word"
type_synonym u64 = "64 word"
type_synonym i32 = "32 word"
type_synonym ('k, 'v) hashmap = "('k \<times> 'v) list"
type_synonym socket_addr = "string \<times> u16"

subsection \<open>Characters\<close>

definition is_ws :: "char \<Rightarrow> bool" where
  "is_ws c \<longleftrightarrow> c = CHR '' '' \<or> c = CHR 0x09 \<or> c = CHR 0x0A \<or> c = CHR 0x0B \<or> c = CHR 0x0C \<or> c = CHR 0x0D"

definition is_digit :: "char \<Rightarrow> bool" where
  "is_digit c \<longleftrightarrow> CHR ''0'' \<le> c \<and> c \<le> CHR ''9''"

definition digit_val :: "char \<Rightarrow> nat" where
  "digit_val c = of_char c - 48"

definition digit_char :: "nat \<Rightarrow> char" where
  "digit_char n = char_of (n + 48)"

definition lower_char :: "char \<Rightarrow> char" where
  "lower_char c = (if CHR ''A'' \<le> c \<and> c \<le> CHR ''Z'' then char_of (of_char c + (32 :: nat)) else c)"

lemma is_digit_iff: "is_digit c \<longleftrightarrow> 48 \<le> (of_char c :: nat) \<and> (of_char c :: nat) \<le> 57"
  by (simp add: is_digit_def less_eq_char_def)

lemma is_digit_digit_char [simp]: "n < 10 \<Longrightarrow> is_digit (digit_char n)"
  by (simp add: is_digit_iff digit_char_def)

lemma digit_val_digit_char [simp]: "n < 10 \<Longrightarrow> digit_val (digit_char n) = n"
  by (simp add: digit_val_def digit_char_def)

lemma digit_val_less [simp]: "is_digit c \<Longrightarrow> digit_val c < 10"
  by (auto simp: is_digit_iff digit_val_def)

lemma is_digit_not_ws [simp]: "is_digit c \<Longrightarrow> \<not> is_ws c"
  by (auto simp: is_ws_def is_digit_iff)

subsection \<open>Strings\<close>

definition trim_start :: "string \<Rightarrow> string" where
  "trim_start s = dropWhile is_ws s"

definition trim_end :: "string \<Rightarrow> string" where
  "trim_end s = rev (dropWhile is_ws (rev s))"

definition trim :: "string \<Rightarrow> string" where
  "trim s = trim_end (trim_start s)"

definition trim_end_matches :: "char \<Rightarrow> string \<Rightarrow> string" where
  "trim_end_matches c s = rev (dropWhile (\<lambda>x. x = c) (rev s))"

definition starts_with :: "string \<Rightarrow> string \<Rightarrow> bool" where
  "starts_with p s \<longleftrightarrow> take (length p) s = p"

definition ends_with :: "string \<Rightarrow> string \<Rightarrow> bool" where
  "ends_with p s \<longleftrightarrow> starts_with (rev p) (rev s)"

definition strip_prefix :: "string \<Rightarrow> string \<Rightarrow> string option" where
  "strip_prefix p s = (if starts_with p s then Some (drop (length p) s) else None)"

definition strip_suffix :: "string \<Rightarrow> string \<Rightarrow> string option" where
  "strip_suffix p s = (if ends_with p s then Some (take (length s - length p) s) else None)"

fun find_sub :: "string \<Rightarrow> string \<Rightarrow> nat option" where
  "find_sub p [] = (if p = [] then Some 0 else None)"
| "find_sub p (c # s) = (if starts_with p (c # s) then Some 0 else map_option Suc (find_sub p s))"

definition contains_sub :: "string \<Rightarrow> string \<Rightarrow> bool" where
  "contains_sub p s \<longleftrightarrow> find_sub p s \<noteq> None"

fun find_char :: "char \<Rightarrow> string \<Rightarrow> nat option" where
  "find_char d [] = None"
| "find_char d (c # s) = (if c = d then Some 0 else map_option Suc (find_char d s))"

fun split_once :: "char \<Rightarrow> string \<Rightarrow> (string \<times> string) option" where
  "split_once d [] = None"
| "split_once d (c # s) =
     (if c = d then Some ([], s) else map_option (\<lambda>(a, b). (c # a, b)) (split_once d s))"

definition rsplit_once :: "char \<Rightarrow> string \<Rightarrow> (string \<times> string) option" where
  "rsplit_once d s = map_option (\<lambda>(a, b). (rev b, rev a)) (split_once d (rev s))"

fun split_char :: "char \<Rightarrow> string \<Rightarrow> string list" where
  "split_char d [] = [[]]"
| "split_char d (c # s) =
     (if c = d then [] # split_char d s
      else case split_char d s of [] \<Rightarrow> [[c]] | w # ws \<Rightarrow> (c # w) # ws)"

fun splitn :: "nat \<Rightarrow> char \<Rightarrow> string \<Rightarrow> string list" where
  "splitn 0 d s = []"
| "splitn (Suc 0) d s = [s]"
| "splitn (Suc (Suc n)) d s =
     (case split_once d s of None \<Rightarrow> [s] | Some (a, b) \<Rightarrow> a # splitn (Suc n) d b)"

text \<open>\<^verbatim>\<open>str::lines\<close>: a terminated line loses its newline and one carriage return before
  it; an unterminated last line is kept as it is, and none is added after a final newline.\<close>

definition strip_cr :: "string \<Rightarrow> string" where
  "strip_cr l = (if l \<noteq> [] \<and> last l = CHR 0x0D then butlast l else l)"

definition str_lines :: "string \<Rightarrow> string list" where
  "str_lines s = (let parts = split_char CHR 0x0A s
                  in map strip_cr (butlast parts) @ (if last parts = [] then [] else [last parts]))"

definition split_whitespace :: "string \<Rightarrow> string list" where
  "split_whitespace s =
     filter (\<lambda>w. w \<noteq> []) (split_char (CHR '' '') (map (\<lambda>c. if is_ws c then CHR '' '' else c) s))"

definition to_ascii_lowercase :: "string \<Rightarrow> string" where
  "to_ascii_lowercase s = map lower_char s"

definition eq_ignore_ascii_case :: "string \<Rightarrow> string \<Rightarrow> bool" where
  "eq_ignore_ascii_case a b \<longleftrightarrow> map lower_char a = map lower_char b"

text \<open>
  \<^verbatim>\<open>str::is_char_boundary\<close>: an index at an end of the string, or before a byte that is not
  a UTF-8 continuation byte. Slicing anywhere else panics.
\<close>

definition is_char_boundary :: "string \<Rightarrow> nat \<Rightarrow> bool" where
  "is_char_boundary s i \<longleftrightarrow>
     i = 0 \<or> i = length s \<or>
     i < length s \<and> \<not> (128 \<le> (of_char (s ! i) :: nat) \<and> (of_char (s ! i) :: nat) < 192)"

definition is_ascii :: "string \<Rightarrow> bool" where
  "is_ascii s \<longleftrightarrow> (\<forall>c \<in> set s. (of_char c :: nat) < 128)"

lemma is_char_boundary_ascii: "is_ascii s \<Longrightarrow> i \<le> length s \<Longrightarrow> is_char_boundary s i"
  using nth_mem [of i s] by (fastforce simp: is_char_boundary_def is_ascii_def)

lemma starts_with_append [simp]: "starts_with p (p @ s)"
  by (simp add: starts_with_def)

lemma starts_with_iff: "starts_with p s \<longleftrightarrow> (\<exists>t. s = p @ t)"
  unfolding starts_with_def by (metis append_eq_conv_conj append_take_drop_id)

lemma strip_prefix_append [simp]: "strip_prefix p (p @ s) = Some s"
  by (simp add: strip_prefix_def)

lemma strip_prefix_SomeD: "strip_prefix p s = Some t \<Longrightarrow> s = p @ t"
  by (auto simp: strip_prefix_def starts_with_iff split: if_splits)

lemma split_once_Some_iff:
  "split_once d s = Some (a, b) \<longleftrightarrow> s = a @ d # b \<and> d \<notin> set a"
proof (induction s arbitrary: a)
  case Nil
  then show ?case by simp
next
  case (Cons c s)
  then show ?case by (cases a) auto
qed

lemma split_once_None_iff: "split_once d s = None \<longleftrightarrow> d \<notin> set s"
  by (induction s) auto

lemma split_once_append [simp]: "d \<notin> set a \<Longrightarrow> split_once d (a @ d # b) = Some (a, b)"
  by (simp add: split_once_Some_iff)

lemma split_once_not_in [simp]: "d \<notin> set s \<Longrightarrow> split_once d s = None"
  by (simp add: split_once_None_iff)

lemma rsplit_once_append [simp]: "d \<notin> set b \<Longrightarrow> rsplit_once d (a @ d # b) = Some (a, b)"
  by (simp add: rsplit_once_def)

lemma rsplit_once_not_in [simp]: "d \<notin> set s \<Longrightarrow> rsplit_once d s = None"
  by (simp add: rsplit_once_def)

lemma split_char_not_Nil [simp]: "split_char d s \<noteq> []"
  by (induction s) (auto split: list.splits)

lemma split_char_single [simp]: "d \<notin> set s \<Longrightarrow> split_char d s = [s]"
  by (induction s) auto

lemma split_char_append [simp]:
  "d \<notin> set a \<Longrightarrow> split_char d (a @ d # s) = a # split_char d s"
  by (induction a) auto

lemma str_lines_terminated:
  "\<forall>l \<in> set ls. CHR 0x0A \<notin> set l \<and> (l = [] \<or> last l \<noteq> CHR 0x0D) \<Longrightarrow>
     str_lines (concat (map (\<lambda>l. l @ [CHR 0x0A]) ls)) = ls"
proof -
  assume ok: "\<forall>l \<in> set ls. CHR 0x0A \<notin> set l \<and> (l = [] \<or> last l \<noteq> CHR 0x0D)"
  then have "split_char CHR 0x0A (concat (map (\<lambda>l. l @ [CHR 0x0A]) ls)) = ls @ [[]]"
    by (induction ls) auto
  moreover from ok have "map strip_cr ls = ls"
    by (induction ls) (auto simp: strip_cr_def)
  ultimately show ?thesis by (simp add: str_lines_def)
qed

lemma trim_start_id: "s = [] \<or> \<not> is_ws (hd s) \<Longrightarrow> trim_start s = s"
  by (cases s) (auto simp: trim_start_def)

lemma trim_end_id: "s = [] \<or> \<not> is_ws (last s) \<Longrightarrow> trim_end s = s"
  by (cases s rule: rev_cases) (auto simp: trim_end_def)

definition trimmed :: "string \<Rightarrow> bool" where
  "trimmed s \<longleftrightarrow> s = [] \<or> \<not> is_ws (hd s) \<and> \<not> is_ws (last s)"

lemma trim_id [simp]: "trimmed s \<Longrightarrow> trim s = s"
  by (auto simp: trimmed_def trim_def trim_start_id trim_end_id)

lemma trimmed_no_ws: "\<forall>c \<in> set s. \<not> is_ws c \<Longrightarrow> trimmed s"
  by (cases s) (auto simp: trimmed_def)

lemma eq_ignore_ascii_case_refl [simp]: "eq_ignore_ascii_case s s"
  by (simp add: eq_ignore_ascii_case_def)

lemma eq_ignore_ascii_case_sym: "eq_ignore_ascii_case a b \<longleftrightarrow> eq_ignore_ascii_case b a"
  by (auto simp: eq_ignore_ascii_case_def)

lemma eq_ignore_ascii_case_trans:
  "eq_ignore_ascii_case a b \<Longrightarrow> eq_ignore_ascii_case b c \<Longrightarrow> eq_ignore_ascii_case a c"
  by (simp add: eq_ignore_ascii_case_def)

lemma find_char_Some_iff:
  "find_char d s = Some i \<longleftrightarrow> i < length s \<and> s ! i = d \<and> d \<notin> set (take i s)"
proof (induction s arbitrary: i)
  case Nil
  then show ?case by simp
next
  case (Cons c s)
  then show ?case by (cases i) auto
qed

lemma find_char_append: "d \<notin> set a \<Longrightarrow> find_char d (a @ d # b) = Some (length a)"
  by (induction a) auto

lemma find_char_None_iff: "find_char d s = None \<longleftrightarrow> d \<notin> set s"
  by (induction s) auto

subsection \<open>Integers in decimal\<close>

text \<open>
  \<^verbatim>\<open>str::parse\<close> for the integer types: an optional sign (only plus for an unsigned type),
  at least one digit, nothing else, and a value in range.
\<close>

definition digits_val :: "string \<Rightarrow> nat" where
  "digits_val s = foldl (\<lambda>n c. 10 * n + digit_val c) 0 s"

definition parse_digits :: "string \<Rightarrow> nat option" where
  "parse_digits s = (if s \<noteq> [] \<and> list_all is_digit s then Some (digits_val s) else None)"

definition parse_unsigned :: "nat \<Rightarrow> string \<Rightarrow> nat option" where
  "parse_unsigned maxv s =
     (case parse_digits (case s of c # cs \<Rightarrow> if c = CHR ''+'' then cs else s | [] \<Rightarrow> []) of
        None \<Rightarrow> None
      | Some n \<Rightarrow> if n \<le> maxv then Some n else None)"

definition parse_signed :: "int \<Rightarrow> int \<Rightarrow> string \<Rightarrow> int option" where
  "parse_signed lo hi s =
     (case (case s of
              c # cs \<Rightarrow> if c = CHR ''-'' then map_option (\<lambda>n. - int n) (parse_digits cs)
                        else map_option int (parse_digits (if c = CHR ''+'' then cs else s))
            | [] \<Rightarrow> None) of
        None \<Rightarrow> None
      | Some z \<Rightarrow> if lo \<le> z \<and> z \<le> hi then Some z else None)"

abbreviation parse_u16 :: "string \<Rightarrow> u16 option" where
  "parse_u16 s \<equiv> map_option of_nat (parse_unsigned 65535 s)"

abbreviation parse_u32 :: "string \<Rightarrow> u32 option" where
  "parse_u32 s \<equiv> map_option of_nat (parse_unsigned 4294967295 s)"

abbreviation parse_usize :: "string \<Rightarrow> nat option" where
  "parse_usize s \<equiv> parse_unsigned 18446744073709551615 s"

abbreviation parse_i32 :: "string \<Rightarrow> i32 option" where
  "parse_i32 s \<equiv> map_option of_int (parse_signed (- 2147483648) 2147483647 s)"

fun show_nat :: "nat \<Rightarrow> string" where
  "show_nat n = (if n < 10 then [digit_char n] else show_nat (n div 10) @ [digit_char (n mod 10)])"

declare show_nat.simps [simp del]

definition show_int :: "int \<Rightarrow> string" where
  "show_int z = (if z < 0 then CHR ''-'' # show_nat (nat (- z)) else show_nat (nat z))"

lemma show_nat_digits: "list_all is_digit (show_nat n)"
proof (induction n rule: show_nat.induct)
  case (1 n)
  then show ?case by (cases "n < 10") (simp_all add: show_nat.simps [of n])
qed

lemma show_nat_not_Nil [simp]: "show_nat n \<noteq> []"
  by (simp add: show_nat.simps [of n])

lemma digits_val_snoc: "digits_val (s @ [c]) = 10 * digits_val s + digit_val c"
  by (simp add: digits_val_def)

lemma digits_val_show_nat: "digits_val (show_nat n) = n"
proof (induction n rule: show_nat.induct)
  case (1 n)
  then show ?case
    by (cases "n < 10") (simp_all add: show_nat.simps [of n] digits_val_snoc digits_val_def [of "[_]"])
qed

lemma parse_digits_show_nat [simp]: "parse_digits (show_nat n) = Some n"
  by (simp add: parse_digits_def show_nat_digits digits_val_show_nat)

lemma show_nat_chars: "c \<in> set (show_nat n) \<Longrightarrow> is_digit c"
  using show_nat_digits by (auto simp: list_all_iff)

lemma show_nat_hd_neq: "\<not> is_digit d \<Longrightarrow> hd (show_nat n) \<noteq> d"
  using show_nat_chars [of "hd (show_nat n)" n] by auto

lemma parse_unsigned_show_nat [simp]: "n \<le> m \<Longrightarrow> parse_unsigned m (show_nat n) = Some n"
proof -
  assume "n \<le> m"
  have "hd (show_nat n) \<noteq> CHR ''+''"
    by (rule show_nat_hd_neq) (simp add: is_digit_iff)
  then have "(case show_nat n of c # cs \<Rightarrow> if c = CHR ''+'' then cs else show_nat n | [] \<Rightarrow> []) = show_nat n"
    by (cases "show_nat n") auto
  with \<open>n \<le> m\<close> show ?thesis by (simp add: parse_unsigned_def)
qed

lemma show_nat_no_char: "\<not> is_digit d \<Longrightarrow> d \<notin> set (show_nat n)"
  using show_nat_chars by blast

lemma trimmed_show_nat [simp]: "trimmed (show_nat n)"
  by (rule trimmed_no_ws) (auto dest: show_nat_chars)

lemma parse_signed_show_nat [simp]:
  assumes "lo \<le> 0" and "int n \<le> hi"
  shows "parse_signed lo hi (show_nat n) = Some (int n)"
proof -
  obtain c cs where c: "show_nat n = c # cs" by (cases "show_nat n") auto
  then have "is_digit c" using show_nat_chars [of c n] by simp
  then have "c \<noteq> CHR ''-''" "c \<noteq> CHR ''+''" by (auto simp: is_digit_iff)
  with assms c show ?thesis
    by (simp add: parse_signed_def parse_digits_show_nat [of n, unfolded c])
qed

subsection \<open>Hash maps\<close>

abbreviation hget :: "('k, 'v) hashmap \<Rightarrow> 'k \<Rightarrow> 'v option" where
  "hget m k \<equiv> map_of m k"

abbreviation hinsert :: "'k \<Rightarrow> 'v \<Rightarrow> ('k, 'v) hashmap \<Rightarrow> ('k, 'v) hashmap" where
  "hinsert k v m \<equiv> AList.update k v m"

abbreviation hremove :: "'k \<Rightarrow> ('k, 'v) hashmap \<Rightarrow> ('k, 'v) hashmap" where
  "hremove k m \<equiv> AList.delete k m"

definition hm_wf :: "('k, 'v) hashmap \<Rightarrow> bool" where
  "hm_wf m \<longleftrightarrow> distinct (map fst m)"

lemma hget_hinsert [simp]: "hget (hinsert k v m) k' = (if k' = k then Some v else hget m k')"
  by (simp add: update_conv')

lemma hget_hremove [simp]: "hget (hremove k m) k' = (if k' = k then None else hget m k')"
  by (simp add: delete_conv')

lemma hm_wf_Nil [simp]: "hm_wf []"
  by (simp add: hm_wf_def)

lemma hm_wf_hinsert [intro]: "hm_wf m \<Longrightarrow> hm_wf (hinsert k v m)"
  by (simp add: hm_wf_def distinct_update)

lemma hm_wf_hremove [intro]: "hm_wf m \<Longrightarrow> hm_wf (hremove k m)"
  by (simp add: hm_wf_def distinct_delete)

lemma hm_wf_in_set: "hm_wf m \<Longrightarrow> (k, v) \<in> set m \<longleftrightarrow> hget m k = Some v"
  by (simp add: hm_wf_def map_of_eq_Some_iff)

definition hsum :: "('v \<Rightarrow> nat) \<Rightarrow> ('k, 'v) hashmap \<Rightarrow> nat" where
  "hsum f m = (\<Sum>x \<leftarrow> m. f (snd x))"

lemma hsum_Nil [simp]: "hsum f [] = 0"
  by (simp add: hsum_def)

lemma hsum_hinsert:
  "hsum f (hinsert k v m) + (case hget m k of Some w \<Rightarrow> f w | None \<Rightarrow> 0) = hsum f m + f v"
  by (induction m) (auto simp: hsum_def split: option.splits)

lemma length_hinsert: "length (hinsert k v m) = (if hget m k = None then Suc (length m) else length m)"
  by (induction m) auto

lemma in_set_hinsertD: "(k', v') \<in> set (hinsert k v m) \<Longrightarrow> k' = k \<and> v' = v \<or> (k', v') \<in> set m"
  by (induction m) (auto split: if_splits)

lemma hget_in_set: "hget m k = Some v \<Longrightarrow> (k, v) \<in> set m"
  by (rule map_of_SomeD)

subsection \<open>Big-endian bytes\<close>

definition u16_to_be :: "u16 \<Rightarrow> u8 list" where
  "u16_to_be w = [ucast (drop_bit 8 w), ucast w]"

definition u16_from_be :: "u8 \<Rightarrow> u8 \<Rightarrow> u16" where
  "u16_from_be a b = push_bit 8 (ucast a) OR ucast b"

definition u32_to_be :: "u32 \<Rightarrow> u8 list" where
  "u32_to_be w = [ucast (drop_bit 24 w), ucast (drop_bit 16 w), ucast (drop_bit 8 w), ucast w]"

definition u32_from_be :: "u8 \<Rightarrow> u8 \<Rightarrow> u8 \<Rightarrow> u8 \<Rightarrow> u32" where
  "u32_from_be a b c d =
     push_bit 24 (ucast a) OR push_bit 16 (ucast b) OR push_bit 8 (ucast c) OR ucast d"

lemma u16_from_to_be [rust_be, simp]:
  "u16_from_be (ucast (drop_bit 8 w)) (ucast w) = w"
  by (rule bit_word_eqI) (auto simp: u16_from_be_def bit_simps)

lemma u32_from_to_be [rust_be, simp]:
  "u32_from_be (ucast (drop_bit 24 w)) (ucast (drop_bit 16 w)) (ucast (drop_bit 8 w)) (ucast w) = w"
proof (rule bit_word_eqI)
  fix n assume "n < LENGTH(32)"
  then consider "n < 8" | "8 \<le> n" "n < 16" | "16 \<le> n" "n < 24" | "24 \<le> n" "n < 32"
    by fastforce
  then show "bit (u32_from_be (ucast (drop_bit 24 w)) (ucast (drop_bit 16 w)) (ucast (drop_bit 8 w)) (ucast w)) n
      = bit w n"
    by cases (auto simp: u32_from_be_def bit_simps)
qed

lemma bit_u8_high [simp]: "8 \<le> n \<Longrightarrow> \<not> bit (b :: u8) n"
  using bit_imp_le_length [of b n] by auto

lemma u16_to_from_be [rust_be, simp]: "u16_to_be (u16_from_be a b) = [a, b]"
  by (auto simp: u16_to_be_def u16_from_be_def bit_simps intro!: bit_word_eqI)

lemma u32_to_from_be [rust_be, simp]: "u32_to_be (u32_from_be a b c d) = [a, b, c, d]"
  by (auto simp: u32_to_be_def u32_from_be_def bit_simps intro!: bit_word_eqI)

lemma length_u16_to_be [simp]: "length (u16_to_be w) = 2"
  by (simp add: u16_to_be_def)

lemma length_u32_to_be [simp]: "length (u32_to_be w) = 4"
  by (simp add: u32_to_be_def)

subsection \<open>Saturating subtraction\<close>

lemma unat_of_nat_u16: "n < 2 ^ 16 \<Longrightarrow> unat (of_nat n :: u16) = n"
  by (simp add: unat_of_nat take_bit_nat_eq_self)

lemma unat_of_nat_u32: "n < 2 ^ 32 \<Longrightarrow> unat (of_nat n :: u32) = n"
  by (simp add: unat_of_nat take_bit_nat_eq_self)

lemma unat_of_nat_u64: "n < 2 ^ 64 \<Longrightarrow> unat (of_nat n :: u64) = n"
  by (simp add: unat_of_nat take_bit_nat_eq_self)

lemma word32_of_nat_inj: "m < 2 ^ 32 \<Longrightarrow> n < 2 ^ 32 \<Longrightarrow> (of_nat m :: u32) = of_nat n \<longleftrightarrow> m = n"
  by (simp add: word_of_nat_eq_iff take_bit_nat_eq_self)

lemma sint_of_nat_small: "n < 2 ^ 31 \<Longrightarrow> sint (of_nat n :: i32) = int n"
  using sint_sbintrunc' [where 'a = 32 and bin = "int n"]
  by (simp add: signed_take_bit_int_eq_self)

lemma sint_of_nat_le: "sint (of_nat n :: i32) \<le> int n"
proof (cases "n < 2 ^ 31")
  case False
  then show ?thesis using sint_lt [of "of_nat n :: i32"] by simp
qed (simp add: sint_of_nat_small)

definition sat_sub :: "'a::len word \<Rightarrow> 'a word \<Rightarrow> 'a word" where
  "sat_sub a b = (if b \<le> a then a - b else 0)"

lemma unat_sat_sub: "unat (sat_sub a b) = unat a - unat b"
  by (auto simp: sat_sub_def unat_sub word_le_nat_alt)

end
