(* ===== verification/Ast_Types.thy ===== *)
theory Ast_Types
  imports Rust_Prelude
begin

section \<open>The shared types: states, causes, frames, parties, errors\<close>

text \<open>
  The crate \<^verbatim>\<open>asterisk-types\<close>: the enumerations with their wire values and printed names
  (\<^verbatim>\<open>channel_state.rs\<close>, \<^verbatim>\<open>hangup_cause.rs\<close>, \<^verbatim>\<open>control.rs\<close>,
  \<^verbatim>\<open>frame_type.rs\<close>), the flag words (\<^verbatim>\<open>flags.rs\<close>), the media and signalling
  frames (\<^verbatim>\<open>frame.rs\<close>), the parties of a call (\<^verbatim>\<open>party.rs\<close>) and the errors
  (\<^verbatim>\<open>error.rs\<close>). A constructor carries its enumeration's initials in front.
\<close>

subsection \<open>Enumerations\<close>

datatype channel_state =
    CS_Down | CS_Reserved | CS_OffHook | CS_Dialing | CS_Ring | CS_Ringing
  | CS_Up | CS_Busy | CS_DialingOffHook | CS_PreRing | CS_Mute

primrec channel_state_code :: "channel_state \<Rightarrow> u8" where
  "channel_state_code CS_Down = 0"
| "channel_state_code CS_Reserved = 1"
| "channel_state_code CS_OffHook = 2"
| "channel_state_code CS_Dialing = 3"
| "channel_state_code CS_Ring = 4"
| "channel_state_code CS_Ringing = 5"
| "channel_state_code CS_Up = 6"
| "channel_state_code CS_Busy = 7"
| "channel_state_code CS_DialingOffHook = 8"
| "channel_state_code CS_PreRing = 9"
| "channel_state_code CS_Mute = 10"

primrec channel_state_display :: "channel_state \<Rightarrow> string" where
  "channel_state_display CS_Down = ''Down''"
| "channel_state_display CS_Reserved = ''Reserved''"
| "channel_state_display CS_OffHook = ''OffHook''"
| "channel_state_display CS_Dialing = ''Dialing''"
| "channel_state_display CS_Ring = ''Ring''"
| "channel_state_display CS_Ringing = ''Ringing''"
| "channel_state_display CS_Up = ''Up''"
| "channel_state_display CS_Busy = ''Busy''"
| "channel_state_display CS_DialingOffHook = ''DialingOffHook''"
| "channel_state_display CS_PreRing = ''PreRing''"
| "channel_state_display CS_Mute = ''Mute''"

datatype hangup_cause =
    HC_NotDefined | HC_UnallocatedNumber | HC_NoRouteTransitNet | HC_NoRouteDestination | HC_ChannelUnacceptable | HC_NormalClearing
  | HC_UserBusy | HC_NoUserResponse | HC_NoAnswer | HC_SubscriberAbsent | HC_CallRejected | HC_NumberChanged
  | HC_DestinationOutOfOrder | HC_InvalidNumberFormat | HC_NormalUnspecified | HC_NormalCircuitCongestion | HC_NetworkOutOfOrder | HC_NormalTemporaryFailure
  | HC_SwitchCongestion | HC_BearerCapNotAvail | HC_BearerCapNotImplemented | HC_FacilityNotImplemented | HC_Interworking | HC_Failure
  | HC_NoSuchDriver

primrec hangup_cause_code :: "hangup_cause \<Rightarrow> u32" where
  "hangup_cause_code HC_NotDefined = 0"
| "hangup_cause_code HC_UnallocatedNumber = 1"
| "hangup_cause_code HC_NoRouteTransitNet = 2"
| "hangup_cause_code HC_NoRouteDestination = 3"
| "hangup_cause_code HC_ChannelUnacceptable = 6"
| "hangup_cause_code HC_NormalClearing = 16"
| "hangup_cause_code HC_UserBusy = 17"
| "hangup_cause_code HC_NoUserResponse = 18"
| "hangup_cause_code HC_NoAnswer = 19"
| "hangup_cause_code HC_SubscriberAbsent = 20"
| "hangup_cause_code HC_CallRejected = 21"
| "hangup_cause_code HC_NumberChanged = 22"
| "hangup_cause_code HC_DestinationOutOfOrder = 27"
| "hangup_cause_code HC_InvalidNumberFormat = 28"
| "hangup_cause_code HC_NormalUnspecified = 31"
| "hangup_cause_code HC_NormalCircuitCongestion = 34"
| "hangup_cause_code HC_NetworkOutOfOrder = 38"
| "hangup_cause_code HC_NormalTemporaryFailure = 41"
| "hangup_cause_code HC_SwitchCongestion = 42"
| "hangup_cause_code HC_BearerCapNotAvail = 58"
| "hangup_cause_code HC_BearerCapNotImplemented = 65"
| "hangup_cause_code HC_FacilityNotImplemented = 69"
| "hangup_cause_code HC_Interworking = 127"
| "hangup_cause_code HC_Failure = 200"
| "hangup_cause_code HC_NoSuchDriver = 201"

primrec hangup_cause_display :: "hangup_cause \<Rightarrow> string" where
  "hangup_cause_display HC_NotDefined = ''NotDefined''"
| "hangup_cause_display HC_UnallocatedNumber = ''UnallocatedNumber''"
| "hangup_cause_display HC_NoRouteTransitNet = ''NoRouteTransitNet''"
| "hangup_cause_display HC_NoRouteDestination = ''NoRouteDestination''"
| "hangup_cause_display HC_ChannelUnacceptable = ''ChannelUnacceptable''"
| "hangup_cause_display HC_NormalClearing = ''NormalClearing''"
| "hangup_cause_display HC_UserBusy = ''UserBusy''"
| "hangup_cause_display HC_NoUserResponse = ''NoUserResponse''"
| "hangup_cause_display HC_NoAnswer = ''NoAnswer''"
| "hangup_cause_display HC_SubscriberAbsent = ''SubscriberAbsent''"
| "hangup_cause_display HC_CallRejected = ''CallRejected''"
| "hangup_cause_display HC_NumberChanged = ''NumberChanged''"
| "hangup_cause_display HC_DestinationOutOfOrder = ''DestinationOutOfOrder''"
| "hangup_cause_display HC_InvalidNumberFormat = ''InvalidNumberFormat''"
| "hangup_cause_display HC_NormalUnspecified = ''NormalUnspecified''"
| "hangup_cause_display HC_NormalCircuitCongestion = ''NormalCircuitCongestion''"
| "hangup_cause_display HC_NetworkOutOfOrder = ''NetworkOutOfOrder''"
| "hangup_cause_display HC_NormalTemporaryFailure = ''NormalTemporaryFailure''"
| "hangup_cause_display HC_SwitchCongestion = ''SwitchCongestion''"
| "hangup_cause_display HC_BearerCapNotAvail = ''BearerCapNotAvail''"
| "hangup_cause_display HC_BearerCapNotImplemented = ''BearerCapNotImplemented''"
| "hangup_cause_display HC_FacilityNotImplemented = ''FacilityNotImplemented''"
| "hangup_cause_display HC_Interworking = ''Interworking''"
| "hangup_cause_display HC_Failure = ''Failure''"
| "hangup_cause_display HC_NoSuchDriver = ''NoSuchDriver''"

datatype control_frame =
    CF_Hangup | CF_Ring | CF_Ringing | CF_Answer | CF_Busy | CF_TakeOffHook
  | CF_OffHook | CF_Congestion | CF_Flash | CF_Wink | CF_Option | CF_RadioKey
  | CF_RadioUnkey | CF_Progress | CF_Proceeding | CF_Hold | CF_Unhold | CF_VidUpdate
  | CF_SrcUpdate | CF_Transfer | CF_ConnectedLine | CF_Redirecting | CF_T38Parameters | CF_Cc
  | CF_SrcChange | CF_ReadAction | CF_Aoc | CF_EndOfQ | CF_Incomplete | CF_Mcid
  | CF_UpdateRtpPeer | CF_PvtCauseCode | CF_MasqueradeNotify | CF_StreamTopologyRequestChange | CF_StreamTopologyChanged | CF_StreamTopologySourceChanged
  | CF_StreamStop | CF_StreamSuspend | CF_StreamRestart | CF_StreamReverse | CF_StreamForward | CF_PlaybackBegin
  | CF_RecordCancel | CF_RecordStop | CF_RecordSuspend | CF_RecordMute

primrec control_frame_code :: "control_frame \<Rightarrow> u32" where
  "control_frame_code CF_Hangup = 1"
| "control_frame_code CF_Ring = 2"
| "control_frame_code CF_Ringing = 3"
| "control_frame_code CF_Answer = 4"
| "control_frame_code CF_Busy = 5"
| "control_frame_code CF_TakeOffHook = 6"
| "control_frame_code CF_OffHook = 7"
| "control_frame_code CF_Congestion = 8"
| "control_frame_code CF_Flash = 9"
| "control_frame_code CF_Wink = 10"
| "control_frame_code CF_Option = 11"
| "control_frame_code CF_RadioKey = 12"
| "control_frame_code CF_RadioUnkey = 13"
| "control_frame_code CF_Progress = 14"
| "control_frame_code CF_Proceeding = 15"
| "control_frame_code CF_Hold = 16"
| "control_frame_code CF_Unhold = 17"
| "control_frame_code CF_VidUpdate = 18"
| "control_frame_code CF_SrcUpdate = 20"
| "control_frame_code CF_Transfer = 21"
| "control_frame_code CF_ConnectedLine = 22"
| "control_frame_code CF_Redirecting = 23"
| "control_frame_code CF_T38Parameters = 24"
| "control_frame_code CF_Cc = 25"
| "control_frame_code CF_SrcChange = 26"
| "control_frame_code CF_ReadAction = 27"
| "control_frame_code CF_Aoc = 28"
| "control_frame_code CF_EndOfQ = 29"
| "control_frame_code CF_Incomplete = 30"
| "control_frame_code CF_Mcid = 31"
| "control_frame_code CF_UpdateRtpPeer = 32"
| "control_frame_code CF_PvtCauseCode = 33"
| "control_frame_code CF_MasqueradeNotify = 34"
| "control_frame_code CF_StreamTopologyRequestChange = 35"
| "control_frame_code CF_StreamTopologyChanged = 36"
| "control_frame_code CF_StreamTopologySourceChanged = 37"
| "control_frame_code CF_StreamStop = 1000"
| "control_frame_code CF_StreamSuspend = 1001"
| "control_frame_code CF_StreamRestart = 1002"
| "control_frame_code CF_StreamReverse = 1003"
| "control_frame_code CF_StreamForward = 1004"
| "control_frame_code CF_PlaybackBegin = 1005"
| "control_frame_code CF_RecordCancel = 1100"
| "control_frame_code CF_RecordStop = 1101"
| "control_frame_code CF_RecordSuspend = 1102"
| "control_frame_code CF_RecordMute = 1103"

primrec control_frame_display :: "control_frame \<Rightarrow> string" where
  "control_frame_display CF_Hangup = ''Hangup''"
| "control_frame_display CF_Ring = ''Ring''"
| "control_frame_display CF_Ringing = ''Ringing''"
| "control_frame_display CF_Answer = ''Answer''"
| "control_frame_display CF_Busy = ''Busy''"
| "control_frame_display CF_TakeOffHook = ''TakeOffHook''"
| "control_frame_display CF_OffHook = ''OffHook''"
| "control_frame_display CF_Congestion = ''Congestion''"
| "control_frame_display CF_Flash = ''Flash''"
| "control_frame_display CF_Wink = ''Wink''"
| "control_frame_display CF_Option = ''Option''"
| "control_frame_display CF_RadioKey = ''RadioKey''"
| "control_frame_display CF_RadioUnkey = ''RadioUnkey''"
| "control_frame_display CF_Progress = ''Progress''"
| "control_frame_display CF_Proceeding = ''Proceeding''"
| "control_frame_display CF_Hold = ''Hold''"
| "control_frame_display CF_Unhold = ''Unhold''"
| "control_frame_display CF_VidUpdate = ''VidUpdate''"
| "control_frame_display CF_SrcUpdate = ''SrcUpdate''"
| "control_frame_display CF_Transfer = ''Transfer''"
| "control_frame_display CF_ConnectedLine = ''ConnectedLine''"
| "control_frame_display CF_Redirecting = ''Redirecting''"
| "control_frame_display CF_T38Parameters = ''T38Parameters''"
| "control_frame_display CF_Cc = ''CC''"
| "control_frame_display CF_SrcChange = ''SrcChange''"
| "control_frame_display CF_ReadAction = ''ReadAction''"
| "control_frame_display CF_Aoc = ''AOC''"
| "control_frame_display CF_EndOfQ = ''EndOfQ''"
| "control_frame_display CF_Incomplete = ''Incomplete''"
| "control_frame_display CF_Mcid = ''MCID''"
| "control_frame_display CF_UpdateRtpPeer = ''UpdateRtpPeer''"
| "control_frame_display CF_PvtCauseCode = ''PvtCauseCode''"
| "control_frame_display CF_MasqueradeNotify = ''MasqueradeNotify''"
| "control_frame_display CF_StreamTopologyRequestChange = ''StreamTopologyRequestChange''"
| "control_frame_display CF_StreamTopologyChanged = ''StreamTopologyChanged''"
| "control_frame_display CF_StreamTopologySourceChanged = ''StreamTopologySourceChanged''"
| "control_frame_display CF_StreamStop = ''StreamStop''"
| "control_frame_display CF_StreamSuspend = ''StreamSuspend''"
| "control_frame_display CF_StreamRestart = ''StreamRestart''"
| "control_frame_display CF_StreamReverse = ''StreamReverse''"
| "control_frame_display CF_StreamForward = ''StreamForward''"
| "control_frame_display CF_PlaybackBegin = ''PlaybackBegin''"
| "control_frame_display CF_RecordCancel = ''RecordCancel''"
| "control_frame_display CF_RecordStop = ''RecordStop''"
| "control_frame_display CF_RecordSuspend = ''RecordSuspend''"
| "control_frame_display CF_RecordMute = ''RecordMute''"

datatype frame_type =
    FT_DtmfEnd | FT_Voice | FT_Video | FT_Control | FT_Null | FT_Iax
  | FT_Text | FT_Image | FT_Html | FT_Cng | FT_Modem | FT_DtmfBegin
  | FT_BridgeAction | FT_BridgeActionSync | FT_Rtcp | FT_TextData

primrec frame_type_code :: "frame_type \<Rightarrow> u16" where
  "frame_type_code FT_DtmfEnd = 1"
| "frame_type_code FT_Voice = 2"
| "frame_type_code FT_Video = 3"
| "frame_type_code FT_Control = 4"
| "frame_type_code FT_Null = 5"
| "frame_type_code FT_Iax = 6"
| "frame_type_code FT_Text = 7"
| "frame_type_code FT_Image = 8"
| "frame_type_code FT_Html = 9"
| "frame_type_code FT_Cng = 10"
| "frame_type_code FT_Modem = 11"
| "frame_type_code FT_DtmfBegin = 12"
| "frame_type_code FT_BridgeAction = 13"
| "frame_type_code FT_BridgeActionSync = 14"
| "frame_type_code FT_Rtcp = 15"
| "frame_type_code FT_TextData = 16"

primrec frame_type_display :: "frame_type \<Rightarrow> string" where
  "frame_type_display FT_DtmfEnd = ''DTMF End''"
| "frame_type_display FT_Voice = ''Voice''"
| "frame_type_display FT_Video = ''Video''"
| "frame_type_display FT_Control = ''Control''"
| "frame_type_display FT_Null = ''Null''"
| "frame_type_display FT_Iax = ''IAX''"
| "frame_type_display FT_Text = ''Text''"
| "frame_type_display FT_Image = ''Image''"
| "frame_type_display FT_Html = ''HTML''"
| "frame_type_display FT_Cng = ''CNG''"
| "frame_type_display FT_Modem = ''Modem''"
| "frame_type_display FT_DtmfBegin = ''DTMF Begin''"
| "frame_type_display FT_BridgeAction = ''Bridge Action''"
| "frame_type_display FT_BridgeActionSync = ''Bridge Action Sync''"
| "frame_type_display FT_Rtcp = ''RTCP''"
| "frame_type_display FT_TextData = ''Text Data''"

text \<open>Distinct enumerators have distinct wire values, so a value read back names one of them.\<close>

lemma channel_state_code_inj [simp]:
  "channel_state_code a = channel_state_code b \<longleftrightarrow> a = b"
  by (cases a; cases b; simp)

lemma hangup_cause_code_inj [simp]:
  "hangup_cause_code a = hangup_cause_code b \<longleftrightarrow> a = b"
  by (cases a; cases b; simp)

lemma frame_type_code_inj [simp]:
  "frame_type_code a = frame_type_code b \<longleftrightarrow> a = b"
  by (cases a; cases b; simp)

subsection \<open>Flag words\<close>

definition WRITE_INT :: u64 where
  "WRITE_INT = push_bit 1 1"

definition DISSOLVE_HANGUP :: u32 where
  "DISSOLVE_HANGUP = push_bit 0 1"

definition DISSOLVE_EMPTY :: u32 where
  "DISSOLVE_EMPTY = push_bit 1 1"

definition flags_contain :: "'a::len word \<Rightarrow> 'a word \<Rightarrow> bool" where
  "flags_contain fs f \<longleftrightarrow> fs AND f = f"

subsection \<open>Frames\<close>

record rtp_timing =
  rt_sequence :: u16
  rt_timestamp :: u32

datatype frame =
    Voice (f_codec_id: u32) (f_samples: u32) (f_data: "u8 list") (f_timestamp_ms: u64)
      (f_seqno: i32) (f_stream_num: i32) (f_rtp_timing: "rtp_timing option")
  | Video u32 "u8 list" u64 i32 bool i32
  | DtmfBegin char
  | DtmfEnd char u32
  | Control control_frame "u8 list"
  | NullFrame
  | Text string
  | Image "u8 list"
  | Html u32 "u8 list"
  | Cng i32
  | Modem u32 "u8 list"
  | Rtcp "u8 list"
  | BridgeAction "u8 list"

primrec frame_type_of :: "frame \<Rightarrow> frame_type" where
  "frame_type_of (Voice _ _ _ _ _ _ _) = FT_Voice"
| "frame_type_of (Video _ _ _ _ _ _) = FT_Video"
| "frame_type_of (DtmfBegin _) = FT_DtmfBegin"
| "frame_type_of (DtmfEnd _ _) = FT_DtmfEnd"
| "frame_type_of (Control _ _) = FT_Control"
| "frame_type_of NullFrame = FT_Null"
| "frame_type_of (Text _) = FT_Text"
| "frame_type_of (Image _) = FT_Image"
| "frame_type_of (Html _ _) = FT_Html"
| "frame_type_of (Cng _) = FT_Cng"
| "frame_type_of (Modem _ _) = FT_Modem"
| "frame_type_of (Rtcp _) = FT_Rtcp"
| "frame_type_of (BridgeAction _) = FT_BridgeAction"

definition frame_voice :: "u32 \<Rightarrow> u32 \<Rightarrow> u8 list \<Rightarrow> frame" where
  "frame_voice codec samples data = Voice codec samples data 0 (- 1) 0 None"

definition frame_voice_with_rtp_timing :: "u32 \<Rightarrow> u32 \<Rightarrow> u8 list \<Rightarrow> u16 \<Rightarrow> u32 \<Rightarrow> frame" where
  "frame_voice_with_rtp_timing codec samples data sq ts =
     Voice codec samples data 0 (ucast sq) 0 (Some \<lparr>rt_sequence = sq, rt_timestamp = ts\<rparr>)"

definition frame_control :: "control_frame \<Rightarrow> frame" where
  "frame_control c = Control c []"

definition is_voice :: "frame \<Rightarrow> bool" where
  "is_voice f \<longleftrightarrow> (case f of Voice _ _ _ _ _ _ _ \<Rightarrow> True | _ \<Rightarrow> False)"

definition is_video :: "frame \<Rightarrow> bool" where
  "is_video f \<longleftrightarrow> (case f of Video _ _ _ _ _ _ \<Rightarrow> True | _ \<Rightarrow> False)"

definition is_control :: "frame \<Rightarrow> bool" where
  "is_control f \<longleftrightarrow> (case f of Control _ _ \<Rightarrow> True | _ \<Rightarrow> False)"

definition is_dtmf :: "frame \<Rightarrow> bool" where
  "is_dtmf f \<longleftrightarrow> (case f of DtmfBegin _ \<Rightarrow> True | DtmfEnd _ _ \<Rightarrow> True | _ \<Rightarrow> False)"

lemma is_voice_frame_type: "is_voice f \<longleftrightarrow> frame_type_of f = FT_Voice"
  by (cases f) (simp_all add: is_voice_def)

lemma is_video_frame_type: "is_video f \<longleftrightarrow> frame_type_of f = FT_Video"
  by (cases f) (simp_all add: is_video_def)

lemma is_control_frame_type: "is_control f \<longleftrightarrow> frame_type_of f = FT_Control"
  by (cases f) (simp_all add: is_control_def)

lemma is_dtmf_frame_type: "is_dtmf f \<longleftrightarrow> frame_type_of f \<in> {FT_DtmfBegin, FT_DtmfEnd}"
  by (cases f) (simp_all add: is_dtmf_def)

subsection \<open>Parties of a call\<close>

datatype party_char_set =
    PCS_Unknown | PCS_Iso8859_1 | PCS_Withdrawn | PCS_Iso8859_2 | PCS_Iso8859_3 | PCS_Iso8859_4
  | PCS_Iso8859_5 | PCS_Iso8859_7 | PCS_Iso10646BmpString | PCS_Iso10646Utf8String

record party_name =
  pn_name :: string
  pn_char_set :: party_char_set
  pn_presentation :: i32
  pn_valid :: bool

record party_number =
  pnum_number :: string
  pnum_plan :: i32
  pnum_presentation :: i32
  pnum_valid :: bool

record party_subaddress =
  psa_subaddress :: string
  psa_type :: i32
  psa_odd_even_indicator :: bool
  psa_valid :: bool

record party_id =
  pid_name :: party_name
  pid_number :: party_number
  pid_subaddress :: party_subaddress
  pid_tag :: string

record caller_id =
  caller_party :: party_id
  caller_ani :: party_id
  caller_priv :: party_id
  caller_ani2 :: i32

record connected_line =
  connected_party :: party_id
  connected_ani :: party_id
  connected_priv :: party_id
  connected_ani2 :: i32
  connected_source :: i32

record dialed_party =
  dialed_number :: string
  dialed_number_plan :: i32
  dialed_subaddress :: party_subaddress
  dialed_transit_network_select :: i32

record redirecting_reason =
  rr_reason_str :: string
  rr_code :: i32

record redirecting =
  redir_orig :: party_id
  redir_from :: party_id
  redir_to :: party_id
  redir_priv_orig :: party_id
  redir_priv_from :: party_id
  redir_priv_to :: party_id
  redir_reason :: redirecting_reason
  redir_orig_reason :: redirecting_reason
  redir_count :: i32

definition default_party_id :: party_id where
  "default_party_id =
     \<lparr>pid_name = \<lparr>pn_name = [], pn_char_set = PCS_Iso8859_1, pn_presentation = 0, pn_valid = False\<rparr>,
      pid_number = \<lparr>pnum_number = [], pnum_plan = 0, pnum_presentation = 0, pnum_valid = False\<rparr>,
      pid_subaddress = \<lparr>psa_subaddress = [], psa_type = 0, psa_odd_even_indicator = False, psa_valid = False\<rparr>,
      pid_tag = []\<rparr>"

definition default_caller_id :: caller_id where
  "default_caller_id =
     \<lparr>caller_party = default_party_id, caller_ani = default_party_id,
      caller_priv = default_party_id, caller_ani2 = 0\<rparr>"

definition default_connected_line :: connected_line where
  "default_connected_line =
     \<lparr>connected_party = default_party_id, connected_ani = default_party_id,
      connected_priv = default_party_id, connected_ani2 = 0, connected_source = 0\<rparr>"

definition default_dialed_party :: dialed_party where
  "default_dialed_party =
     \<lparr>dialed_number = [], dialed_number_plan = 0,
      dialed_subaddress = pid_subaddress default_party_id, dialed_transit_network_select = 0\<rparr>"

definition default_redirecting :: redirecting where
  "default_redirecting =
     \<lparr>redir_orig = default_party_id, redir_from = default_party_id, redir_to = default_party_id,
      redir_priv_orig = default_party_id, redir_priv_from = default_party_id, redir_priv_to = default_party_id,
      redir_reason = \<lparr>rr_reason_str = [], rr_code = 0\<rparr>,
      redir_orig_reason = \<lparr>rr_reason_str = [], rr_code = 0\<rparr>, redir_count = 0\<rparr>"

subsection \<open>Errors\<close>

datatype asterisk_error =
    Internal string | NotFound string | InvalidArgument string | NotSupported string
  | IoError string | AlreadyExists string | Timeout string | HangupError string | ParseErr string

type_synonym 'a asterisk_result = "asterisk_error + 'a"

end
