(* ===== verification/Dialplan.thy ===== *)
theory Dialplan
  imports Ast_Types
begin

section \<open>The dialplan: patterns, extensions, contexts, includes\<close>

text \<open>
  The data model and the lookups of \<^verbatim>\<open>asterisk-core/src/pbx/mod.rs\<close>: priorities,
  extensions with their caller-id restriction, contexts, and the dialplan with its recursive
  search through included contexts. \<^verbatim>\<open>pattern_matches\<close> is the extension-pattern matcher;
  its meaning is given independently by compiling a pattern to a list of character classes.
\<close>

subsection \<open>Data\<close>

datatype pbx_result = PR_Success | PR_Failed | PR_Incomplete

record priority =
  prio_priority :: i32
  prio_app :: string
  prio_app_data :: string
  prio_label :: "string option"

record extension =
  ext_name :: string
  ext_cidmatch :: "string option"
  ext_priorities :: "(i32, priority) hashmap"

record dcontext =
  ctx_name :: string
  ctx_extensions :: "(string, extension) hashmap"
  ctx_includes :: "string list"

record dialplan =
  dp_contexts :: "(string, dcontext) hashmap"

definition extension_new :: "string \<Rightarrow> extension" where
  "extension_new n = \<lparr>ext_name = n, ext_cidmatch = None, ext_priorities = []\<rparr>"

definition extension_new_with_cid :: "string \<Rightarrow> string \<Rightarrow> extension" where
  "extension_new_with_cid n cid = \<lparr>ext_name = n, ext_cidmatch = Some cid, ext_priorities = []\<rparr>"

definition add_priority :: "priority \<Rightarrow> extension \<Rightarrow> extension" where
  "add_priority p e = e\<lparr>ext_priorities := hinsert (prio_priority p) p (ext_priorities e)\<rparr>"

definition get_priority :: "extension \<Rightarrow> i32 \<Rightarrow> priority option" where
  "get_priority e n = hget (ext_priorities e) n"

definition next_priority :: "extension \<Rightarrow> i32 \<Rightarrow> priority option" where
  "next_priority e current = hget (ext_priorities e) (current + 1)"

subsection \<open>Pattern matching\<close>

text \<open>
  The character class loop: \<^verbatim>\<open>cm\<close> is \<^verbatim>\<open>class_matches\<close>, \<^verbatim>\<open>prev\<close> is
  \<^verbatim>\<open>prev_char\<close> and \<^verbatim>\<open>rng\<close> is \<^verbatim>\<open>in_range\<close>. It stops in front of the closing
  bracket or at the end of the pattern.
\<close>

fun class_scan :: "char \<Rightarrow> bool \<Rightarrow> char option \<Rightarrow> bool \<Rightarrow> string \<Rightarrow> bool \<times> string" where
  "class_scan ic cm prev rng [] = (cm, [])"
| "class_scan ic cm prev rng (c # cs) =
     (if c = CHR '']'' then (cm, c # cs)
      else if c = CHR ''-'' \<and> prev \<noteq> None then class_scan ic cm prev True cs
      else if rng then
        class_scan ic (cm \<or> (case prev of Some start \<Rightarrow> start \<le> ic \<and> ic \<le> c | None \<Rightarrow> False))
          (Some c) False cs
      else class_scan ic (cm \<or> c = ic) (Some c) False cs)"

definition skip_close :: "string \<Rightarrow> string" where
  "skip_close s = (case s of c # cs \<Rightarrow> if c = CHR '']'' then cs else s | [] \<Rightarrow> [])"

fun pattern_matches :: "string \<Rightarrow> string \<Rightarrow> bool" where
  "pattern_matches [] [] = True"
| "pattern_matches [] (ic # is) = False"
| "pattern_matches (pc # ps) [] = (pc = CHR ''!'')"
| "pattern_matches (pc # ps) (ic # is) =
     (if pc = CHR ''.'' then True
      else if pc = CHR ''!'' then True
      else if pc = CHR ''X'' then is_digit ic \<and> pattern_matches ps is
      else if pc = CHR ''Z'' then (is_digit ic \<and> ic \<noteq> CHR ''0'') \<and> pattern_matches ps is
      else if pc = CHR ''N'' then
        (is_digit ic \<and> ic \<noteq> CHR ''0'' \<and> ic \<noteq> CHR ''1'') \<and> pattern_matches ps is
      else if pc = CHR ''['' then
        (case class_scan ic False None False ps of
           (cm, rest) \<Rightarrow> cm \<and> pattern_matches (skip_close rest) is)
      else pc = ic \<and> pattern_matches ps is)"

subsection \<open>Extensions and contexts\<close>

definition matches_with_cid :: "extension \<Rightarrow> string \<Rightarrow> string option \<Rightarrow> bool" where
  "matches_with_cid e exten callerid \<longleftrightarrow>
     (let exten_matches =
        (if ext_name e = exten then True
         else case strip_prefix ''_'' (ext_name e) of
                Some pattern \<Rightarrow> pattern_matches pattern exten
              | None \<Rightarrow> False)
      in if \<not> exten_matches then False
         else case (ext_cidmatch e, callerid) of
                (None, _) \<Rightarrow> True
              | (Some _, None) \<Rightarrow> False
              | (Some cid_pattern, Some cid) \<Rightarrow>
                  if cid_pattern = cid then True
                  else case strip_prefix ''_'' cid_pattern of
                         Some pattern \<Rightarrow> pattern_matches pattern cid
                       | None \<Rightarrow> False)"

definition ext_matches :: "extension \<Rightarrow> string \<Rightarrow> bool" where
  "ext_matches e exten = matches_with_cid e exten None"

definition context_new :: "string \<Rightarrow> dcontext" where
  "context_new n = \<lparr>ctx_name = n, ctx_extensions = [], ctx_includes = []\<rparr>"

definition ctx_add_extension :: "extension \<Rightarrow> dcontext \<Rightarrow> dcontext" where
  "ctx_add_extension e c = c\<lparr>ctx_extensions := hinsert (ext_name e) e (ctx_extensions c)\<rparr>"

definition add_include :: "string \<Rightarrow> dcontext \<Rightarrow> dcontext" where
  "add_include n c = c\<lparr>ctx_includes := ctx_includes c @ [n]\<rparr>"

fun could_match_scan :: "string \<Rightarrow> extension list \<Rightarrow> bool" where
  "could_match_scan exten [] = False"
| "could_match_scan exten (e # es) =
     (if \<not> starts_with ''_'' (ext_name e) \<and> length (ext_name e) > length exten
         \<and> starts_with exten (ext_name e) then True
      else case strip_prefix ''_'' (ext_name e) of
             Some pattern \<Rightarrow> if length pattern > length exten then True else could_match_scan exten es
           | None \<Rightarrow> could_match_scan exten es)"

definition ctx_could_match :: "dcontext \<Rightarrow> string \<Rightarrow> bool" where
  "ctx_could_match c exten = could_match_scan exten (map snd (ctx_extensions c))"

text \<open>The loop of \<^verbatim>\<open>find_extension_with_cid\<close>, with its running \<^verbatim>\<open>best_match\<close>.\<close>

fun find_best :: "string \<Rightarrow> string option \<Rightarrow> extension option \<Rightarrow> extension list \<Rightarrow> extension option" where
  "find_best exten cid best [] = best"
| "find_best exten cid best (e # es) =
     (if matches_with_cid e exten cid then
        if ext_cidmatch e \<noteq> None then Some e
        else find_best exten cid (if best = None then Some e else best) es
      else find_best exten cid best es)"

definition ctx_find_extension_with_cid :: "dcontext \<Rightarrow> string \<Rightarrow> string option \<Rightarrow> extension option" where
  "ctx_find_extension_with_cid c exten cid =
     (case hget (ctx_extensions c) exten of
        Some e \<Rightarrow>
          if matches_with_cid e exten cid then Some e
          else find_best exten cid None (map snd (ctx_extensions c))
      | None \<Rightarrow> find_best exten cid None (map snd (ctx_extensions c)))"

definition ctx_find_extension :: "dcontext \<Rightarrow> string \<Rightarrow> extension option" where
  "ctx_find_extension c exten = ctx_find_extension_with_cid c exten None"

subsection \<open>The dialplan\<close>

definition dialplan_new :: dialplan where
  "dialplan_new = \<lparr>dp_contexts = []\<rparr>"

definition add_context :: "dcontext \<Rightarrow> dialplan \<Rightarrow> dialplan" where
  "add_context c dp = dp\<lparr>dp_contexts := hinsert (ctx_name c) c (dp_contexts dp)\<rparr>"

definition get_context :: "dialplan \<Rightarrow> string \<Rightarrow> dcontext option" where
  "get_context dp n = hget (dp_contexts dp) n"

definition update_context :: "(dcontext \<Rightarrow> dcontext) \<Rightarrow> string \<Rightarrow> dialplan \<Rightarrow> dialplan" where
  "update_context f n dp =
     (case get_context dp n of
        Some c \<Rightarrow> dp\<lparr>dp_contexts := hinsert n (f c) (dp_contexts dp)\<rparr>
      | None \<Rightarrow> dp)"

definition dp_add_extension :: "string \<Rightarrow> extension \<Rightarrow> dialplan \<Rightarrow> dialplan" where
  "dp_add_extension n e dp =
     dp\<lparr>dp_contexts := hinsert n (ctx_add_extension e
          (case get_context dp n of Some c \<Rightarrow> c | None \<Rightarrow> context_new n)) (dp_contexts dp)\<rparr>"

text \<open>
  The two recursive searches thread the vector of visited names. \<^verbatim>\<open>find_in_includes\<close> and
  \<^verbatim>\<open>could_match_includes\<close> are their loops over the included contexts.
\<close>

definition unvisited :: "dialplan \<Rightarrow> string list \<Rightarrow> nat" where
  "unvisited dp v = card (fst ` set (dp_contexts dp) - set v)"

lemma unvisited_mono: "set v \<subseteq> set v' \<Longrightarrow> unvisited dp v' \<le> unvisited dp v"
  unfolding unvisited_def by (rule card_mono) auto

lemma unvisited_snoc:
  assumes "n \<notin> set v" and "get_context dp n = Some c"
  shows "unvisited dp (v @ [n]) < unvisited dp v"
proof -
  from assms(2) have "n \<in> fst ` set (dp_contexts dp)"
    by (metis get_context_def map_of_eq_None_iff option.distinct(1))
  then show ?thesis
    unfolding unvisited_def using assms(1) by (intro psubset_card_mono) auto
qed

function (sequential)
  find_extension_recursive :: "dialplan \<Rightarrow> string \<Rightarrow> string \<Rightarrow> string list \<Rightarrow>
    (dcontext \<times> extension) option \<times> string list" and
  find_in_includes :: "dialplan \<Rightarrow> string list \<Rightarrow> string \<Rightarrow> string list \<Rightarrow>
    (dcontext \<times> extension) option \<times> string list"
where
  "find_extension_recursive dp n exten v =
     (if n \<in> set v then (None, v)
      else case get_context dp n of
             None \<Rightarrow> (None, v @ [n])
           | Some ctx \<Rightarrow>
               (case ctx_find_extension ctx exten of
                  Some e \<Rightarrow> (Some (ctx, e), v @ [n])
                | None \<Rightarrow> find_in_includes dp (ctx_includes ctx) exten (v @ [n])))"
| "find_in_includes dp [] exten v = (None, v)"
| "find_in_includes dp (i # is) exten v =
     (case find_extension_recursive dp i exten v of
        (Some r, v') \<Rightarrow> (Some r, v')
      | (None, v') \<Rightarrow> find_in_includes dp is exten v')"
  by pat_completeness auto

lemma find_visited_grows:
  "find_extension_recursive_find_in_includes_dom (Inl (dp, n, exten, v)) \<Longrightarrow>
     set v \<subseteq> set (snd (find_extension_recursive dp n exten v))"
  "find_extension_recursive_find_in_includes_dom (Inr (dp, is, exten, v)) \<Longrightarrow>
     set v \<subseteq> set (snd (find_in_includes dp is exten v))"
proof (induction dp n exten v and dp "is" exten v rule: find_extension_recursive_find_in_includes.pinduct)
  case (1 dp n exten v)
  then show ?case
    by (fastforce simp: find_extension_recursive.psimps split: option.splits)
next
  case (2 dp exten v)
  then show ?case by (simp add: find_in_includes.psimps)
next
  case (3 dp i "is" exten v)
  then show ?case
    by (fastforce simp: find_in_includes.psimps split: option.splits prod.splits)
qed

lemma find_unvisited_le:
  assumes "find_extension_recursive_find_in_includes_dom (Inl (dp, n, exten, v))"
    and "(r, v') = find_extension_recursive dp n exten v"
  shows "unvisited dp v' \<le> unvisited dp v"
  using find_visited_grows(1) [OF assms(1)] assms(2) by (metis snd_conv unvisited_mono)

termination find_extension_recursive
  by (relation "measures
      [\<lambda>x. case x of Inl (dp, n, exten, v) \<Rightarrow> unvisited dp v | Inr (dp, is, exten, v) \<Rightarrow> unvisited dp v,
       \<lambda>x. case x of Inl _ \<Rightarrow> 0 | Inr (dp, is, exten, v) \<Rightarrow> length is]")
    (auto simp: unvisited_snoc dest: find_unvisited_le)

declare find_extension_recursive.simps [simp del]

definition dp_find_extension :: "dialplan \<Rightarrow> string \<Rightarrow> string \<Rightarrow> (dcontext \<times> extension) option" where
  "dp_find_extension dp n exten = fst (find_extension_recursive dp n exten [])"

function (sequential)
  could_match_recursive :: "dialplan \<Rightarrow> string \<Rightarrow> string \<Rightarrow> string list \<Rightarrow> bool \<times> string list" and
  could_match_includes :: "dialplan \<Rightarrow> string list \<Rightarrow> string \<Rightarrow> string list \<Rightarrow> bool \<times> string list"
where
  "could_match_recursive dp n exten v =
     (if n \<in> set v then (False, v)
      else case get_context dp n of
             None \<Rightarrow> (False, v @ [n])
           | Some ctx \<Rightarrow>
               if ctx_could_match ctx exten then (True, v @ [n])
               else could_match_includes dp (ctx_includes ctx) exten (v @ [n]))"
| "could_match_includes dp [] exten v = (False, v)"
| "could_match_includes dp (i # is) exten v =
     (case could_match_recursive dp i exten v of
        (True, v') \<Rightarrow> (True, v')
      | (False, v') \<Rightarrow> could_match_includes dp is exten v')"
  by pat_completeness auto

lemma could_match_visited_grows:
  "could_match_recursive_could_match_includes_dom (Inl (dp, n, exten, v)) \<Longrightarrow>
     set v \<subseteq> set (snd (could_match_recursive dp n exten v))"
  "could_match_recursive_could_match_includes_dom (Inr (dp, is, exten, v)) \<Longrightarrow>
     set v \<subseteq> set (snd (could_match_includes dp is exten v))"
proof (induction dp n exten v and dp "is" exten v rule: could_match_recursive_could_match_includes.pinduct)
  case (1 dp n exten v)
  then show ?case
    by (fastforce simp: could_match_recursive.psimps split: option.splits)
next
  case (2 dp exten v)
  then show ?case by (simp add: could_match_includes.psimps)
next
  case (3 dp i "is" exten v)
  then show ?case
    by (cases "could_match_recursive dp i exten v"; cases "fst (could_match_recursive dp i exten v)")
      (auto simp: could_match_includes.psimps)
qed

lemma could_match_unvisited_le:
  assumes "could_match_recursive_could_match_includes_dom (Inl (dp, n, exten, v))"
    and "(r, v') = could_match_recursive dp n exten v"
  shows "unvisited dp v' \<le> unvisited dp v"
  using could_match_visited_grows(1) [OF assms(1)] assms(2) by (metis snd_conv unvisited_mono)

termination could_match_recursive
  by (relation "measures
      [\<lambda>x. case x of Inl (dp, n, exten, v) \<Rightarrow> unvisited dp v | Inr (dp, is, exten, v) \<Rightarrow> unvisited dp v,
       \<lambda>x. case x of Inl _ \<Rightarrow> 0 | Inr (dp, is, exten, v) \<Rightarrow> length is]")
    (auto simp: unvisited_snoc dest: could_match_unvisited_le)

declare could_match_recursive.simps [simp del]

definition dp_could_match :: "dialplan \<Rightarrow> string \<Rightarrow> string \<Rightarrow> bool" where
  "dp_could_match dp n exten = fst (could_match_recursive dp n exten [])"

subsection \<open>Well-formed dialplans\<close>

text \<open>Every table is keyed by the name or the number its entries carry, with distinct keys.\<close>

definition ext_wf :: "extension \<Rightarrow> bool" where
  "ext_wf e \<longleftrightarrow> hm_wf (ext_priorities e) \<and> (\<forall>(k, p) \<in> set (ext_priorities e). prio_priority p = k)"

definition ctx_wf :: "dcontext \<Rightarrow> bool" where
  "ctx_wf c \<longleftrightarrow> hm_wf (ctx_extensions c) \<and> (\<forall>(k, e) \<in> set (ctx_extensions c). ext_name e = k \<and> ext_wf e)"

definition dp_wf :: "dialplan \<Rightarrow> bool" where
  "dp_wf dp \<longleftrightarrow> hm_wf (dp_contexts dp) \<and> (\<forall>(k, c) \<in> set (dp_contexts dp). ctx_name c = k \<and> ctx_wf c)"

lemma ext_wf_new [simp]: "ext_wf (extension_new n)"
  by (simp add: ext_wf_def extension_new_def)

lemma ext_name_simps [simp]:
  "ext_name (extension_new n) = n" "ext_name (add_priority p e) = ext_name e"
  "ext_cidmatch (extension_new n) = None" "ext_cidmatch (add_priority p e) = ext_cidmatch e"
  by (simp_all add: extension_new_def add_priority_def)

lemma ext_wf_add_priority [intro]: "ext_wf e \<Longrightarrow> ext_wf (add_priority p e)"
  by (fastforce simp: ext_wf_def add_priority_def dest: in_set_hinsertD)

lemma get_add_priority: "get_priority (add_priority p e) k = (if k = prio_priority p then Some p else get_priority e k)"
  by (simp add: get_priority_def add_priority_def)

lemma ctx_wf_new [simp]: "ctx_wf (context_new n)"
  by (simp add: ctx_wf_def context_new_def)

lemma ctx_name_simps [simp]:
  "ctx_name (context_new n) = n" "ctx_name (ctx_add_extension e c) = ctx_name c"
  "ctx_name (add_include i c) = ctx_name c"
  by (simp_all add: context_new_def ctx_add_extension_def add_include_def)

lemma ctx_wf_insert:
  "ctx_wf c \<Longrightarrow> ext_wf e \<Longrightarrow> ext_name e = k \<Longrightarrow> ctx_wf (c\<lparr>ctx_extensions := hinsert k e (ctx_extensions c)\<rparr>)"
  by (fastforce simp: ctx_wf_def dest: in_set_hinsertD)

lemma ctx_wf_add_extension [intro]: "ctx_wf c \<Longrightarrow> ext_wf e \<Longrightarrow> ctx_wf (ctx_add_extension e c)"
  by (simp add: ctx_add_extension_def ctx_wf_insert)

lemma ctx_wf_add_include [simp]: "ctx_wf (add_include i c) = ctx_wf c"
  by (simp add: ctx_wf_def add_include_def)

lemma ctx_wf_get: "ctx_wf c \<Longrightarrow> hget (ctx_extensions c) k = Some e \<Longrightarrow> ext_name e = k \<and> ext_wf e"
  by (auto simp: ctx_wf_def dest!: hget_in_set)

lemma dp_wf_new [simp]: "dp_wf dialplan_new"
  by (simp add: dp_wf_def dialplan_new_def)

lemma dp_wf_insert:
  "dp_wf dp \<Longrightarrow> ctx_wf c \<Longrightarrow> ctx_name c = k \<Longrightarrow> dp_wf (dp\<lparr>dp_contexts := hinsert k c (dp_contexts dp)\<rparr>)"
  by (fastforce simp: dp_wf_def dest: in_set_hinsertD)

lemma dp_wf_get: "dp_wf dp \<Longrightarrow> get_context dp k = Some c \<Longrightarrow> ctx_name c = k \<and> ctx_wf c"
  by (auto simp: dp_wf_def get_context_def dest!: hget_in_set)

lemma dp_wf_add_context [intro]: "dp_wf dp \<Longrightarrow> ctx_wf c \<Longrightarrow> dp_wf (add_context c dp)"
  by (simp add: add_context_def dp_wf_insert)

lemma dp_wf_update_context:
  "dp_wf dp \<Longrightarrow> (\<And>c. get_context dp n = Some c \<Longrightarrow> ctx_wf (f c) \<and> ctx_name (f c) = n) \<Longrightarrow>
     dp_wf (update_context f n dp)"
  by (auto simp: update_context_def dp_wf_insert split: option.splits)

lemma dp_wf_add_extension [intro]: "dp_wf dp \<Longrightarrow> ext_wf e \<Longrightarrow> dp_wf (dp_add_extension n e dp)"
  using dp_wf_get [of dp n]
  by (auto simp: dp_add_extension_def intro!: dp_wf_insert split: option.splits)

subsection \<open>What a pattern means\<close>

text \<open>
  The specification of \<^verbatim>\<open>pattern_matches\<close>: a pattern denotes a list of elements, each a
  union of character intervals, ended by an optional tail element; \<open>pat_accepts\<close> is membership
  in its language. It does not mention the scanning state of the matcher.
\<close>

datatype pat_elem = Cls "(char \<times> char) list" | Rest1 | Rest0

fun class_items :: "char option \<Rightarrow> bool \<Rightarrow> string \<Rightarrow> (char \<times> char) list" where
  "class_items prev rng [] = []"
| "class_items prev rng (c # cs) =
     (if c = CHR ''-'' \<and> prev \<noteq> None then class_items prev True cs
      else if rng then
        (case prev of Some start \<Rightarrow> [(start, c)] | None \<Rightarrow> []) @ class_items (Some c) False cs
      else (c, c) # class_items (Some c) False cs)"

definition class_body :: "string \<Rightarrow> string" where
  "class_body = takeWhile (\<lambda>c. c \<noteq> CHR '']'')"

definition class_tail :: "string \<Rightarrow> string" where
  "class_tail s = drop 1 (dropWhile (\<lambda>c. c \<noteq> CHR '']'') s)"

lemma length_class_tail [termination_simp]: "length (class_tail s) < Suc (length s)"
  unfolding class_tail_def using length_dropWhile_le [of "\<lambda>c. c \<noteq> CHR '']''" s] by auto

fun pat_compile :: "string \<Rightarrow> pat_elem list" where
  "pat_compile [] = []"
| "pat_compile (c # cs) =
     (if c = CHR ''.'' then [Rest1]
      else if c = CHR ''!'' then [Rest0]
      else if c = CHR ''X'' then Cls [(CHR ''0'', CHR ''9'')] # pat_compile cs
      else if c = CHR ''Z'' then Cls [(CHR ''1'', CHR ''9'')] # pat_compile cs
      else if c = CHR ''N'' then Cls [(CHR ''2'', CHR ''9'')] # pat_compile cs
      else if c = CHR ''['' then Cls (class_items None False (class_body cs)) # pat_compile (class_tail cs)
      else Cls [(c, c)] # pat_compile cs)"

definition in_class :: "char \<Rightarrow> (char \<times> char) list \<Rightarrow> bool" where
  "in_class c rs \<longleftrightarrow> (\<exists>(lo, hi) \<in> set rs. lo \<le> c \<and> c \<le> hi)"

fun pat_accepts :: "pat_elem list \<Rightarrow> string \<Rightarrow> bool" where
  "pat_accepts [] s = (s = [])"
| "pat_accepts (Rest1 # es) s = (s \<noteq> [])"
| "pat_accepts (Rest0 # es) s = True"
| "pat_accepts (Cls rs # es) [] = False"
| "pat_accepts (Cls rs # es) (c # cs) = (in_class c rs \<and> pat_accepts es cs)"

lemma in_class_simps [simp]:
  "\<not> in_class c []"
  "in_class c ((lo, hi) # rs) \<longleftrightarrow> lo \<le> c \<and> c \<le> hi \<or> in_class c rs"
  by (auto simp: in_class_def)

lemma class_scan_denotes:
  "class_scan ic cm prev rng cs =
     (cm \<or> in_class ic (class_items prev rng (class_body cs)), dropWhile (\<lambda>c. c \<noteq> CHR '']'') cs)"
  by (induction ic cm prev rng cs rule: class_scan.induct)
    (auto simp: class_body_def split: option.splits)

lemma skip_close_dropWhile: "skip_close (dropWhile (\<lambda>c. c \<noteq> CHR '']'') s) = class_tail s"
  by (induction s) (auto simp: skip_close_def class_tail_def split: list.splits)

lemma char_eq_of_char: "c = d \<longleftrightarrow> (of_char c :: nat) = of_char d"
  by simp

lemma digit_ranges:
  "CHR ''0'' \<le> c \<and> c \<le> CHR ''9'' \<longleftrightarrow> is_digit c"
  "CHR ''1'' \<le> c \<and> c \<le> CHR ''9'' \<longleftrightarrow> is_digit c \<and> c \<noteq> CHR ''0''"
  "CHR ''2'' \<le> c \<and> c \<le> CHR ''9'' \<longleftrightarrow> is_digit c \<and> c \<noteq> CHR ''0'' \<and> c \<noteq> CHR ''1''"
  unfolding is_digit_def less_eq_char_def char_eq_of_char [of c]
  by (auto simp del: of_char_eq_iff)

lemma in_class_basic:
  "in_class c [(CHR ''0'', CHR ''9'')] \<longleftrightarrow> is_digit c"
  "in_class c [(CHR ''1'', CHR ''9'')] \<longleftrightarrow> is_digit c \<and> c \<noteq> CHR ''0''"
  "in_class c [(CHR ''2'', CHR ''9'')] \<longleftrightarrow> is_digit c \<and> c \<noteq> CHR ''0'' \<and> c \<noteq> CHR ''1''"
  "in_class c [(d, d)] \<longleftrightarrow> d = c"
  using digit_ranges [of c] by (simp_all add: order.eq_iff [of d c])

lemma pattern_matches_class:
  "pattern_matches (CHR ''['' # ps) (ic # is) \<longleftrightarrow>
     in_class ic (class_items None False (class_body ps)) \<and> pattern_matches (class_tail ps) is"
  by (simp add: class_scan_denotes skip_close_dropWhile)

lemma pattern_matches_denotes: "pattern_matches p s \<longleftrightarrow> pat_accepts (pat_compile p) s"
proof (induction p arbitrary: s rule: pat_compile.induct)
  case 1
  then show ?case by (cases s) simp_all
next
  case (2 c cs)
  show ?case
  proof (cases s)
    case Nil
    then show ?thesis by simp
  next
    case (Cons d ds)
    show ?thesis
    proof (cases "c = CHR ''[''")
      case True
      with 2(4) Cons show ?thesis
        by (simp add: pattern_matches_class del: pattern_matches.simps in_class_simps)
    next
      case False
      with 2(1-3,5) Cons show ?thesis
        by (simp add: in_class_basic del: in_class_simps)
    qed
  qed
qed

lemma pat_accepts_length:
  "pat_accepts es s \<Longrightarrow> Rest1 \<notin> set es \<Longrightarrow> Rest0 \<notin> set es \<Longrightarrow> length s = length es"
  by (induction es s rule: pat_accepts.induct) auto

subsection \<open>Searching through includes\<close>

text \<open>
  The contract the two recursive searches share: a depth-first walk over the include graph that
  pushes each visited name and stops at the first local hit. The walk finds a hit exactly when
  some context reachable through includes has one, whatever cycles the includes form.
\<close>

locale include_walk =
  fixes incl :: "'n \<Rightarrow> 'n list option"
    and hit :: "'n \<Rightarrow> 'r option"
    and walk :: "'n \<Rightarrow> 'n list \<Rightarrow> 'r option \<times> 'n list"
    and walks :: "'n list \<Rightarrow> 'n list \<Rightarrow> 'r option \<times> 'n list"
  assumes finite_nodes: "finite {n. incl n \<noteq> None}"
    and hit_node: "incl n = None \<Longrightarrow> hit n = None"
    and walk_seen: "n \<in> set v \<Longrightarrow> walk n v = (None, v)"
    and walk_missing: "n \<notin> set v \<Longrightarrow> incl n = None \<Longrightarrow> walk n v = (None, v @ [n])"
    and walk_hit: "n \<notin> set v \<Longrightarrow> hit n = Some r \<Longrightarrow> walk n v = (Some r, v @ [n])"
    and walk_descend: "n \<notin> set v \<Longrightarrow> hit n = None \<Longrightarrow> incl n = Some is \<Longrightarrow> walk n v = walks is (v @ [n])"
    and walks_Nil: "walks [] v = (None, v)"
    and walks_Cons_hit: "walk i v = (Some r, v') \<Longrightarrow> walks (i # is) v = (Some r, v')"
    and walks_Cons_miss: "walk i v = (None, v') \<Longrightarrow> walks (i # is) v = walks is v'"
begin

definition edge :: "'n \<Rightarrow> 'n \<Rightarrow> bool" where
  "edge n m \<longleftrightarrow> (\<exists>is. incl n = Some is \<and> m \<in> set is)"

definition todo :: "'n list \<Rightarrow> nat" where
  "todo v = card ({n. incl n \<noteq> None} - set v)"

definition settled :: "'n list \<Rightarrow> 'n \<Rightarrow> bool" where
  "settled v x \<longleftrightarrow> hit x = None \<and> (\<forall>m. edge x m \<longrightarrow> m \<in> set v)"

lemma settled_mono: "settled v x \<Longrightarrow> set v \<subseteq> set w \<Longrightarrow> settled w x"
  by (auto simp: settled_def)

lemma todo_mono: "set v \<subseteq> set w \<Longrightarrow> todo w \<le> todo v"
  unfolding todo_def by (rule card_mono) (auto intro: finite_subset [OF _ finite_nodes])

lemma todo_snoc: "n \<notin> set v \<Longrightarrow> incl n \<noteq> None \<Longrightarrow> todo (v @ [n]) < todo v"
  unfolding todo_def
  by (rule psubset_card_mono) (auto intro: finite_subset [OF _ finite_nodes])

lemma walk_cases:
  obtains (seen) "n \<in> set v" "walk n v = (None, v)"
  | (missing) "n \<notin> set v" "incl n = None" "walk n v = (None, v @ [n])"
  | (hit) r where "n \<notin> set v" "hit n = Some r" "walk n v = (Some r, v @ [n])"
  | (descend) "is" where "n \<notin> set v" "hit n = None" "incl n = Some is" "walk n v = walks is (v @ [n])"
  using walk_seen walk_missing walk_hit walk_descend by (metis not_None_eq)

lemma walks_miss_settles:
  "todo v \<le> k \<Longrightarrow> walks is v = (None, v') \<Longrightarrow>
     set v \<subseteq> set v' \<and> set is \<subseteq> set v' \<and> (\<forall>x \<in> set v' - set v. settled v' x)"
proof (induction k arbitrary: "is" v v' rule: less_induct)
  case (less k)
  have walk: "set u \<subseteq> set u' \<and> n \<in> set u' \<and> (\<forall>x \<in> set u' - set u. settled u' x)"
    if "walk n u = (None, u')" "todo u \<le> k" for n u u'
  proof (cases rule: walk_cases [of n u])
    case (descend "is")
    then have "set (u @ [n]) \<subseteq> set u' \<and> set is \<subseteq> set u' \<and> (\<forall>x \<in> set u' - set (u @ [n]). settled u' x)"
      using less.IH [of "todo (u @ [n])" "u @ [n]" "is" u'] todo_snoc [of n u] that by auto
    moreover from this descend have "settled u' n" by (auto simp: settled_def edge_def)
    ultimately show ?thesis by auto
  next
    case missing
    then have "settled (u @ [n]) n" by (simp add: settled_def edge_def hit_node)
    with missing that show ?thesis by auto
  qed (use that in auto)
  from less.prems show ?case
  proof (induction "is" arbitrary: v)
    case Nil
    then show ?case by (simp add: walks_Nil)
  next
    case (Cons i "is")
    obtain r u where u: "walk i v = (r, u)" by fastforce
    with Cons.prems have r: "r = None"
      using walks_Cons_hit [of i v "the r" u "is"] by (cases r) simp_all
    with u walk [of i v u] Cons.prems have 1: "set v \<subseteq> set u" "i \<in> set u" "\<forall>x \<in> set u - set v. settled u x"
      by auto
    have "walks is u = (None, v')" using Cons.prems u r by (simp add: walks_Cons_miss)
    then have "set u \<subseteq> set v' \<and> set is \<subseteq> set v' \<and> (\<forall>x \<in> set v' - set u. settled v' x)"
      using Cons.IH [of u] Cons.prems todo_mono [OF 1(1)] by simp
    with 1 settled_mono [of u _ v'] show ?case by simp blast
  qed
qed

lemma walks_hit_reaches:
  "todo v \<le> k \<Longrightarrow> walks is v = (Some r, v') \<Longrightarrow> \<exists>i \<in> set is. \<exists>m. edge\<^sup>*\<^sup>* i m \<and> hit m = Some r"
proof (induction k arbitrary: "is" v v' rule: less_induct)
  case (less k)
  have walk: "\<exists>m. edge\<^sup>*\<^sup>* n m \<and> hit m = Some r" if w: "walk n u = (Some r, u')" "todo u \<le> k" for n u u'
  proof (cases rule: walk_cases [of n u])
    case (descend "is")
    then obtain i m where "i \<in> set is" "edge\<^sup>*\<^sup>* i m" "hit m = Some r"
      using less.IH [of "todo (u @ [n])" "u @ [n]" "is" u'] todo_snoc [of n u] w
      by auto
    moreover have "edge n i" using descend calculation by (auto simp: edge_def)
    ultimately show ?thesis by (meson converse_rtranclp_into_rtranclp)
  qed (use w in auto)
  from less.prems show ?case
  proof (induction "is" arbitrary: v)
    case Nil
    then show ?case by (simp add: walks_Nil)
  next
    case (Cons i "is")
    obtain q u where u: "walk i v = (q, u)" by fastforce
    show ?case
    proof (cases q)
      case None
      with u Cons.prems have "walks is u = (Some r, v')" by (simp add: walks_Cons_miss)
      moreover have "set v \<subseteq> set u"
        using u None Cons.prems walks_miss_settles [of v k "[i]" u]
        by (simp add: walks_Cons_miss walks_Nil)
      ultimately show ?thesis using Cons.IH [of u] Cons.prems todo_mono [of v u] by force
    next
      case (Some r')
      with u Cons.prems have "r' = r" using walks_Cons_hit [of i v r' u "is"] by simp
      with Some u walk [of i v u] Cons.prems show ?thesis by auto
    qed
  qed
qed

lemma walk_single: "fst (walk n v) = fst (walks [n] v)"
proof (cases "walk n v")
  case (Pair r v')
  then show ?thesis
    using walks_Cons_hit [of n v "the r" v' "[]"] walks_Cons_miss [of n v v' "[]"] walks_Nil [of v']
    by (cases r) simp_all
qed

lemma walk_sound:
  assumes "fst (walk n []) = Some r"
  shows "\<exists>m. edge\<^sup>*\<^sup>* n m \<and> hit m = Some r"
proof -
  from assms have "walks [n] [] = (Some r, snd (walks [n] []))"
    unfolding walk_single by (metis prod.collapse)
  from walks_hit_reaches [OF order.refl this] show ?thesis by simp
qed

lemma walk_complete:
  assumes "fst (walk n []) = None" and "edge\<^sup>*\<^sup>* n m"
  shows "hit m = None"
proof -
  define v where "v = snd (walks [n] [])"
  from assms(1) have "walks [n] [] = (None, v)"
    unfolding walk_single v_def by (metis prod.collapse)
  from walks_miss_settles [OF order.refl this]
  have v: "n \<in> set v" "\<forall>x \<in> set v. settled v x" by simp_all
  from assms(2) have "m \<in> set v"
  proof induction
    case (step y z)
    with v(2) show ?case by (simp add: settled_def)
  qed (rule v(1))
  with v show ?thesis by (simp add: settled_def)
qed

lemma walk_finds_iff: "fst (walk n []) \<noteq> None \<longleftrightarrow> (\<exists>m. edge\<^sup>*\<^sup>* n m \<and> hit m \<noteq> None)"
proof
  assume "fst (walk n []) \<noteq> None"
  then obtain r where "fst (walk n []) = Some r" by blast
  from walk_sound [OF this] show "\<exists>m. edge\<^sup>*\<^sup>* n m \<and> hit m \<noteq> None" by auto
next
  assume "\<exists>m. edge\<^sup>*\<^sup>* n m \<and> hit m \<noteq> None"
  then obtain m where "edge\<^sup>*\<^sup>* n m" "hit m \<noteq> None" by iprover
  then show "fst (walk n []) \<noteq> None" using walk_complete [of n m] by iprover
qed

end

text \<open>The include relation of a dialplan, and the two searches as instances of the contract.\<close>

inductive incl_reach :: "dialplan \<Rightarrow> string \<Rightarrow> string \<Rightarrow> bool" for dp where
  incl_refl: "incl_reach dp n n"
| incl_step: "incl_reach dp n m \<Longrightarrow> get_context dp m = Some c \<Longrightarrow> k \<in> set (ctx_includes c) \<Longrightarrow> incl_reach dp n k"

inductive_cases incl_reachE: "incl_reach dp n m"

definition dp_incl :: "dialplan \<Rightarrow> string \<Rightarrow> string list option" where
  "dp_incl dp n = map_option ctx_includes (get_context dp n)"

definition find_hit :: "dialplan \<Rightarrow> string \<Rightarrow> string \<Rightarrow> (dcontext \<times> extension) option" where
  "find_hit dp exten n =
     (case get_context dp n of Some c \<Rightarrow> map_option (Pair c) (ctx_find_extension c exten) | None \<Rightarrow> None)"

definition could_hit :: "dialplan \<Rightarrow> string \<Rightarrow> string \<Rightarrow> unit option" where
  "could_hit dp exten n =
     (case get_context dp n of Some c \<Rightarrow> if ctx_could_match c exten then Some () else None | None \<Rightarrow> None)"

abbreviation as_hit :: "bool \<times> 'v \<Rightarrow> unit option \<times> 'v" where
  "as_hit \<equiv> apfst (\<lambda>b. if b then Some () else None)"

lemma finite_dp_incl: "finite {n. dp_incl dp n \<noteq> None}"
  using finite_dom_map_of [of "dp_contexts dp"]
  by (simp add: dp_incl_def get_context_def dom_def)

interpretation find_walk: include_walk "dp_incl dp" "find_hit dp exten"
    "\<lambda>n v. find_extension_recursive dp n exten v" "\<lambda>is v. find_in_includes dp is exten v"
  for dp exten
  by unfold_locales
    (rule finite_dp_incl,
     auto simp: find_extension_recursive.simps dp_incl_def find_hit_def split: option.splits)

interpretation could_walk: include_walk "dp_incl dp" "could_hit dp exten"
    "\<lambda>n v. as_hit (could_match_recursive dp n exten v)"
    "\<lambda>is v. as_hit (could_match_includes dp is exten v)"
  for dp exten
  by unfold_locales
    (rule finite_dp_incl,
     auto simp: could_match_recursive.simps dp_incl_def could_hit_def prod_eq_iff
       split: option.splits if_splits prod.splits)

lemma incl_reach_iff: "(find_walk.edge dp)\<^sup>*\<^sup>* n m \<longleftrightarrow> incl_reach dp n m"
proof
  assume "(find_walk.edge dp)\<^sup>*\<^sup>* n m"
  then show "incl_reach dp n m"
  proof induction
    case (step y z)
    from step.hyps(2) obtain c where "get_context dp y = Some c" "z \<in> set (ctx_includes c)"
      unfolding find_walk.edge_def dp_incl_def by fastforce
    then show ?case by (rule incl_step [OF step.IH])
  qed (rule incl_refl)
next
  assume "incl_reach dp n m"
  then show "(find_walk.edge dp)\<^sup>*\<^sup>* n m"
  proof induction
    case (incl_step n m c k)
    then have "find_walk.edge dp m k" by (simp add: find_walk.edge_def dp_incl_def)
    then show ?case by (rule rtranclp.rtrancl_into_rtrancl [OF incl_step.IH])
  qed simp
qed

lemma find_hit_Some_iff:
  "find_hit dp exten m = Some (c, e) \<longleftrightarrow> get_context dp m = Some c \<and> ctx_find_extension c exten = Some e"
  by (auto simp: find_hit_def split: option.splits)

lemma could_hit_Some_iff:
  "could_hit dp exten m \<noteq> None \<longleftrightarrow> (\<exists>c. get_context dp m = Some c \<and> ctx_could_match c exten)"
  by (auto simp: could_hit_def split: option.splits)

subsection \<open>Lookup within a context\<close>

lemma find_best_SomeD:
  "find_best x cid b es = Some e \<Longrightarrow> b = Some e \<or> e \<in> set es \<and> matches_with_cid e x cid"
  by (induction x cid b es rule: find_best.induct) (auto split: if_splits)

lemma find_best_None_iff:
  "find_best x cid b es = None \<longleftrightarrow> b = None \<and> (\<forall>e \<in> set es. \<not> matches_with_cid e x cid)"
  by (induction x cid b es rule: find_best.induct) auto

lemma find_best_cid:
  "e \<in> set es \<Longrightarrow> matches_with_cid e x cid \<Longrightarrow> ext_cidmatch e \<noteq> None \<Longrightarrow>
     \<exists>e'. find_best x cid b es = Some e' \<and> ext_cidmatch e' \<noteq> None"
  by (induction es arbitrary: b) auto

lemma matches_no_cid: "matches_with_cid e x None \<Longrightarrow> ext_cidmatch e = None"
  by (cases "ext_cidmatch e") (auto simp: matches_with_cid_def Let_def split: if_splits)

lemma matches_own_name: "ext_cidmatch e = None \<Longrightarrow> matches_with_cid e (ext_name e) cid"
  by (simp add: matches_with_cid_def)

lemma ctx_find_extension_with_cid_SomeD:
  "ctx_find_extension_with_cid c x cid = Some e \<Longrightarrow>
     e \<in> snd ` set (ctx_extensions c) \<and> matches_with_cid e x cid"
  unfolding ctx_find_extension_with_cid_def
  by (auto split: option.splits if_splits dest!: find_best_SomeD map_of_SomeD intro: rev_image_eqI)

lemma ctx_find_extension_with_cid_None_iff:
  "ctx_find_extension_with_cid c x cid = None \<longleftrightarrow>
     \<not> (\<exists>e \<in> snd ` set (ctx_extensions c). matches_with_cid e x cid)"
  unfolding ctx_find_extension_with_cid_def
  by (auto simp: find_best_None_iff split: option.splits dest!: map_of_SomeD) force

lemma ctx_find_added:
  "ext_cidmatch e = None \<Longrightarrow> ctx_find_extension (ctx_add_extension e c) (ext_name e) = Some e"
  by (simp add: ctx_find_extension_def ctx_find_extension_with_cid_def ctx_add_extension_def
      matches_own_name hget_hinsert)

subsection \<open>Properties\<close>

text \<open>(C9) The extension-pattern matcher accepts exactly the language its pattern denotes: the
  compiled pattern is a sequence of character classes (X, Z, N, bracket classes with ranges,
  literals), ended by \<^verbatim>\<open>.\<close> for at least one further character or \<^verbatim>\<open>!\<close> for any rest.\<close>

theorem pattern_matches_language: "pattern_matches p s \<longleftrightarrow> pat_accepts (pat_compile p) s"
  by (rule pattern_matches_denotes)

text \<open>A pattern without a wildcard tail matches only inputs with exactly one character for
  each of its elements.\<close>

theorem pattern_matches_length:
  assumes "pattern_matches p s" and "Rest1 \<notin> set (pat_compile p)" and "Rest0 \<notin> set (pat_compile p)"
  shows "length s = length (pat_compile p)"
  using assms pat_accepts_length by (simp add: pattern_matches_denotes)

theorem pattern_matches_length_witness:
  "length ''5301'' = length (pat_compile ''N[2-4]XX'')"
  by (rule pattern_matches_length) code_simp+

text \<open>(C2) Searching a dialplan through its includes is sound and complete, cyclic includes
  included: a result is the lookup of a context reachable from the start context, and no result
  means that no reachable context has a matching extension.\<close>

theorem dp_find_extension_reachable:
  "case dp_find_extension dp n x of
     Some (c, e) \<Rightarrow> \<exists>m. incl_reach dp n m \<and> get_context dp m = Some c \<and> ctx_find_extension c x = Some e
   | None \<Rightarrow> \<not> (\<exists>m c e. incl_reach dp n m \<and> get_context dp m = Some c \<and> ctx_find_extension c x = Some e)"
proof (cases "dp_find_extension dp n x")
  case None
  then have "find_hit dp x m = None" if "incl_reach dp n m" for m
    using find_walk.walk_complete [of dp n x m] that
    by (simp add: dp_find_extension_def incl_reach_iff)
  with None show ?thesis by (auto simp flip: find_hit_Some_iff)
next
  case (Some r)
  then obtain m where "incl_reach dp n m" "find_hit dp x m = Some r"
    using find_walk.walk_sound [of dp n x r] by (auto simp: dp_find_extension_def incl_reach_iff)
  with Some show ?thesis by (cases r) (auto simp: find_hit_Some_iff)
qed

text \<open>Overlap dialling asks every context reachable through includes, and only those.\<close>

theorem dp_could_match_reachable:
  "dp_could_match dp n x \<longleftrightarrow>
     (\<exists>m c. incl_reach dp n m \<and> get_context dp m = Some c \<and> ctx_could_match c x)"
  using could_walk.walk_finds_iff [of dp n x]
  unfolding could_hit_Some_iff incl_reach_iff by (simp add: dp_could_match_def split: if_splits)

text \<open>The lookup in one context returns an extension of that context that matches the number
  and the caller id, whatever the iteration order of the extension table, and returns nothing only
  when no extension matches.\<close>

theorem ctx_find_extension_with_cid_correct:
  "case ctx_find_extension_with_cid c x cid of
     Some e \<Rightarrow> e \<in> snd ` set (ctx_extensions c) \<and> matches_with_cid e x cid
   | None \<Rightarrow> \<not> (\<exists>e \<in> snd ` set (ctx_extensions c). matches_with_cid e x cid)"
  using ctx_find_extension_with_cid_SomeD [of c x cid] ctx_find_extension_with_cid_None_iff [of c x cid]
  by (cases "ctx_find_extension_with_cid c x cid") simp_all

text \<open>When no extension is registered under the dialled number itself, a matching extension
  with a caller-id restriction takes precedence over every unrestricted one.\<close>

theorem ctx_find_extension_prefers_cid:
  assumes "hget (ctx_extensions c) x = None" and "e \<in> snd ` set (ctx_extensions c)"
    and "matches_with_cid e x cid" and "ext_cidmatch e \<noteq> None"
  shows "\<exists>e'. ctx_find_extension_with_cid c x cid = Some e' \<and> ext_cidmatch e' \<noteq> None"
  using assms find_best_cid [of e "map snd (ctx_extensions c)"]
  by (simp add: ctx_find_extension_with_cid_def)

theorem ctx_find_extension_prefers_cid_witness:
  "\<exists>e'. ctx_find_extension_with_cid
      (ctx_add_extension (extension_new_with_cid ''_10X'' ''_55XX'')
        (ctx_add_extension (extension_new ''_1XX'') (context_new ''default''))) ''101'' (Some ''5512'')
      = Some e' \<and> ext_cidmatch e' \<noteq> None"
  by (rule ctx_find_extension_prefers_cid [where e = "extension_new_with_cid ''_10X'' ''_55XX''"]) code_simp+

text \<open>The dialplan search used by the executor passes no caller id, so it never returns an
  extension that carries a caller-id restriction.\<close>

theorem dp_find_extension_ignores_cid_extensions:
  assumes "dp_find_extension dp n x = Some (c, e)"
  shows "ext_cidmatch e = None"
proof -
  from assms have "ctx_find_extension c x = Some e"
    using find_walk.walk_sound [of dp n x "(c, e)"]
    by (auto simp: dp_find_extension_def find_hit_Some_iff)
  then show ?thesis
    using ctx_find_extension_with_cid_SomeD matches_no_cid unfolding ctx_find_extension_def by iprover
qed

theorem dp_find_extension_ignores_cid_extensions_witness:
  "ext_cidmatch (extension_new ''100'') = None"
  by (rule dp_find_extension_ignores_cid_extensions
      [where dp = "dp_add_extension ''default'' (extension_new ''100'') dialplan_new"
        and n = "''default''" and x = "''100''"
        and c = "ctx_add_extension (extension_new ''100'') (context_new ''default'')"]) code_simp

text \<open>An unrestricted extension that has been added to a context is what a search for its
  name in that context returns.\<close>

theorem dp_add_extension_found:
  assumes "ext_cidmatch e = None"
  shows "\<exists>c. dp_find_extension (dp_add_extension n e dp) n (ext_name e) = Some (c, e)"
  using assms ctx_find_added [of e]
  by (simp add: dp_find_extension_def find_extension_recursive.simps dp_add_extension_def
      get_context_def hget_hinsert)

theorem dp_add_extension_found_witness:
  "\<exists>c. dp_find_extension (dp_add_extension ''a'' (extension_new ''7'') dialplan_new) ''a''
      (ext_name (extension_new ''7'')) = Some (c, extension_new ''7'')"
  by (rule dp_add_extension_found) code_simp

end
