(* ===== verification/Pbx_Config.thy ===== *)
theory Pbx_Config
  imports Dialplan
begin

section \<open>Loading extensions.conf\<close>

text \<open>
  The loader of \<^verbatim>\<open>asterisk-core/src/pbx/pbx_config.rs\<close>: the parsers of one directive and the
  line loop that builds the dialplan, with its counters, its warnings, the table of last used
  priorities behind \<^verbatim>\<open>n\<close> and the remembered pattern behind \<^verbatim>\<open>same =>\<close>. The one
  \<^verbatim>\<open>unwrap\<close> of the loop is a \<^const>\<open>None\<close> result of the step.
\<close>

subsection \<open>Parsers of one directive\<close>

definition parse_priority :: "string \<Rightarrow> (i32 \<times> string option) option" where
  "parse_priority s =
     (if eq_ignore_ascii_case s ''n'' then Some (- 1, None)
      else if eq_ignore_ascii_case s ''hint'' then Some (- 2, None)
      else case find_char CHR ''('' s of
             Some paren_pos \<Rightarrow>
               (let prio_part = take paren_pos s;
                    label_part = drop (paren_pos + 1) s;
                    label = trim_end_matches CHR '')'' label_part
                in if eq_ignore_ascii_case prio_part ''n'' then Some (- 1, Some label)
                   else case parse_i32 prio_part of
                          Some prio \<Rightarrow> Some (prio, Some label)
                        | None \<Rightarrow> None)
           | None \<Rightarrow>
               (case parse_i32 s of Some prio \<Rightarrow> Some (prio, None) | None \<Rightarrow> None))"

definition parse_application :: "string \<Rightarrow> string \<times> string" where
  "parse_application s =
     (case find_char CHR ''('' s of
        Some paren_pos \<Rightarrow>
          (trim (take paren_pos s), trim_end_matches CHR '')'' (drop (paren_pos + 1) s))
      | None \<Rightarrow> (trim s, []))"

definition parse_exten_line :: "string \<Rightarrow> (string \<times> i32 \<times> string option \<times> string \<times> string) option" where
  "parse_exten_line line =
     (case splitn 2 CHR '','' line of
        [p0, rest] \<Rightarrow>
          (let pattern = trim p0 in
           case splitn 2 CHR '','' rest of
             [q0, q1] \<Rightarrow>
               (case parse_priority (trim q0) of
                  Some (priority, label) \<Rightarrow>
                    (case parse_application (trim q1) of
                       (app, app_data) \<Rightarrow> Some (pattern, priority, label, app, app_data))
                | None \<Rightarrow> None)
           | _ \<Rightarrow> None)
      | _ \<Rightarrow> None)"

definition parse_same_line :: "string \<Rightarrow> (i32 \<times> string option \<times> string \<times> string) option" where
  "parse_same_line line =
     (case splitn 2 CHR '','' line of
        [q0, q1] \<Rightarrow>
          (case parse_priority (trim q0) of
             Some (priority, label) \<Rightarrow>
               (case parse_application (trim q1) of
                  (app, app_data) \<Rightarrow> Some (priority, label, app, app_data))
           | None \<Rightarrow> None)
      | _ \<Rightarrow> None)"

subsection \<open>The loader\<close>

record load_result =
  lr_contexts :: nat
  lr_extensions :: nat
  lr_priorities :: nat
  lr_includes :: nat
  lr_warnings :: "string list"

record load_state =
  ls_dialplan :: dialplan
  ls_result :: load_result
  ls_current :: "string option"
  ls_next_prio :: "(string \<times> string, i32) hashmap"
  ls_last_exten :: "string option"

definition load_init :: load_state where
  "load_init = \<lparr>ls_dialplan = dialplan_new,
     ls_result = \<lparr>lr_contexts = 0, lr_extensions = 0, lr_priorities = 0, lr_includes = 0, lr_warnings = []\<rparr>,
     ls_current = None, ls_next_prio = [], ls_last_exten = None\<rparr>"

definition warn :: "nat \<Rightarrow> string \<Rightarrow> load_state \<Rightarrow> load_state" where
  "warn line_num msg st =
     st\<lparr>ls_result := (ls_result st)\<lparr>lr_warnings :=
          lr_warnings (ls_result st) @ [''Line '' @ show_nat (line_num + 1) @ '': '' @ msg]\<rparr>\<rparr>"

text \<open>\<^verbatim>\<open>kw => data\<close> or \<^verbatim>\<open>kw = data\<close>, with optional blanks after the keyword.\<close>

definition directive :: "string \<Rightarrow> string \<Rightarrow> string option" where
  "directive kw line =
     (case Option.bind (strip_prefix kw line) (\<lambda>s. strip_prefix ''=>'' (trim_start s)) of
        Some d \<Rightarrow> Some d
      | None \<Rightarrow> Option.bind (strip_prefix kw line) (\<lambda>s. strip_prefix ''='' (trim_start s)))"

text \<open>The resolution of \<^verbatim>\<open>n\<close> against the last priority used for a context and pattern.\<close>

definition resolve_priority ::
  "string \<times> string \<Rightarrow> i32 \<Rightarrow> (string \<times> string, i32) hashmap \<Rightarrow> i32 \<times> (string \<times> string, i32) hashmap" where
  "resolve_priority key priority next_prio =
     (if priority = - 1 then
        (let last = (case hget next_prio key of Some p \<Rightarrow> p | None \<Rightarrow> 0);
             priority' = last + 1
         in (priority', hinsert key priority' next_prio))
      else if 0 <s priority then (priority, hinsert key priority next_prio)
      else (priority, next_prio))"

text \<open>Storing a parsed priority: the tail the \<^verbatim>\<open>exten\<close> and \<^verbatim>\<open>same\<close> branches share.\<close>

definition store_priority ::
  "string \<Rightarrow> string \<Rightarrow> i32 \<Rightarrow> string option \<Rightarrow> string \<Rightarrow> string \<Rightarrow> load_state \<Rightarrow> load_state option" where
  "store_priority ctx_nm pattern priority0 label app app_data st =
     (case resolve_priority (ctx_nm, pattern) priority0 (ls_next_prio st) of
        (priority, next_prio) \<Rightarrow>
          (let prio = \<lparr>prio_priority = priority, prio_app = app, prio_app_data = app_data, prio_label = label\<rparr>
           in case get_context (ls_dialplan st) ctx_nm of
                None \<Rightarrow> None
              | Some ctx \<Rightarrow>
                  (let (ctx', fresh) =
                     (case hget (ctx_extensions ctx) pattern of
                        Some ext \<Rightarrow>
                          (ctx\<lparr>ctx_extensions := hinsert pattern (add_priority prio ext) (ctx_extensions ctx)\<rparr>, 0)
                      | None \<Rightarrow> (ctx_add_extension (add_priority prio (extension_new pattern)) ctx, 1))
                   in Some (st\<lparr>ls_dialplan := update_context (\<lambda>_. ctx') ctx_nm (ls_dialplan st),
                               ls_next_prio := next_prio,
                               ls_result := (ls_result st)\<lparr>
                                 lr_extensions := lr_extensions (ls_result st) + fresh,
                                 lr_priorities := lr_priorities (ls_result st) + 1\<rparr>\<rparr>))))"

definition load_context_header :: "string \<Rightarrow> load_state \<Rightarrow> load_state" where
  "load_context_header ctx_nm st =
     (let st = st\<lparr>ls_current := Some ctx_nm, ls_last_exten := None\<rparr>
      in if get_context (ls_dialplan st) ctx_nm = None then
           st\<lparr>ls_dialplan := add_context (context_new ctx_nm) (ls_dialplan st),
              ls_result := (ls_result st)\<lparr>lr_contexts := lr_contexts (ls_result st) + 1\<rparr>\<rparr>
         else st)"

definition load_exten :: "nat \<Rightarrow> string \<Rightarrow> string \<Rightarrow> load_state \<Rightarrow> load_state option" where
  "load_exten line_num ctx_nm exten_data st =
     (case parse_exten_line exten_data of
        Some (pattern, priority, label, app, app_data) \<Rightarrow>
          map_option (\<lambda>st'. st'\<lparr>ls_last_exten := Some pattern\<rparr>)
            (store_priority ctx_nm pattern priority label app app_data st)
      | None \<Rightarrow> Some (warn line_num (''invalid exten => line: '' @ exten_data) st))"

definition load_same :: "nat \<Rightarrow> string \<Rightarrow> string \<Rightarrow> load_state \<Rightarrow> load_state option" where
  "load_same line_num ctx_nm same_data st =
     (case ls_last_exten st of
        None \<Rightarrow> Some (warn line_num ''same => without preceding exten =>'' st)
      | Some pattern \<Rightarrow>
          (case parse_same_line same_data of
             Some (priority, label, app, app_data) \<Rightarrow>
               store_priority ctx_nm pattern priority label app app_data st
           | None \<Rightarrow> Some (warn line_num (''invalid same => line: '' @ same_data) st)))"

definition load_include :: "string \<Rightarrow> string \<Rightarrow> load_state \<Rightarrow> load_state" where
  "load_include ctx_nm include_data st =
     (case get_context (ls_dialplan st) ctx_nm of
        Some ctx \<Rightarrow>
          st\<lparr>ls_dialplan := update_context (add_include (trim include_data)) ctx_nm (ls_dialplan st),
             ls_result := (ls_result st)\<lparr>lr_includes := lr_includes (ls_result st) + 1\<rparr>\<rparr>
      | None \<Rightarrow> st)"

definition strip_comment :: "string \<Rightarrow> string" where
  "strip_comment line =
     (case find_char CHR '';'' line of Some pos \<Rightarrow> trim (take pos line) | None \<Rightarrow> line)"

definition load_line :: "nat \<Rightarrow> string \<Rightarrow> load_state \<Rightarrow> load_state option" where
  "load_line line_num raw_line st =
     (let line = trim raw_line
      in if line = [] \<or> starts_with '';'' line \<or> starts_with ''#'' line then Some st
         else
           let line = strip_comment line
           in if starts_with ''['' line \<and> ends_with '']'' line then
                Some (load_context_header (take (length line - 2) (drop 1 line)) st)
              else case ls_current st of
                     None \<Rightarrow> Some (warn line_num ''directive outside of any context'' st)
                   | Some ctx_nm \<Rightarrow>
                       (case directive ''exten'' line of
                          Some d \<Rightarrow> load_exten line_num ctx_nm (trim d) st
                        | None \<Rightarrow>
                            (case directive ''same'' line of
                               Some d \<Rightarrow> load_same line_num ctx_nm (trim d) st
                             | None \<Rightarrow>
                                 (case directive ''include'' line of
                                    Some d \<Rightarrow> Some (load_include ctx_nm d st)
                                  | None \<Rightarrow> Some st))))"

fun load_lines :: "nat \<Rightarrow> string list \<Rightarrow> load_state \<Rightarrow> load_state option" where
  "load_lines line_num [] st = Some st"
| "load_lines line_num (raw_line # ls) st =
     (case load_line line_num raw_line st of
        Some st' \<Rightarrow> load_lines (line_num + 1) ls st'
      | None \<Rightarrow> None)"

definition load_extensions_conf :: "string \<Rightarrow> (dialplan \<times> load_result) option" where
  "load_extensions_conf content =
     map_option (\<lambda>st. (ls_dialplan st, ls_result st)) (load_lines 0 (str_lines content) load_init)"

subsection \<open>Invariant of the loader\<close>

definition total_extensions :: "dialplan \<Rightarrow> nat" where
  "total_extensions dp = hsum (\<lambda>c. length (ctx_extensions c)) (dp_contexts dp)"

definition total_priorities :: "dialplan \<Rightarrow> nat" where
  "total_priorities dp = hsum (\<lambda>c. hsum (\<lambda>e. length (ext_priorities e)) (ctx_extensions c)) (dp_contexts dp)"

definition total_includes :: "dialplan \<Rightarrow> nat" where
  "total_includes dp = hsum (\<lambda>c. length (ctx_includes c)) (dp_contexts dp)"

lemmas totals = total_extensions_def total_priorities_def total_includes_def

definition counts_ok :: "dialplan \<Rightarrow> load_result \<Rightarrow> bool" where
  "counts_ok dp r \<longleftrightarrow> lr_contexts r = length (dp_contexts dp) \<and> lr_extensions r = total_extensions dp
     \<and> lr_includes r = total_includes dp \<and> total_priorities dp \<le> lr_priorities r"

definition load_inv :: "load_state \<Rightarrow> bool" where
  "load_inv st \<longleftrightarrow> dp_wf (ls_dialplan st) \<and> counts_ok (ls_dialplan st) (ls_result st)
     \<and> (\<forall>n. ls_current st = Some n \<longrightarrow> get_context (ls_dialplan st) n \<noteq> None)"

lemma load_inv_init: "load_inv load_init"
  by (simp add: load_inv_def load_init_def counts_ok_def totals dialplan_new_def dp_wf_def)

lemma load_inv_warn [simp]: "load_inv (warn k msg st) = load_inv st"
  by (simp add: load_inv_def warn_def counts_ok_def)

lemma get_update_context:
  "get_context (update_context f n dp) m = (if m = n then map_option f (get_context dp n) else get_context dp m)"
  by (auto simp: update_context_def get_context_def split: option.splits)

lemma totals_update_context:
  assumes "get_context dp n = Some c"
  shows "length (dp_contexts (update_context f n dp)) = length (dp_contexts dp)"
    and "total_extensions (update_context f n dp) + length (ctx_extensions c)
           = total_extensions dp + length (ctx_extensions (f c))"
    and "total_includes (update_context f n dp) + length (ctx_includes c)
           = total_includes dp + length (ctx_includes (f c))"
    and "total_priorities (update_context f n dp) + hsum (\<lambda>e. length (ext_priorities e)) (ctx_extensions c)
           = total_priorities dp + hsum (\<lambda>e. length (ext_priorities e)) (ctx_extensions (f c))"
  using assms hsum_hinsert [of _ n "f c" "dp_contexts dp"]
  by (simp_all add: update_context_def totals get_context_def length_hinsert)

lemma load_inv_header: "load_inv st \<Longrightarrow> load_inv (load_context_header n st)"
  using hsum_hinsert [of _ n "context_new n" "dp_contexts (ls_dialplan st)"]
  by (auto simp: load_inv_def load_context_header_def Let_def counts_ok_def totals add_context_def
      get_context_def length_hinsert context_new_def ctx_wf_def
      intro!: dp_wf_insert [of "ls_dialplan st" "context_new n", unfolded context_new_def])

lemma load_inv_include: "load_inv st \<Longrightarrow> load_inv (load_include n d st)"
  using totals_update_context [of "ls_dialplan st" n _ "add_include (trim d)"] dp_wf_get [of "ls_dialplan st" n]
  by (auto simp: load_inv_def load_include_def counts_ok_def get_update_context add_include_def ctx_wf_def
      split: option.splits intro!: dp_wf_update_context)

text \<open>The change \<^const>\<open>store_priority\<close> makes to its context, and whether the extension is new.\<close>

definition put_priority :: "string \<Rightarrow> priority \<Rightarrow> dcontext \<Rightarrow> dcontext \<times> nat" where
  "put_priority pattern prio ctx =
     (case hget (ctx_extensions ctx) pattern of
        Some ext \<Rightarrow> (ctx\<lparr>ctx_extensions := hinsert pattern (add_priority prio ext) (ctx_extensions ctx)\<rparr>, 0)
      | None \<Rightarrow> (ctx_add_extension (add_priority prio (extension_new pattern)) ctx, 1))"

lemma length_add_priority: "length (ext_priorities (add_priority p e)) \<le> Suc (length (ext_priorities e))"
  by (simp add: add_priority_def length_hinsert)

lemma put_priority_props:
  assumes "put_priority pattern prio ctx = (ctx', fresh)"
  shows "length (ctx_extensions ctx') = length (ctx_extensions ctx) + fresh"
    and "ctx_includes ctx' = ctx_includes ctx"
    and "hsum (\<lambda>e. length (ext_priorities e)) (ctx_extensions ctx')
           \<le> Suc (hsum (\<lambda>e. length (ext_priorities e)) (ctx_extensions ctx))"
    and "ctx_wf ctx \<Longrightarrow> ctx_wf ctx'" and "ctx_name ctx' = ctx_name ctx"
proof -
  let ?f = "\<lambda>e. length (ext_priorities e)"
  show "length (ctx_extensions ctx') = length (ctx_extensions ctx) + fresh"
    "ctx_includes ctx' = ctx_includes ctx" "ctx_name ctx' = ctx_name ctx"
    using assms by (auto simp: put_priority_def ctx_add_extension_def length_hinsert split: option.splits)
  show "ctx_wf ctx'" if "ctx_wf ctx"
    using assms ctx_wf_get [OF that, of pattern] that
    by (auto simp: put_priority_def split: option.splits intro!: ctx_wf_insert ctx_wf_add_extension ext_wf_add_priority)
  show "hsum ?f (ctx_extensions ctx') \<le> Suc (hsum ?f (ctx_extensions ctx))"
  proof (cases "hget (ctx_extensions ctx) pattern")
    case None
    then show ?thesis
      using assms hsum_hinsert [of ?f pattern "add_priority prio (extension_new pattern)" "ctx_extensions ctx"]
        length_add_priority [of prio "extension_new pattern"]
      by (auto simp: put_priority_def ctx_add_extension_def extension_new_def)
  next
    case (Some e)
    then show ?thesis
      using assms hsum_hinsert [of ?f pattern "add_priority prio e" "ctx_extensions ctx"]
        length_add_priority [of prio e]
      by (auto simp: put_priority_def)
  qed
qed

lemma store_priority_unfold:
  "store_priority n pattern p0 label app d st =
     (case resolve_priority (n, pattern) p0 (ls_next_prio st) of
        (p, np) \<Rightarrow>
          (case get_context (ls_dialplan st) n of
             None \<Rightarrow> None
           | Some ctx \<Rightarrow>
               (case put_priority pattern
                    \<lparr>prio_priority = p, prio_app = app, prio_app_data = d, prio_label = label\<rparr> ctx of
                  (ctx', fresh) \<Rightarrow>
                    Some (st\<lparr>ls_dialplan := update_context (\<lambda>_. ctx') n (ls_dialplan st), ls_next_prio := np,
                      ls_result := (ls_result st)\<lparr>lr_extensions := lr_extensions (ls_result st) + fresh,
                        lr_priorities := lr_priorities (ls_result st) + 1\<rparr>\<rparr>))))"
  unfolding store_priority_def put_priority_def Let_def by (simp split: prod.splits option.splits)

lemma load_inv_store:
  assumes "load_inv st" and "get_context (ls_dialplan st) n \<noteq> None"
  shows "\<exists>st'. store_priority n pattern p0 label app d st = Some st' \<and> load_inv st'"
proof -
  from assms(2) obtain ctx where ctx: "get_context (ls_dialplan st) n = Some ctx" by blast
  obtain p np where p: "resolve_priority (n, pattern) p0 (ls_next_prio st) = (p, np)" by fastforce
  obtain ctx' fresh where put: "put_priority pattern
      \<lparr>prio_priority = p, prio_app = app, prio_app_data = d, prio_label = label\<rparr> ctx = (ctx', fresh)"
    by fastforce
  note pp = put_priority_props [OF put]
  note tot = totals_update_context [OF ctx, of "\<lambda>_. ctx'"]
  from assms(1) ctx have wf: "ctx_wf ctx" "ctx_name ctx = n"
    by (auto simp: load_inv_def dest: dp_wf_get)
  have "dp_wf (update_context (\<lambda>_. ctx') n (ls_dialplan st))"
    using assms(1) pp(4,5) wf by (intro dp_wf_update_context) (auto simp: load_inv_def)
  then show ?thesis
    using assms(1) pp(1-3) tot p ctx put
    by (simp add: store_priority_unfold load_inv_def counts_ok_def get_update_context)
qed

lemma load_inv_line:
  assumes "load_inv st"
  shows "\<exists>st'. load_line k l st = Some st' \<and> load_inv st'"
proof -
  have cur: "get_context (ls_dialplan st) n \<noteq> None" if "ls_current st = Some n" for n
    using assms that by (simp add: load_inv_def)
  have last: "load_inv (s\<lparr>ls_last_exten := e\<rparr>) = load_inv s" for s e
    by (simp add: load_inv_def)
  have ex: "\<exists>st'. load_exten k n d st = Some st' \<and> load_inv st'" if "ls_current st = Some n" for n d
    using load_inv_store [OF assms cur [OF that]] assms
    by (fastforce simp: load_exten_def last split: option.splits)
  have sm: "\<exists>st'. load_same k n d st = Some st' \<and> load_inv st'" if "ls_current st = Some n" for n d
    using load_inv_store [OF assms cur [OF that]] assms
    by (fastforce simp: load_same_def split: option.splits)
  show ?thesis
    using assms ex sm
    by (auto simp: load_line_def Let_def load_inv_header load_inv_include split: option.split)
qed

lemma load_inv_lines: "load_inv st \<Longrightarrow> \<exists>st'. load_lines k ls st = Some st' \<and> load_inv st'"
proof (induction ls arbitrary: k st)
  case (Cons l ls)
  then show ?case using load_inv_line [of st k l] by fastforce
qed simp

subsection \<open>What the parsers read back\<close>

lemma splitn_2_append [simp]: "d \<notin> set a \<Longrightarrow> splitn 2 d (a @ d # b) = [a, b]"
  by (simp add: numeral_2_eq_2)

lemma trim_end_matches_snoc: "trim_end_matches c (s @ [c]) = trim_end_matches c s"
  by (simp add: trim_end_matches_def)

lemma trim_end_matches_id: "s = [] \<or> last s \<noteq> c \<Longrightarrow> trim_end_matches c s = s"
  by (cases s rule: rev_cases) (auto simp: trim_end_matches_def)

lemma parse_application_call:
  "CHR ''('' \<notin> set app \<Longrightarrow>
     parse_application (app @ ''('' @ data @ '')'') = (trim app, trim_end_matches CHR '')'' data)"
  by (simp add: parse_application_def find_char_append trim_end_matches_snoc)

lemma lower_digit [simp]: "is_digit c \<Longrightarrow> lower_char c = c"
  by (auto simp: lower_char_def is_digit_iff less_eq_char_def)

lemma eq_ignore_digits:
  assumes "is_digit c" and "\<not> is_digit (lower_char d)"
  shows "\<not> eq_ignore_ascii_case (c # cs) (d # ds)"
  using assms by (auto simp: eq_ignore_ascii_case_def)

lemma parse_priority_number:
  assumes "n \<le> 2147483647"
  shows "parse_priority (show_nat n) = Some (of_nat n, None)"
proof -
  obtain c cs where c: "show_nat n = c # cs" by (cases "show_nat n") auto
  then have "is_digit c" using show_nat_chars [of c n] by simp
  then have "\<not> eq_ignore_ascii_case (show_nat n) ''n''" "\<not> eq_ignore_ascii_case (show_nat n) ''hint''"
    unfolding c by (simp_all add: eq_ignore_digits lower_char_def is_digit_def less_eq_char_def)
  moreover have "find_char CHR ''('' (show_nat n) = None"
    by (simp add: find_char_None_iff show_nat_no_char is_digit_iff)
  ultimately show ?thesis using assms by (simp add: parse_priority_def)
qed

lemma trimmed_call: "trimmed app \<Longrightarrow> trimmed (app @ ''('' @ data @ '')'')"
  by (cases app) (auto simp: trimmed_def is_ws_def split: if_splits)

subsection \<open>Numbering of a run of priorities\<close>

text \<open>A context with one extension whose steps are all written with \<^verbatim>\<open>n\<close>, as text lines.\<close>

definition plain_char :: "char \<Rightarrow> bool" where
  "plain_char c \<longleftrightarrow> is_digit c \<or> CHR ''A'' \<le> c \<and> c \<le> CHR ''Z'' \<or> CHR ''a'' \<le> c \<and> c \<le> CHR ''z''"

definition plain :: "string \<Rightarrow> bool" where
  "plain s \<longleftrightarrow> s \<noteq> [] \<and> list_all plain_char s"

definition conf_lines :: "string \<Rightarrow> string \<Rightarrow> string \<Rightarrow> string list \<Rightarrow> string list" where
  "conf_lines ctx x a apps =
     [''['' @ ctx @ '']'', ''exten => '' @ x @ '',1,'' @ a] @ map (\<lambda>b. ''same => n,'' @ b) apps"

definition numbered :: "string list \<Rightarrow> extension \<Rightarrow> bool" where
  "numbered apps e \<longleftrightarrow> (\<forall>i < length apps. get_priority e (of_nat (Suc i)) =
     Some \<lparr>prio_priority = of_nat (Suc i), prio_app = apps ! i, prio_app_data = [], prio_label = None\<rparr>)"

definition run_state :: "string \<Rightarrow> string \<Rightarrow> string list \<Rightarrow> load_state \<Rightarrow> bool" where
  "run_state ctx x apps st \<longleftrightarrow> ls_current st = Some ctx \<and> ls_last_exten st = Some x
     \<and> hget (ls_next_prio st) (ctx, x) = Some (of_nat (length apps))
     \<and> (\<exists>c e. get_context (ls_dialplan st) ctx = Some c \<and> hget (ctx_extensions c) x = Some e \<and> numbered apps e)"

lemma plain_notin: "plain s \<Longrightarrow> \<not> plain_char c \<Longrightarrow> c \<notin> set s"
  by (auto simp: plain_def list_all_iff)

lemma plain_char_simps:
  "\<not> plain_char CHR '';''" "\<not> plain_char CHR '',''" "\<not> plain_char CHR ''(''" "\<not> plain_char CHR '']''"
  "\<not> plain_char CHR 0x0A" "\<not> plain_char CHR 0x0D"
  by (simp_all add: plain_char_def is_digit_def less_eq_char_def)

lemma plain_char_not_ws: "plain_char c \<Longrightarrow> \<not> is_ws c"
  by (auto simp: plain_char_def is_ws_def is_digit_def less_eq_char_def)

lemma plain_last: "plain s \<Longrightarrow> plain_char (last s)"
  by (auto simp: plain_def list_all_iff)

lemma plain_trimmed [simp]: "plain s \<Longrightarrow> trimmed s"
  by (auto simp: plain_def list_all_iff plain_char_not_ws intro!: trimmed_no_ws)

lemma trim_before_plain: "plain s \<Longrightarrow> \<not> is_ws c \<Longrightarrow> trim (c # p @ s) = c # p @ s"
  using plain_last [of s] plain_char_not_ws by (intro trim_id) (auto simp: trimmed_def plain_def)

lemma parse_application_plain: "plain a \<Longrightarrow> parse_application a = (a, [])"
  by (simp add: parse_application_def find_char_None_iff [THEN iffD2] plain_notin plain_char_simps)

lemma strip_comment_plain: "plain s \<Longrightarrow> CHR '';'' \<notin> set p \<Longrightarrow> strip_comment (p @ s) = p @ s"
  by (simp add: strip_comment_def find_char_None_iff [THEN iffD2] plain_notin plain_char_simps)

lemma parse_same_plain: "plain a \<Longrightarrow> parse_same_line (''n,'' @ a) = Some (- 1, None, a, [])"
  using splitn_2_append [of "CHR '',''" "''n''" a] trim_id [of "''n''", unfolded trimmed_def is_ws_def]
  by (simp add: parse_same_line_def parse_application_plain parse_priority_def)

lemma load_line_same:
  assumes "plain a" and "ls_current st = Some ctx" and "ls_last_exten st = Some x"
  shows "load_line k (''same => n,'' @ a) st = store_priority ctx x (- 1) None a [] st"
proof -
  have "trim (''same => n,'' @ a) = ''same => n,'' @ a" "trim ('' n,'' @ a) = ''n,'' @ a"
    using trim_before_plain [OF assms(1), of "CHR ''s''" "''ame => n,''"]
      trim_before_plain [OF assms(1), of "CHR ''n''" "'',''"]
    by (simp_all add: is_ws_def trim_def trim_start_def)
  then show ?thesis
    using assms strip_comment_plain [OF assms(1), of "''same => n,''"] parse_same_plain [OF assms(1)]
    by (simp add: load_line_def load_same_def directive_def strip_prefix_def starts_with_def
        trim_start_def is_ws_def)
qed

lemma parse_exten_plain: "plain x \<Longrightarrow> plain a \<Longrightarrow> parse_exten_line (x @ '',1,'' @ a) = Some (x, 1, None, a, [])"
proof -
  assume p: "plain x" "plain a"
  have "parse_priority ''1'' = Some (1, None)" "trim ''1'' = ''1''" by code_simp+
  with p show ?thesis
    using splitn_2_append [of "CHR '',''" x "CHR ''1'' # CHR '','' # a"]
      splitn_2_append [of "CHR '',''" "''1''" a]
    by (simp add: parse_exten_line_def plain_notin plain_char_simps parse_application_plain)
qed

lemma load_line_exten:
  assumes "plain a" and "plain x" and "ls_current st = Some ctx"
  shows "load_line k (''exten => '' @ x @ '',1,'' @ a) st =
    map_option (\<lambda>st'. st'\<lparr>ls_last_exten := Some x\<rparr>) (store_priority ctx x 1 None a [] st)"
proof -
  obtain c cs where x: "x = c # cs" "\<not> is_ws c"
    using assms(2) plain_char_not_ws by (cases x) (auto simp: plain_def)
  have "trim (''exten => '' @ x @ '',1,'' @ a) = ''exten => '' @ x @ '',1,'' @ a"
    "trim ('' '' @ x @ '',1,'' @ a) = x @ '',1,'' @ a"
    using trim_before_plain [OF assms(1), of "CHR ''e''" "''xten => '' @ x @ '',1,''"]
      trim_before_plain [OF assms(1) x(2), of "cs @ '',1,''"] x
    by (simp_all add: is_ws_def trim_def trim_start_def)
  moreover have "strip_comment (''exten => '' @ x @ '',1,'' @ a) = ''exten => '' @ x @ '',1,'' @ a"
    using strip_comment_plain [OF assms(1), of "''exten => '' @ x @ '',1,''"] assms(2)
    by (simp add: plain_notin plain_char_simps)
  ultimately show ?thesis
    using assms parse_exten_plain [OF assms(2,1)]
    by (simp add: load_line_def load_exten_def directive_def strip_prefix_def starts_with_def
        trim_start_def is_ws_def)
qed

lemma load_line_header:
  assumes "plain ctx"
  shows "load_line k (''['' @ ctx @ '']'') st = Some (load_context_header ctx st)"
proof -
  have "trimmed (''['' @ ctx @ '']'')" by (simp add: trimmed_def is_ws_def)
  moreover have "strip_comment (''['' @ ctx @ '']'') = ''['' @ ctx @ '']''"
    using assms by (simp add: strip_comment_def find_char_None_iff [THEN iffD2] plain_notin plain_char_simps)
  ultimately show ?thesis
    by (simp add: load_line_def starts_with_def ends_with_def)
qed

lemma numbered_snoc:
  assumes "numbered apps e" and "length apps < 2 ^ 31"
  shows "numbered (apps @ [a]) (add_priority
    \<lparr>prio_priority = of_nat (Suc (length apps)), prio_app = a, prio_app_data = [], prio_label = None\<rparr> e)"
proof -
  have "(of_nat (Suc i) :: i32) \<noteq> of_nat (Suc (length apps))" if "i < length apps" for i
    using that assms(2) by (simp add: word32_of_nat_inj del: of_nat_Suc)
  with assms(1) show ?thesis
    unfolding numbered_def by (auto simp: get_add_priority nth_append less_Suc_eq simp del: of_nat_Suc)
qed

lemma run_state_same:
  assumes "run_state ctx x apps st" and "plain a" and "length apps < 2 ^ 31"
  shows "\<exists>st'. load_line k (''same => n,'' @ a) st = Some st' \<and> run_state ctx x (apps @ [a]) st'"
proof -
  from assms(1) obtain c e where c: "get_context (ls_dialplan st) ctx = Some c"
    "hget (ctx_extensions c) x = Some e" "numbered apps e"
    by (auto simp: run_state_def)
  then show ?thesis
    using assms numbered_snoc [OF c(3) assms(3), of a]
    by (simp add: load_line_same run_state_def store_priority_def resolve_priority_def get_update_context
        add.commute Let_def del: append.simps)
qed

lemma run_state_sames:
  assumes "run_state ctx x apps st" and "list_all plain bs" and "length apps + length bs < 2 ^ 31"
  shows "\<exists>st'. load_lines k (map (\<lambda>b. ''same => n,'' @ b) bs) st = Some st' \<and> run_state ctx x (apps @ bs) st'"
  using assms
proof (induction bs arbitrary: apps st k)
  case (Cons b bs)
  then obtain st' where "load_line k (''same => n,'' @ b) st = Some st'" "run_state ctx x (apps @ [b]) st'"
    using run_state_same [of ctx x apps st b k] by auto
  with Cons.IH [of "apps @ [b]" st' "k + 1"] Cons.prems show ?case by simp
qed simp

lemma run_state_start:
  assumes "plain ctx" and "plain x" and "plain a"
  shows "\<exists>st. load_lines 0 [''['' @ ctx @ '']'', ''exten => '' @ x @ '',1,'' @ a] load_init = Some st
    \<and> run_state ctx x [a] st"
proof -
  let ?st = "load_context_header ctx load_init"
  have st: "ls_current ?st = Some ctx" "get_context (ls_dialplan ?st) ctx = Some (context_new ctx)"
    "ls_next_prio ?st = []"
    by (simp_all add: load_context_header_def load_init_def dialplan_new_def get_context_def add_context_def)
  have "0 <s (1 :: i32)" "(1 :: i32) \<noteq> - 1" by code_simp+
  then show ?thesis
    using assms st
    by (simp add: load_line_header load_line_exten store_priority_def resolve_priority_def run_state_def
        get_update_context ctx_add_extension_def context_new_def numbered_def get_add_priority
        del: append.simps)
qed

lemma load_lines_append:
  "load_lines k (ls @ ms) st = Option.bind (load_lines k ls st) (load_lines (k + length ls) ms)"
  by (induction ls arbitrary: k st) (auto split: option.split)

lemma conf_lines_clean:
  assumes "plain ctx" and "plain x" and "list_all plain (a # apps)"
  shows "\<forall>l \<in> set (conf_lines ctx x a apps). CHR 0x0A \<notin> set l \<and> (l = [] \<or> last l \<noteq> CHR 0x0D)"
proof -
  have clean: "last b \<noteq> CHR 0x0D \<and> CHR 0x0A \<notin> set b \<and> b \<noteq> []" if "plain b" for b
    using plain_last [OF that] plain_char_simps plain_notin [OF that] that
    by (metis plain_def)
  have "plain b" if "b \<in> set (a # apps)" for b
    using that assms(3) by (auto simp: list_all_iff)
  then show ?thesis
    using assms(1,2) clean by (simp add: conf_lines_def)
qed

subsection \<open>Properties\<close>


text \<open>The counters the loader reports are the sizes of what it built: contexts, extensions
  and includes exactly; priorities counts the lines, so it bounds the stored ones.\<close>

theorem load_extensions_conf_counts:
  assumes "load_extensions_conf content = Some (dp, r)"
  shows "lr_contexts r = length (dp_contexts dp) \<and> lr_extensions r = total_extensions dp
    \<and> lr_includes r = total_includes dp \<and> total_priorities dp \<le> lr_priorities r"
  using assms load_inv_lines [OF load_inv_init, of 0 "str_lines content"]
  by (auto simp: load_extensions_conf_def load_inv_def counts_ok_def)

theorem load_extensions_conf_counts_witness:
  "case the (load_extensions_conf (''[a]'' @ [CHR 0x0A] @ ''exten => 1,1,Answer'')) of (dp, r) \<Rightarrow>
     lr_contexts r = length (dp_contexts dp) \<and> lr_extensions r = total_extensions dp
     \<and> lr_includes r = total_includes dp \<and> total_priorities dp \<le> lr_priorities r"
proof (split prod.split, intro allI impI)
  fix dp r
  assume "the (load_extensions_conf (''[a]'' @ [CHR 0x0A] @ ''exten => 1,1,Answer'')) = (dp, r)"
  moreover have "load_extensions_conf (''[a]'' @ [CHR 0x0A] @ ''exten => 1,1,Answer'') \<noteq> None"
    by code_simp
  ultimately show "lr_contexts r = length (dp_contexts dp) \<and> lr_extensions r = total_extensions dp
     \<and> lr_includes r = total_includes dp \<and> total_priorities dp \<le> lr_priorities r"
    by (intro load_extensions_conf_counts) auto
qed

text \<open>Reading back a printed \<^verbatim>\<open>exten\<close> line gives its parts: pattern, priority number,
  application and argument.\<close>

theorem parse_exten_line_roundtrip:
  assumes "CHR '','' \<notin> set pattern" and "trimmed pattern" and "n \<le> 2147483647"
    and "CHR ''('' \<notin> set app" and "trimmed app" and "data = [] \<or> last data \<noteq> CHR '')''"
  shows "parse_exten_line (pattern @ '','' @ show_nat n @ '','' @ app @ ''('' @ data @ '')'')
           = Some (pattern, of_nat n, None, app, data)"
proof -
  have "CHR '','' \<notin> set (show_nat n)" by (simp add: show_nat_no_char is_digit_iff)
  then have "parse_exten_line (pattern @ '','' @ show_nat n @ '','' @ app @ ''('' @ data @ '')'') =
      (case parse_application (app @ ''('' @ data @ '')'') of (app, d) \<Rightarrow> Some (pattern, of_nat n, None, app, d))"
    using assms trimmed_call [of app data]
    by (simp add: parse_exten_line_def Let_def parse_priority_number)
  then show ?thesis
    by (simp only: parse_application_call [OF assms(4)] trim_end_matches_id [OF assms(6)]
        trim_id [OF assms(5)] prod.case)
qed

theorem parse_exten_line_roundtrip_witness:
  "parse_exten_line (''_1XX'' @ '','' @ show_nat 3 @ '','' @ ''Dial'' @ ''('' @ ''SIP/a,30'' @ '')'')
     = Some (''_1XX'', of_nat 3, None, ''Dial'', ''SIP/a,30'')"
  by (rule parse_exten_line_roundtrip) (simp_all add: trimmed_def is_ws_def)

text \<open>All closing parentheses at the end of an application call are dropped, not one: an
  argument that ends with a function call comes back without its closing parenthesis.\<close>

theorem parse_application_drops_parens:
  assumes "CHR ''('' \<notin> set app" and "trimmed app" and "arg = [] \<or> last arg \<noteq> CHR '')''"
  shows "parse_application (app @ ''('' @ (var @ ''=FUNC('' @ arg @ '')'') @ '')'') = (app, var @ ''=FUNC('' @ arg)"
proof -
  have "last (var @ ''=FUNC('' @ arg) \<noteq> CHR '')''"
    using assms(3) by (cases arg rule: rev_cases) auto
  then have "trim_end_matches CHR '')'' (var @ ''=FUNC('' @ arg @ '')'') = var @ ''=FUNC('' @ arg"
    using trim_end_matches_snoc [of "CHR '')''" "var @ ''=FUNC('' @ arg"]
      trim_end_matches_id [of "var @ ''=FUNC('' @ arg"]
    by simp
  then show ?thesis by (simp only: parse_application_call [OF assms(1)] trim_id [OF assms(2)])
qed

theorem parse_application_drops_parens_witness:
  "parse_application (''Set'' @ ''('' @ (''X'' @ ''=FUNC('' @ ''a'' @ '')'') @ '')'') = (''Set'', ''X'' @ ''=FUNC('' @ ''a'')"
  by (rule parse_application_drops_parens) (simp_all add: trimmed_def is_ws_def)



end
