(* ===== verification/Dtmf.thy ===== *)
theory Dtmf
  imports Ast_Types
begin

section \<open>DTMF emulation and timing\<close>

text \<open>
  The per-channel digit state machine of \<^verbatim>\<open>asterisk-core/src/channel/dtmf.rs\<close>. An instant is
  a number of nanoseconds; every operation that reads the clock takes the time \<open>now\<close> it reads.
  Durations are truncated to milliseconds and then to 32 bits, as the casts of the source do.
\<close>

subsection \<open>State and operations\<close>

definition AST_MIN_DTMF_GAP_MS :: u32 where "AST_MIN_DTMF_GAP_MS = 45"
definition AST_MIN_DTMF_DURATION_MS :: u32 where "AST_MIN_DTMF_DURATION_MS = 80"
definition AST_DEFAULT_DTMF_DURATION_MS :: u32 where "AST_DEFAULT_DTMF_DURATION_MS = 100"
definition AST_MAX_DTMF_DURATION_MS :: u32 where "AST_MAX_DTMF_DURATION_MS = 8000"

lemmas dtmf_consts = AST_MIN_DTMF_GAP_MS_def AST_MIN_DTMF_DURATION_MS_def AST_DEFAULT_DTMF_DURATION_MS_def

type_synonym instant = nat

definition millis_since :: "instant \<Rightarrow> instant \<Rightarrow> u32" where
  "millis_since now t = of_nat ((now - t) div 1000000)"

record dtmf_state =
  in_dtmf :: bool
  emulating :: bool
  dtmf_digit :: char
  begin_time :: "instant option"
  emulate_duration_ms :: u32
  last_end_time :: "instant option"

datatype dtmf_end_action =
    Passthrough u32
  | EmulateBeginFirst u32
  | EmulateRemaining u32
  | Defer

definition dtmf_new :: dtmf_state where
  "dtmf_new = \<lparr>in_dtmf = False, emulating = False, dtmf_digit = CHR 0x00, begin_time = None,
     emulate_duration_ms = 0, last_end_time = None\<rparr>"

definition should_suppress_begin :: "instant \<Rightarrow> dtmf_state \<Rightarrow> bool" where
  "should_suppress_begin now st =
     (if emulating st then True
      else case last_end_time st of
             Some last_end \<Rightarrow>
               (if millis_since now last_end < AST_MIN_DTMF_GAP_MS then True else False)
           | None \<Rightarrow> False)"

definition on_begin :: "instant \<Rightarrow> char \<Rightarrow> dtmf_state \<Rightarrow> bool \<times> dtmf_state" where
  "on_begin now d st =
     (if should_suppress_begin now st then (False, st)
      else (True, st\<lparr>in_dtmf := True, dtmf_digit := d, begin_time := Some now\<rparr>))"

definition on_end :: "instant \<Rightarrow> char \<Rightarrow> u32 \<Rightarrow> dtmf_state \<Rightarrow> dtmf_end_action \<times> dtmf_state" where
  "on_end now d driver_duration_ms st =
     (if in_dtmf st then
        let st = st\<lparr>in_dtmf := False\<rparr>;
            actual_ms = (case begin_time st of Some t \<Rightarrow> millis_since now t | None \<Rightarrow> driver_duration_ms);
            duration = (if driver_duration_ms > 0 then driver_duration_ms else actual_ms)
        in if duration < AST_MIN_DTMF_DURATION_MS then
             let remaining = sat_sub AST_MIN_DTMF_DURATION_MS duration
             in (EmulateRemaining remaining,
                 st\<lparr>emulating := True, dtmf_digit := d, emulate_duration_ms := remaining\<rparr>)
           else
             let final_duration = max duration AST_MIN_DTMF_DURATION_MS
             in (Passthrough final_duration, st\<lparr>last_end_time := Some now\<rparr>)
      else if (case last_end_time st of
                 Some last_end \<Rightarrow> millis_since now last_end < AST_MIN_DTMF_GAP_MS
               | None \<Rightarrow> False) then (Defer, st)
      else
        let emulate_dur = (if driver_duration_ms > AST_MIN_DTMF_DURATION_MS then driver_duration_ms
                           else AST_DEFAULT_DTMF_DURATION_MS)
        in (EmulateBeginFirst emulate_dur,
            st\<lparr>emulating := True, dtmf_digit := d, begin_time := Some now, emulate_duration_ms := emulate_dur\<rparr>))"

definition check_emulation_tick :: "instant \<Rightarrow> dtmf_state \<Rightarrow> (char \<times> u32) option \<times> dtmf_state" where
  "check_emulation_tick now st =
     (if \<not> emulating st then (None, st)
      else if emulate_duration_ms st = 0 then (None, st\<lparr>emulating := False, dtmf_digit := CHR 0x00\<rparr>)
      else
        let elapsed = (case begin_time st of Some t \<Rightarrow> millis_since now t | None \<Rightarrow> 0)
        in if emulate_duration_ms st \<le> elapsed then
             (Some (dtmf_digit st, elapsed), st\<lparr>emulate_duration_ms := 0, last_end_time := Some now\<rparr>)
           else (None, st))"

subsection \<open>Reachable states\<close>

text \<open>Every call the read pipeline makes, with the clock value it reads.\<close>

datatype dtmf_call = CallBegin instant char | CallEnd instant char u32 | CallTick instant

fun dtmf_step :: "dtmf_call \<Rightarrow> dtmf_state \<Rightarrow> dtmf_state" where
  "dtmf_step (CallBegin now d) st = snd (on_begin now d st)"
| "dtmf_step (CallEnd now d dur) st = snd (on_end now d dur st)"
| "dtmf_step (CallTick now) st = snd (check_emulation_tick now st)"

inductive dtmf_reachable :: "dtmf_state \<Rightarrow> bool" where
  reach_new: "dtmf_reachable dtmf_new"
| reach_step: "dtmf_reachable st \<Longrightarrow> dtmf_reachable (dtmf_step c st)"

definition dtmf_inv :: "dtmf_state \<Rightarrow> bool" where
  "dtmf_inv st \<longleftrightarrow> \<not> (in_dtmf st \<and> emulating st) \<and> (in_dtmf st \<or> emulating st \<longrightarrow> begin_time st \<noteq> None)"

lemma dtmf_inv_step: "dtmf_inv st \<Longrightarrow> dtmf_inv (dtmf_step c st)"
  by (cases c) (auto simp: dtmf_inv_def on_begin_def on_end_def check_emulation_tick_def
      should_suppress_begin_def Let_def split: if_splits option.splits)

lemma dtmf_inv_reachable: "dtmf_reachable st \<Longrightarrow> dtmf_inv st"
  by (induction rule: dtmf_reachable.induct) (simp_all add: dtmf_inv_step, simp add: dtmf_inv_def dtmf_new_def)

text \<open>The digit ends a run of ticks emits.\<close>

fun tick_run :: "instant list \<Rightarrow> dtmf_state \<Rightarrow> (char \<times> u32) list" where
  "tick_run [] st = []"
| "tick_run (t # ts) st =
     (case check_emulation_tick t st of
        (Some r, st') \<Rightarrow> r # tick_run ts st'
      | (None, st') \<Rightarrow> tick_run ts st')"

lemma tick_run_digit:
  "emulating st \<longrightarrow> dtmf_digit st = d \<Longrightarrow> fst ` set (tick_run ts st) \<subseteq> {d}"
proof (induction ts arbitrary: st)
  case (Cons t ts)
  have "emulating (snd (check_emulation_tick t st)) \<longrightarrow> dtmf_digit (snd (check_emulation_tick t st)) = d"
    using Cons.prems by (auto simp: check_emulation_tick_def Let_def)
  from Cons.IH [OF this] show ?case
    using Cons.prems by (auto simp: check_emulation_tick_def Let_def split: if_splits)
qed simp

lemma on_end_begin_first:
  "on_end now d dur st = (EmulateBeginFirst D, st') \<Longrightarrow>
     emulating st' \<and> dtmf_digit st' = d \<and> begin_time st' = Some now \<and> emulate_duration_ms st' = D \<and> 0 < D"
  by (auto simp: on_end_def Let_def dtmf_consts word_gt_0 split: if_splits option.splits)

lemmas dtmf_eval = on_begin_def on_end_def check_emulation_tick_def should_suppress_begin_def
  millis_since_def dtmf_new_def dtmf_consts sat_sub_def

subsection \<open>Properties\<close>

text \<open>(C38) In every state the read pipeline can reach, a digit is either being received or being
  emulated, never both, and its begin time is known whenever one of the two holds.\<close>

theorem dtmf_reachable_inv:
  assumes "dtmf_reachable st"
  shows "\<not> (in_dtmf st \<and> emulating st) \<and> (in_dtmf st \<or> emulating st \<longrightarrow> begin_time st \<noteq> None)"
  using dtmf_inv_reachable [OF assms] by (simp add: dtmf_inv_def)

theorem dtmf_reachable_inv_witness:
  "emulating (dtmf_step (CallEnd 7 CHR ''5'' 0) dtmf_new) \<and>
     \<not> in_dtmf (dtmf_step (CallEnd 7 CHR ''5'' 0) dtmf_new)"
proof -
  have "dtmf_reachable (dtmf_step (CallEnd 7 CHR ''5'' 0) dtmf_new)"
    by (intro reach_step reach_new)
  moreover have "emulating (dtmf_step (CallEnd 7 CHR ''5'' 0) dtmf_new)"
    by code_simp
  ultimately show ?thesis using dtmf_reachable_inv by blast
qed

text \<open>A digit end that is passed through lasts at least the minimum duration, and the next
  begin is suppressed until the minimum gap has passed.\<close>

theorem passthrough_min_duration_and_gap:
  assumes "on_end now d dur st = (Passthrough D, st')"
    and "now \<le> now'" and "now' < now + 45000000"
  shows "AST_MIN_DTMF_DURATION_MS \<le> D \<and> on_begin now' d' st' = (False, st')"
proof -
  have "(now' - now) div 1000000 < 45" using assms(2,3) by (intro less_mult_imp_div_less) simp
  then have "millis_since now' now < AST_MIN_DTMF_GAP_MS"
    by (simp add: millis_since_def dtmf_consts word_less_nat_alt unat_of_nat_u32)
  with assms(1) show ?thesis
    by (auto simp: on_end_def on_begin_def should_suppress_begin_def Let_def split: if_splits option.splits)
qed

theorem passthrough_min_duration_and_gap_witness:
  "on_begin 120000000 CHR ''2'' (snd (on_end 100000000 CHR ''1'' 90 (snd (on_begin 10000000 CHR ''1'' dtmf_new))))
     = (False, snd (on_end 100000000 CHR ''1'' 90 (snd (on_begin 10000000 CHR ''1'' dtmf_new))))"
proof -
  have "on_end 100000000 CHR ''1'' 90 (snd (on_begin 10000000 CHR ''1'' dtmf_new)) =
      (Passthrough 90, snd (on_end 100000000 CHR ''1'' 90 (snd (on_begin 10000000 CHR ''1'' dtmf_new))))"
    by (simp add: dtmf_eval)
  from passthrough_min_duration_and_gap [OF this] show ?thesis by simp
qed

text \<open>A digit whose begin the driver never sent is emulated to the end: ticks before the
  emulated duration has elapsed change nothing, the first tick after it emits the end of that
  digit, and the tick after that ends the emulation.\<close>

theorem emulated_digit_completes:
  assumes "on_end now d dur st = (EmulateBeginFirst D, st1)" and "t < now + 4294967296000000"
  shows "if unat D \<le> (t - now) div 1000000
         then \<exists>ms st2. D \<le> ms \<and> check_emulation_tick t st1 = (Some (d, ms), st2)
                \<and> (\<exists>st3. check_emulation_tick t' st2 = (None, st3) \<and> \<not> emulating st3)
         else check_emulation_tick t st1 = (None, st1)"
proof -
  note st1 = on_end_begin_first [OF assms(1)]
  have "(t - now) div 1000000 < 2 ^ 32" using assms(2) by (intro less_mult_imp_div_less) auto
  then have "unat (millis_since t now) = (t - now) div 1000000"
    by (simp add: millis_since_def unat_of_nat_u32)
  then have "D \<le> millis_since t now \<longleftrightarrow> unat D \<le> (t - now) div 1000000"
    by (simp add: word_le_nat_alt)
  with st1 show ?thesis
    by (auto simp: check_emulation_tick_def)
qed

theorem emulated_digit_completes_witness:
  "check_emulation_tick 150000000 (snd (on_end 0 CHR ''9'' 0 dtmf_new)) \<noteq>
     (None, snd (on_end 0 CHR ''9'' 0 dtmf_new))"
proof -
  have "on_end 0 CHR ''9'' 0 dtmf_new = (EmulateBeginFirst 100, snd (on_end 0 CHR ''9'' 0 dtmf_new))"
    by (simp add: dtmf_eval)
  from emulated_digit_completes [OF this, of 150000000] show ?thesis by auto
qed

text \<open>A received digit that was too short is not stretched to the minimum: the emulation
  compares the time since the begin with the remainder only, so a digit that lasted at least half
  the minimum is ended at the next tick, with a duration below the minimum.\<close>

theorem short_digit_not_stretched:
  assumes "in_dtmf st" and "begin_time st = Some t0" and "t0 \<le> now"
    and "40 \<le> (now - t0) div 1000000" and "(now - t0) div 1000000 < 80"
  shows "\<exists>r st1 ms st2. on_end now d 0 st = (EmulateRemaining r, st1)
    \<and> check_emulation_tick now st1 = (Some (d, ms), st2) \<and> ms < AST_MIN_DTMF_DURATION_MS"
proof -
  define n where "n = (now - t0) div 1000000"
  with assms(4,5) have n: "40 \<le> n" "n < 80" by simp_all
  then have ms: "unat (millis_since now t0) = n"
    by (simp add: millis_since_def unat_of_nat_u32 flip: n_def)
  then have lt: "millis_since now t0 < 80" using n by (simp add: word_less_nat_alt)
  have "unat (sat_sub 80 (millis_since now t0)) = 80 - n"
    by (simp add: unat_sat_sub ms)
  with n ms have "sat_sub 80 (millis_since now t0) \<noteq> 0"
    "sat_sub 80 (millis_since now t0) \<le> millis_since now t0"
    by (auto simp: word_le_nat_alt)
  with lt assms(1,2) show ?thesis
    by (auto simp: on_end_def check_emulation_tick_def Let_def dtmf_consts)
qed

theorem short_digit_not_stretched_witness:
  "\<exists>r st1 ms st2. on_end 50000000 CHR ''1'' 0 (snd (on_begin 0 CHR ''1'' dtmf_new)) = (EmulateRemaining r, st1)
    \<and> check_emulation_tick 50000000 st1 = (Some (CHR ''1'', ms), st2) \<and> ms < AST_MIN_DTMF_DURATION_MS"
  by (rule short_digit_not_stretched [of _ 0]) (simp_all add: dtmf_eval)

text \<open>A second digit end without a begin, arriving while the first is still being emulated,
  replaces it: whatever ticks follow, no end is ever emitted for the first digit, although its
  begin was delivered.\<close>

theorem overlapping_end_loses_digit:
  assumes "emulating st" and "\<not> in_dtmf st" and "last_end_time st = None" and "d \<noteq> dtmf_digit st"
  shows "\<exists>D st'. on_end now d dur st = (EmulateBeginFirst D, st')
    \<and> dtmf_digit st \<notin> fst ` set (tick_run ts st')"
proof -
  obtain D st' where e: "on_end now d dur st = (EmulateBeginFirst D, st')"
    using assms(2,3) by (auto simp: on_end_def Let_def)
  with on_end_begin_first [OF e] tick_run_digit [of st' d ts] assms(4) show ?thesis by auto
qed

theorem overlapping_end_loses_digit_witness:
  "\<exists>D st'. on_end 10000000 CHR ''2'' 0 (snd (on_end 0 CHR ''1'' 0 dtmf_new)) = (EmulateBeginFirst D, st')
    \<and> dtmf_digit (snd (on_end 0 CHR ''1'' 0 dtmf_new)) \<notin> fst ` set (tick_run [120000000, 300000000] st')"
  by (rule overlapping_end_loses_digit) (simp_all add: dtmf_eval)

end
