(* ===== verification/Hooks.thy ===== *)
theory Hooks
  imports Ast_Types
begin

section \<open>Generators, audiohooks and framehooks\<close>

text \<open>
  The three kinds of objects a channel lets frames pass through:
  \<^verbatim>\<open>channel/generator.rs\<close>, \<^verbatim>\<open>channel/audiohook.rs\<close> and
  \<^verbatim>\<open>channel/framehook.rs\<close>. Generators and audiohooks are trait objects with hidden mutable
  state; such an object is a codatatype whose methods return the object after the call. Framehook
  callbacks are shared closures and are functions. The calls that only notify a framehook are
  recorded in a list of calls.
\<close>

subsection \<open>Generators\<close>

codatatype generator = Generator
  (gen_alloc: generator)
  (gen_release: generator)
  (gen_generate: "nat \<Rightarrow> frame option \<times> generator")
  (gen_digit: "char \<Rightarrow> generator")
  (gen_write_format_change: generator)

record generator_state =
  gs_inner :: "generator option"

definition generator_state_new :: generator_state where
  "generator_state_new = \<lparr>gs_inner = None\<rparr>"

text \<open>A released generator is dropped; the result keeps it to show that it was released.\<close>

definition gs_deactivate :: "generator_state \<Rightarrow> generator option \<times> generator_state" where
  "gs_deactivate gs =
     (case gs_inner gs of
        Some g \<Rightarrow> (Some (gen_release g), gs\<lparr>gs_inner := None\<rparr>)
      | None \<Rightarrow> (None, gs))"

definition gs_activate :: "generator \<Rightarrow> generator_state \<Rightarrow> generator_state" where
  "gs_activate g gs = (let gs' = snd (gs_deactivate gs) in gs'\<lparr>gs_inner := Some (gen_alloc g)\<rparr>)"

definition gs_is_active :: "generator_state \<Rightarrow> bool" where
  "gs_is_active gs \<longleftrightarrow> gs_inner gs \<noteq> None"

definition gs_generate :: "nat \<Rightarrow> generator_state \<Rightarrow> frame option \<times> generator_state" where
  "gs_generate samples gs =
     (case gs_inner gs of
        None \<Rightarrow> (None, gs)
      | Some g \<Rightarrow>
          (case gen_generate g samples of
             (Some f, g') \<Rightarrow> (Some f, gs\<lparr>gs_inner := Some g'\<rparr>)
           | (None, g') \<Rightarrow> (None, snd (gs_deactivate (gs\<lparr>gs_inner := Some g'\<rparr>)))))"

definition gs_digit :: "char \<Rightarrow> generator_state \<Rightarrow> generator_state" where
  "gs_digit d gs = gs\<lparr>gs_inner := map_option (\<lambda>g. gen_digit g d) (gs_inner gs)\<rparr>"

definition gs_write_format_change :: "generator_state \<Rightarrow> generator_state" where
  "gs_write_format_change gs = gs\<lparr>gs_inner := map_option gen_write_format_change (gs_inner gs)\<rparr>"

subsection \<open>Audiohooks\<close>

datatype audiohook_type = AH_Spy | AH_Whisper | AH_Manipulate

codatatype audiohook = Audiohook
  (ah_type: audiohook_type)
  (ah_read: "frame \<Rightarrow> frame option \<times> audiohook")
  (ah_write: "frame \<Rightarrow> frame option \<times> audiohook")

record audiohook_list =
  ah_spies :: "audiohook list"
  ah_whispers :: "audiohook list"
  ah_manipulators :: "audiohook list"

definition audiohook_list_new :: audiohook_list where
  "audiohook_list_new = \<lparr>ah_spies = [], ah_whispers = [], ah_manipulators = []\<rparr>"

definition ah_attach :: "audiohook \<Rightarrow> audiohook_list \<Rightarrow> audiohook_list" where
  "ah_attach h l =
     (case ah_type h of
        AH_Spy \<Rightarrow> l\<lparr>ah_spies := ah_spies l @ [h]\<rparr>
      | AH_Whisper \<Rightarrow> l\<lparr>ah_whispers := ah_whispers l @ [h]\<rparr>
      | AH_Manipulate \<Rightarrow> l\<lparr>ah_manipulators := ah_manipulators l @ [h]\<rparr>)"

definition vec_remove :: "nat \<Rightarrow> 'a list \<Rightarrow> 'a list" where
  "vec_remove i xs = take i xs @ drop (Suc i) xs"

definition ah_detach :: "audiohook_type \<Rightarrow> nat \<Rightarrow> audiohook_list \<Rightarrow> audiohook option \<times> audiohook_list" where
  "ah_detach ty i l =
     (case ty of
        AH_Spy \<Rightarrow>
          if i < length (ah_spies l) then (Some (ah_spies l ! i), l\<lparr>ah_spies := vec_remove i (ah_spies l)\<rparr>)
          else (None, l)
      | AH_Whisper \<Rightarrow>
          if i < length (ah_whispers l) then (Some (ah_whispers l ! i), l\<lparr>ah_whispers := vec_remove i (ah_whispers l)\<rparr>)
          else (None, l)
      | AH_Manipulate \<Rightarrow>
          if i < length (ah_manipulators l) then
            (Some (ah_manipulators l ! i), l\<lparr>ah_manipulators := vec_remove i (ah_manipulators l)\<rparr>)
          else (None, l))"

definition ah_is_empty :: "audiohook_list \<Rightarrow> bool" where
  "ah_is_empty l \<longleftrightarrow> ah_spies l = [] \<and> ah_whispers l = [] \<and> ah_manipulators l = []"

text \<open>The manipulator loops: each hook sees the output of the one before it, and the first
  \<^const>\<open>None\<close> leaves the later hooks untouched.\<close>

fun manip_read :: "audiohook list \<Rightarrow> frame \<Rightarrow> frame option \<times> audiohook list" where
  "manip_read [] f = (Some f, [])"
| "manip_read (h # hs) f =
     (case ah_read h f of
        (None, h') \<Rightarrow> (None, h' # hs)
      | (Some g, h') \<Rightarrow> (case manip_read hs g of (r, hs') \<Rightarrow> (r, h' # hs')))"

fun manip_write :: "audiohook list \<Rightarrow> frame \<Rightarrow> frame option \<times> audiohook list" where
  "manip_write [] f = (Some f, [])"
| "manip_write (h # hs) f =
     (case ah_write h f of
        (None, h') \<Rightarrow> (None, h' # hs)
      | (Some g, h') \<Rightarrow> (case manip_write hs g of (r, hs') \<Rightarrow> (r, h' # hs')))"

definition ah_process_read :: "frame \<Rightarrow> audiohook_list \<Rightarrow> frame option \<times> audiohook_list" where
  "ah_process_read f l =
     (let l = l\<lparr>ah_spies := map (\<lambda>s. snd (ah_read s f)) (ah_spies l)\<rparr>
      in case manip_read (ah_manipulators l) f of (r, hs) \<Rightarrow> (r, l\<lparr>ah_manipulators := hs\<rparr>))"

definition ah_process_write :: "frame \<Rightarrow> audiohook_list \<Rightarrow> frame option \<times> audiohook_list" where
  "ah_process_write f l =
     (let l = l\<lparr>ah_spies := map (\<lambda>s. snd (ah_write s f)) (ah_spies l)\<rparr>
      in case manip_write (ah_manipulators l) f of (r, hs) \<Rightarrow> (r, l\<lparr>ah_manipulators := hs\<rparr>))"

subsection \<open>Framehooks\<close>

datatype framehook_event = FH_Attached | FH_Read | FH_Write | FH_Detached

record framehook =
  fh_id :: u32
  fh_callback :: "frame \<Rightarrow> framehook_event \<Rightarrow> frame option"

record framehook_list =
  fh_hooks :: "framehook list"

datatype hook_call = HookCall u32 frame framehook_event

definition framehook_list_new :: framehook_list where
  "framehook_list_new = \<lparr>fh_hooks = []\<rparr>"

text \<open>\<open>next\<close> is the global counter \<^verbatim>\<open>NEXT_FRAMEHOOK_ID\<close>.\<close>

definition fh_attach ::
  "(frame \<Rightarrow> framehook_event \<Rightarrow> frame option) \<Rightarrow> u32 \<Rightarrow> framehook_list \<Rightarrow> u32 \<times> hook_call list \<times> u32 \<times> framehook_list" where
  "fh_attach cb next l =
     (let hook = \<lparr>fh_id = next, fh_callback = cb\<rparr>
      in (fh_id hook, [HookCall (fh_id hook) NullFrame FH_Attached], next + 1, l\<lparr>fh_hooks := fh_hooks l @ [hook]\<rparr>))"

fun position :: "('a \<Rightarrow> bool) \<Rightarrow> 'a list \<Rightarrow> nat option" where
  "position P [] = None"
| "position P (x # xs) = (if P x then Some 0 else map_option Suc (position P xs))"

definition fh_detach :: "u32 \<Rightarrow> framehook_list \<Rightarrow> bool \<times> hook_call list \<times> framehook_list" where
  "fh_detach i l =
     (case position (\<lambda>h. fh_id h = i) (fh_hooks l) of
        Some pos \<Rightarrow>
          (True, [HookCall (fh_id (fh_hooks l ! pos)) NullFrame FH_Detached],
           l\<lparr>fh_hooks := vec_remove pos (fh_hooks l)\<rparr>)
      | None \<Rightarrow> (False, [], l))"

definition fh_is_empty :: "framehook_list \<Rightarrow> bool" where
  "fh_is_empty l \<longleftrightarrow> fh_hooks l = []"

fun fh_run :: "framehook_event \<Rightarrow> framehook list \<Rightarrow> frame \<Rightarrow> frame option" where
  "fh_run ev [] f = Some f"
| "fh_run ev (h # hs) f = (case fh_callback h f ev of None \<Rightarrow> None | Some g \<Rightarrow> fh_run ev hs g)"

definition fh_process_event :: "framehook_list \<Rightarrow> frame \<Rightarrow> framehook_event \<Rightarrow> frame option" where
  "fh_process_event l f ev = fh_run ev (fh_hooks l) f"

definition fh_process_read :: "framehook_list \<Rightarrow> frame \<Rightarrow> frame option" where
  "fh_process_read l f = fh_process_event l f FH_Read"

definition fh_process_write :: "framehook_list \<Rightarrow> frame \<Rightarrow> frame option" where
  "fh_process_write l f = fh_process_event l f FH_Write"

subsection \<open>The contract of a hook chain\<close>

text \<open>A chain of hooks run over a frame, shared by the framehooks and by the two directions of the
  manipulators: composition over concatenated chains, transparency, and that no run adds or
  removes a hook.\<close>

locale hook_chain =
  fixes step :: "'h \<Rightarrow> frame \<Rightarrow> frame option \<times> 'h"
    and run :: "'h list \<Rightarrow> frame \<Rightarrow> frame option \<times> 'h list"
  assumes run_Nil: "run [] f = (Some f, [])"
    and run_Cons_drop: "step h f = (None, h') \<Longrightarrow> run (h # hs) f = (None, h' # hs)"
    and run_Cons_pass: "step h f = (Some g, h') \<Longrightarrow> run hs g = (r, hs') \<Longrightarrow> run (h # hs) f = (r, h' # hs')"
begin

lemma run_cases:
  obtains h' where "step h f = (None, h')" "run (h # hs) f = (None, h' # hs)"
  | g h' where "step h f = (Some g, h')" "run (h # hs) f = (fst (run hs g), h' # snd (run hs g))"
  using run_Cons_drop [of h f] run_Cons_pass [of h f _ _ hs]
  by (cases "step h f"; cases "fst (step h f)") auto

lemma length_run: "length (snd (run hs f)) = length hs"
proof (induction hs arbitrary: f)
  case (Cons h hs)
  show ?case by (rule run_cases [of h f hs]) (simp_all add: Cons.IH)
qed (simp add: run_Nil)

lemma run_append: "fst (run (hs @ ks) f) = Option.bind (fst (run hs f)) (\<lambda>g. fst (run ks g))"
proof (induction hs arbitrary: f)
  case (Cons h hs)
  show ?case
    by (rule run_cases [of h f "hs @ ks"]; rule run_cases [of h f hs]) (simp_all add: Cons.IH)
qed (simp add: run_Nil)

lemma run_transparent:
  "(\<And>h g. h \<in> set hs \<Longrightarrow> fst (step h g) = Some g) \<Longrightarrow> fst (run hs f) = Some f"
proof (induction hs arbitrary: f)
  case (Cons h hs)
  have "fst (step h f) = Some f" using Cons.prems by simp
  moreover have "fst (run hs f) = Some f" using Cons by simp
  ultimately show ?case by (cases rule: run_cases [of h f hs]) simp_all
qed (simp add: run_Nil)

lemma run_drop:
  assumes "fst (run hs f) = Some g" and "\<And>k. fst (step h k) = None"
  shows "fst (run (hs @ h # ks) f) = None"
proof -
  have "fst (run (h # ks) g) = None"
    using assms(2) [of g] by (cases rule: run_cases [of h g ks]) simp_all
  with assms(1) show ?thesis by (simp add: run_append)
qed

end

interpretation manip_read: hook_chain ah_read manip_read
  by unfold_locales simp_all

interpretation manip_write: hook_chain ah_write manip_write
  by unfold_locales simp_all

interpretation framehooks: hook_chain "\<lambda>h f. (fh_callback h f ev, h)" "\<lambda>hs f. (fh_run ev hs f, hs)"
  for ev
  by unfold_locales auto

subsection \<open>Facts about the lists\<close>

lemma position_append: "position P (xs @ ys) =
    (case position P xs of Some i \<Rightarrow> Some i | None \<Rightarrow> map_option (\<lambda>i. i + length xs) (position P ys))"
  by (induction xs) (auto split: option.splits simp: option.map_comp comp_def option.map_ident)

lemma position_None_iff: "position P xs = None \<longleftrightarrow> (\<forall>x \<in> set xs. \<not> P x)"
  by (induction xs) auto

lemma vec_remove_append: "vec_remove (length xs) (xs @ y # ys) = xs @ ys"
  by (simp add: vec_remove_def)

lemma gs_deactivate_inactive [simp]: "\<not> gs_is_active (snd (gs_deactivate gs))"
  by (auto simp: gs_deactivate_def gs_is_active_def split: option.splits)

lemma gs_digit_active [simp]: "gs_is_active (gs_digit d gs) = gs_is_active gs"
  by (simp add: gs_digit_def gs_is_active_def)

lemma gs_generate_None_inactive: "fst (gs_generate n gs) = None \<Longrightarrow> \<not> gs_is_active (snd (gs_generate n gs))"
  by (auto simp: gs_generate_def gs_is_active_def gs_deactivate_def split: option.splits prod.splits)

subsection \<open>Properties\<close>

text \<open>Spies observe only: the frame that leaves the audiohooks on a read depends on the
  manipulators alone, and no hook is added or removed by processing.\<close>

theorem spies_do_not_alter:
  "fst (ah_process_read f l) = fst (manip_read (ah_manipulators l) f)
   \<and> length (ah_spies (snd (ah_process_read f l))) = length (ah_spies l)
   \<and> ah_whispers (snd (ah_process_read f l)) = ah_whispers l
   \<and> length (ah_manipulators (snd (ah_process_read f l))) = length (ah_manipulators l)"
  using manip_read.length_run [of "ah_manipulators l" f]
  by (cases "manip_read (ah_manipulators l) f") (simp add: ah_process_read_def)

text \<open>Detaching a framehook by the id its attachment returned restores the list of hooks, as
  long as no other attached hook carries that id.\<close>

theorem fh_attach_detach:
  assumes "fh_attach cb next l = (i, calls, next', l')" and "i \<notin> fh_id ` set (fh_hooks l)"
  shows "fh_detach i l' = (True, [HookCall i NullFrame FH_Detached], l)"
proof -
  from assms(1) have "i = next" "fh_hooks l' = fh_hooks l @ [\<lparr>fh_id = i, fh_callback = cb\<rparr>]"
    "l' = l\<lparr>fh_hooks := fh_hooks l'\<rparr>"
    by (auto simp: fh_attach_def Let_def)
  moreover from assms(2) have "position (\<lambda>h. fh_id h = i) (fh_hooks l) = None"
    by (auto simp: position_None_iff)
  ultimately show ?thesis
    by (simp add: fh_detach_def position_append vec_remove_append nth_append)
qed

theorem fh_attach_detach_witness:
  "fst (fh_detach 1 (snd (snd (snd (fh_attach (\<lambda>f ev. Some f) 1 framehook_list_new)))))"
proof -
  have "fh_attach (\<lambda>f ev. Some f) 1 framehook_list_new =
      (1, [HookCall 1 NullFrame FH_Attached], 2, snd (snd (snd (fh_attach (\<lambda>f ev. Some f) 1 framehook_list_new))))"
    by (simp add: fh_attach_def Let_def)
  from fh_attach_detach [OF this] show ?thesis by (simp add: framehook_list_new_def)
qed

end
