(* ===== verification/Channel.thy ===== *)
theory Channel
  imports Dtmf Hooks
begin

section \<open>Channels\<close>

text \<open>
  The channel structure and its operations (\<^verbatim>\<open>asterisk-core/src/channel/mod.rs\<close> and
  \<^verbatim>\<open>softhangup.rs\<close>), and the two registries of lifecycle callbacks. An operation returns
  the channel after it and the list of effects it had on the rest of the system, in order: events
  published, callbacks fired, bridge lifetime tasks cancelled. The opaque driver data
  (\<^verbatim>\<open>tech_pvt\<close>, \<^verbatim>\<open>datastores\<close>), which no operation here reads, is left out.
\<close>

subsection \<open>Soft hangup flags\<close>

definition AST_SOFTHANGUP_DEV :: u32 where "AST_SOFTHANGUP_DEV = push_bit 0 1"
definition AST_SOFTHANGUP_ASYNCGOTO :: u32 where "AST_SOFTHANGUP_ASYNCGOTO = push_bit 1 1"
definition AST_SOFTHANGUP_SHUTDOWN :: u32 where "AST_SOFTHANGUP_SHUTDOWN = push_bit 2 1"
definition AST_SOFTHANGUP_TIMEOUT :: u32 where "AST_SOFTHANGUP_TIMEOUT = push_bit 3 1"
definition AST_SOFTHANGUP_APPUNLOAD :: u32 where "AST_SOFTHANGUP_APPUNLOAD = push_bit 4 1"
definition AST_SOFTHANGUP_EXPLICIT :: u32 where "AST_SOFTHANGUP_EXPLICIT = push_bit 5 1"
definition AST_SOFTHANGUP_HANGUP_EXEC :: u32 where "AST_SOFTHANGUP_HANGUP_EXEC = push_bit 7 1"
definition AST_SOFTHANGUP_ALL :: u32 where "AST_SOFTHANGUP_ALL = 0xFFFFFFFF"

lemmas softhangup_consts = AST_SOFTHANGUP_DEV_def AST_SOFTHANGUP_ASYNCGOTO_def AST_SOFTHANGUP_SHUTDOWN_def
  AST_SOFTHANGUP_TIMEOUT_def AST_SOFTHANGUP_APPUNLOAD_def AST_SOFTHANGUP_EXPLICIT_def
  AST_SOFTHANGUP_HANGUP_EXEC_def AST_SOFTHANGUP_ALL_def

subsection \<open>The channel\<close>

record channel =
  unique_id :: string
  ch_name :: string
  ch_state :: channel_state
  ch_caller :: caller_id
  ch_connected :: connected_line
  ch_dialed :: dialed_party
  ch_redirecting :: redirecting
  ch_context :: string
  ch_exten :: string
  ch_priority :: i32
  ch_variables :: "(string, string) hashmap"
  read_format :: string
  write_format :: string
  bridge_id :: "string option"
  ch_hangup_cause :: hangup_cause
  ch_flags :: u64
  frame_queue :: "frame list"
  language :: string
  musicclass :: string
  accountcode :: string
  linkedid :: string
  softhangup_flags :: u32
  ch_dtmf :: dtmf_state
  ch_generator :: generator_state
  ch_audiohooks :: audiohook_list
  ch_framehooks :: framehook_list
  write_queue :: "frame list"

datatype ch_effect =
    Publish string "(string \<times> string) list"
  | FireHangup string hangup_cause
  | FireAnswer string
  | CancelLifetime string

text \<open>A fresh identifier (a UUID in the code) is an argument.\<close>

definition channel_new :: "string \<Rightarrow> string \<Rightarrow> channel" where
  "channel_new uid name =
     \<lparr>unique_id = uid, ch_name = name, ch_state = CS_Down, ch_caller = default_caller_id,
      ch_connected = default_connected_line, ch_dialed = default_dialed_party,
      ch_redirecting = default_redirecting, ch_context = ''default'', ch_exten = ''s'', ch_priority = 1,
      ch_variables = [], read_format = ''ulaw'', write_format = ''ulaw'', bridge_id = None,
      ch_hangup_cause = HC_NotDefined, ch_flags = 0, frame_queue = [], language = ''en'',
      musicclass = ''default'', accountcode = [], linkedid = uid, softhangup_flags = 0,
      ch_dtmf = dtmf_new, ch_generator = generator_state_new, ch_audiohooks = audiohook_list_new,
      ch_framehooks = framehook_list_new, write_queue = []\<rparr>"

text \<open>The header pairs the \<^verbatim>\<open>Newstate\<close> and \<^verbatim>\<open>Hangup\<close> events have in common.\<close>

definition state_headers :: "channel \<Rightarrow> (string \<times> string) list" where
  "state_headers ch =
     [(''Channel'', ch_name ch),
      (''ChannelState'', show_nat (unat (channel_state_code (ch_state ch)))),
      (''ChannelStateDesc'', channel_state_display (ch_state ch)),
      (''CallerIDNum'', pnum_number (pid_number (caller_party (ch_caller ch)))),
      (''CallerIDName'', pn_name (pid_name (caller_party (ch_caller ch)))),
      (''ConnectedLineNum'', pnum_number (pid_number (connected_party (ch_connected ch)))),
      (''ConnectedLineName'', pn_name (pid_name (connected_party (ch_connected ch)))),
      (''Language'', language ch),
      (''AccountCode'', accountcode ch),
      (''Context'', ch_context ch),
      (''Exten'', ch_exten ch),
      (''Priority'', show_int (sint (ch_priority ch))),
      (''Uniqueid'', unique_id ch),
      (''Linkedid'', linkedid ch)]"

definition set_state :: "channel_state \<Rightarrow> channel \<Rightarrow> channel \<times> ch_effect list" where
  "set_state s ch =
     (let ch = ch\<lparr>ch_state := s\<rparr> in (ch, [Publish ''Newstate'' (state_headers ch)]))"

definition answer :: "channel \<Rightarrow> channel \<times> ch_effect list" where
  "answer ch =
     (case set_state CS_Up ch of (ch, evs) \<Rightarrow> (ch, evs @ [FireAnswer (unique_id ch)]))"

definition hangup :: "hangup_cause \<Rightarrow> channel \<Rightarrow> channel \<times> ch_effect list" where
  "hangup cause ch =
     (if ch_state ch = CS_Down then (ch, [])
      else
        let ch = ch\<lparr>ch_hangup_cause := cause\<rparr>
        in case set_state CS_Down ch of
             (ch, evs) \<Rightarrow>
               let ch = ch\<lparr>ch_generator := snd (gs_deactivate (ch_generator ch))\<rparr>
               in (ch, evs @ [FireHangup (unique_id ch) (ch_hangup_cause ch),
                     Publish ''Hangup'' (state_headers ch @
                       [(''Cause'', show_nat (unat (hangup_cause_code (ch_hangup_cause ch)))),
                        (''Cause-txt'', hangup_cause_display (ch_hangup_cause ch))])]))"

definition softhangup :: "u32 \<Rightarrow> channel \<Rightarrow> channel \<times> ch_effect list" where
  "softhangup cause ch =
     (ch\<lparr>softhangup_flags := softhangup_flags ch OR cause, frame_queue := frame_queue ch @ [NullFrame]\<rparr>,
      [CancelLifetime (ch_name ch)])"

definition check_hangup :: "channel \<Rightarrow> bool" where
  "check_hangup ch \<longleftrightarrow> softhangup_flags ch \<noteq> 0"

definition clear_softhangup :: "u32 \<Rightarrow> channel \<Rightarrow> channel" where
  "clear_softhangup flag ch = ch\<lparr>softhangup_flags := softhangup_flags ch AND NOT flag\<rparr>"

definition activate_generator :: "generator \<Rightarrow> channel \<Rightarrow> channel" where
  "activate_generator g ch = ch\<lparr>ch_generator := gs_activate g (ch_generator ch)\<rparr>"

definition deactivate_generator :: "channel \<Rightarrow> channel" where
  "deactivate_generator ch = ch\<lparr>ch_generator := snd (gs_deactivate (ch_generator ch))\<rparr>"

definition audiohook_attach :: "audiohook \<Rightarrow> channel \<Rightarrow> channel" where
  "audiohook_attach h ch = ch\<lparr>ch_audiohooks := ah_attach h (ch_audiohooks ch)\<rparr>"

definition audiohook_detach :: "audiohook_type \<Rightarrow> nat \<Rightarrow> channel \<Rightarrow> audiohook option \<times> channel" where
  "audiohook_detach ty i ch =
     (case ah_detach ty i (ch_audiohooks ch) of (h, l) \<Rightarrow> (h, ch\<lparr>ch_audiohooks := l\<rparr>))"

definition framehook_attach ::
  "(frame \<Rightarrow> framehook_event \<Rightarrow> frame option) \<Rightarrow> u32 \<Rightarrow> channel \<Rightarrow> u32 \<times> hook_call list \<times> u32 \<times> channel" where
  "framehook_attach cb next ch =
     (case fh_attach cb next (ch_framehooks ch) of
        (i, calls, next', l) \<Rightarrow> (i, calls, next', ch\<lparr>ch_framehooks := l\<rparr>))"

definition framehook_detach :: "u32 \<Rightarrow> channel \<Rightarrow> bool \<times> hook_call list \<times> channel" where
  "framehook_detach i ch =
     (case fh_detach i (ch_framehooks ch) of (b, calls, l) \<Rightarrow> (b, calls, ch\<lparr>ch_framehooks := l\<rparr>))"

definition get_variable :: "string \<Rightarrow> channel \<Rightarrow> string option" where
  "get_variable name ch = hget (ch_variables ch) name"

definition set_variable :: "string \<Rightarrow> string \<Rightarrow> channel \<Rightarrow> channel \<times> ch_effect list" where
  "set_variable name value ch =
     (ch\<lparr>ch_variables := hinsert name value (ch_variables ch)\<rparr>,
      [Publish ''VarSet'' [(''Channel'', ch_name ch), (''Variable'', name), (''Value'', value),
         (''Uniqueid'', unique_id ch)]])"

definition MAX_FRAME_QUEUE_SIZE :: nat where
  "MAX_FRAME_QUEUE_SIZE = 1000"

definition queue_frame :: "frame \<Rightarrow> channel \<Rightarrow> channel" where
  "queue_frame f ch =
     (let ch = (if MAX_FRAME_QUEUE_SIZE \<le> length (frame_queue ch)
                then ch\<lparr>frame_queue := tl (frame_queue ch)\<rparr> else ch)
      in ch\<lparr>frame_queue := frame_queue ch @ [f]\<rparr>)"

definition dequeue_frame :: "channel \<Rightarrow> frame option \<times> channel" where
  "dequeue_frame ch =
     (case frame_queue ch of [] \<Rightarrow> (None, ch) | f # fs \<Rightarrow> (Some f, ch\<lparr>frame_queue := fs\<rparr>))"

definition queue_write_frame :: "frame \<Rightarrow> channel \<Rightarrow> channel" where
  "queue_write_frame f ch =
     (let ch = (if MAX_FRAME_QUEUE_SIZE \<le> length (write_queue ch)
                then ch\<lparr>write_queue := tl (write_queue ch)\<rparr> else ch)
      in ch\<lparr>write_queue := write_queue ch @ [f]\<rparr>)"

definition dequeue_write_frame :: "channel \<Rightarrow> frame option \<times> channel" where
  "dequeue_write_frame ch =
     (case write_queue ch of [] \<Rightarrow> (None, ch) | f # fs \<Rightarrow> (Some f, ch\<lparr>write_queue := fs\<rparr>))"

record channel_snapshot =
  snap_unique_id :: string
  snap_name :: string
  snap_state :: channel_state
  snap_caller :: caller_id
  snap_connected :: connected_line
  snap_dialed :: dialed_party
  snap_context :: string
  snap_exten :: string
  snap_priority :: i32
  snap_hangup_cause :: hangup_cause
  snap_bridge_id :: "string option"
  snap_language :: string
  snap_accountcode :: string
  snap_linkedid :: string

definition snapshot :: "channel \<Rightarrow> channel_snapshot" where
  "snapshot ch =
     \<lparr>snap_unique_id = unique_id ch, snap_name = ch_name ch, snap_state = ch_state ch,
      snap_caller = ch_caller ch, snap_connected = ch_connected ch, snap_dialed = ch_dialed ch,
      snap_context = ch_context ch, snap_exten = ch_exten ch, snap_priority = ch_priority ch,
      snap_hangup_cause = ch_hangup_cause ch, snap_bridge_id = bridge_id ch, snap_language = language ch,
      snap_accountcode = accountcode ch, snap_linkedid = linkedid ch\<rparr>"

subsection \<open>Callback registries\<close>

text \<open>Both registries are keyed by ids drawn from one 64-bit counter.\<close>

record ('h, 'a) callbacks =
  callback_id :: u64
  hangup_callbacks :: "(u64, 'h) hashmap"
  answer_callbacks :: "(u64, 'a) hashmap"

definition next_callback_id :: "('h, 'a) callbacks \<Rightarrow> u64 \<times> ('h, 'a) callbacks" where
  "next_callback_id r = (callback_id r, r\<lparr>callback_id := callback_id r + 1\<rparr>)"

definition register_hangup_callback :: "'h \<Rightarrow> ('h, 'a) callbacks \<Rightarrow> ('h, 'a) callbacks" where
  "register_hangup_callback cb r =
     (case next_callback_id r of (i, r) \<Rightarrow> r\<lparr>hangup_callbacks := hinsert i cb (hangup_callbacks r)\<rparr>)"

definition register_hangup_callback_scoped :: "'h \<Rightarrow> ('h, 'a) callbacks \<Rightarrow> u64 \<times> ('h, 'a) callbacks" where
  "register_hangup_callback_scoped cb r =
     (case next_callback_id r of (i, r) \<Rightarrow> (i, r\<lparr>hangup_callbacks := hinsert i cb (hangup_callbacks r)\<rparr>))"

definition drop_hangup_handle :: "u64 \<Rightarrow> ('h, 'a) callbacks \<Rightarrow> ('h, 'a) callbacks" where
  "drop_hangup_handle i r = r\<lparr>hangup_callbacks := hremove i (hangup_callbacks r)\<rparr>"

definition registered_hangup_callbacks :: "('h, 'a) callbacks \<Rightarrow> nat" where
  "registered_hangup_callbacks r = length (hangup_callbacks r)"

definition register_answer_callback :: "'a \<Rightarrow> ('h, 'a) callbacks \<Rightarrow> ('h, 'a) callbacks" where
  "register_answer_callback cb r =
     (case next_callback_id r of (i, r) \<Rightarrow> r\<lparr>answer_callbacks := hinsert i cb (answer_callbacks r)\<rparr>)"

definition register_answer_callback_scoped :: "'a \<Rightarrow> ('h, 'a) callbacks \<Rightarrow> u64 \<times> ('h, 'a) callbacks" where
  "register_answer_callback_scoped cb r =
     (case next_callback_id r of (i, r) \<Rightarrow> (i, r\<lparr>answer_callbacks := hinsert i cb (answer_callbacks r)\<rparr>))"

definition drop_answer_handle :: "u64 \<Rightarrow> ('h, 'a) callbacks \<Rightarrow> ('h, 'a) callbacks" where
  "drop_answer_handle i r = r\<lparr>answer_callbacks := hremove i (answer_callbacks r)\<rparr>"

definition registered_answer_callbacks :: "('h, 'a) callbacks \<Rightarrow> nat" where
  "registered_answer_callbacks r = length (answer_callbacks r)"

text \<open>Firing calls every registered callback with the same arguments; the result lists what they
  return.\<close>

definition fire_hangup_callbacks ::
  "string \<Rightarrow> hangup_cause \<Rightarrow> (string \<Rightarrow> hangup_cause \<Rightarrow> 'r, 'a) callbacks \<Rightarrow> 'r list" where
  "fire_hangup_callbacks uid cause r = map (\<lambda>(i, cb). cb uid cause) (hangup_callbacks r)"

definition fire_answer_callbacks :: "string \<Rightarrow> ('h, string \<Rightarrow> 'r) callbacks \<Rightarrow> 'r list" where
  "fire_answer_callbacks uid r = map (\<lambda>(i, cb). cb uid) (answer_callbacks r)"

subsection \<open>The contract of a bounded queue\<close>

text \<open>
  The promise of both frame queues: at most \<open>cap\<close> frames, the oldest making room for the newest.
  Its consequence over a run of insertions is that the queue holds the last \<open>cap\<close> of everything
  it was given, in order, whatever was dropped on the way.
\<close>

locale bounded_fifo =
  fixes cap :: nat
    and items :: "'s \<Rightarrow> 'a list"
    and push :: "'a \<Rightarrow> 's \<Rightarrow> 's"
    and pop :: "'s \<Rightarrow> 'a option \<times> 's"
  assumes cap_pos: "0 < cap"
    and items_push: "items (push x s) = (if cap \<le> length (items s) then tl (items s) else items s) @ [x]"
    and pop_Nil: "items s = [] \<Longrightarrow> pop s = (None, s)"
    and pop_Cons: "items s = x # xs \<Longrightarrow> fst (pop s) = Some x \<and> items (snd (pop s)) = xs"
begin

definition suffix_of :: "'a list \<Rightarrow> 'a list" where
  "suffix_of xs = drop (length xs - cap) xs"

fun drain :: "nat \<Rightarrow> 's \<Rightarrow> 'a list" where
  "drain 0 s = []"
| "drain (Suc n) s = (case pop s of (Some x, s') \<Rightarrow> x # drain n s' | (None, s') \<Rightarrow> [])"

lemma push_bounded: "length (items s) \<le> cap \<Longrightarrow> length (items (push x s)) \<le> cap"
  using cap_pos by (cases "items s") (auto simp: items_push)

lemma suffix_of_append: "suffix_of (suffix_of xs @ ys) = suffix_of (xs @ ys)"
proof (cases "length xs \<le> cap")
  case False
  then have "length (xs @ ys) - cap = length ys + (length xs - cap)" by simp
  then have "suffix_of (xs @ ys) = drop (length ys) (drop (length xs - cap) (xs @ ys))"
    by (simp only: suffix_of_def drop_drop)
  then show ?thesis using False by (simp add: suffix_of_def)
qed (simp add: suffix_of_def)

lemma push_suffix: "length (items s) \<le> cap \<Longrightarrow> items (push x s) = suffix_of (items s @ [x])"
  using cap_pos by (cases "items s") (auto simp: items_push suffix_of_def)

lemma fold_push: "length (items s) \<le> cap \<Longrightarrow> items (fold push xs s) = suffix_of (items s @ xs)"
proof (induction xs arbitrary: s)
  case (Cons x xs)
  have "items (fold push (x # xs) s) = suffix_of (suffix_of (items s @ [x]) @ xs)"
    using Cons push_bounded [of s x] by (simp add: push_suffix)
  also have "\<dots> = suffix_of (items s @ x # xs)"
    by (simp add: suffix_of_append)
  finally show ?case .
qed (simp add: suffix_of_def)

lemma drain_items: "drain n s = take n (items s)"
proof (induction n arbitrary: s)
  case (Suc n)
  show ?case
  proof (cases "items s")
    case Nil
    then show ?thesis by (simp add: pop_Nil)
  next
    case (Cons x xs)
    from pop_Cons [OF Cons] obtain s' where "pop s = (Some x, s')" "items s' = xs"
      by (metis prod.collapse)
    with Cons Suc show ?thesis by simp
  qed
qed simp

lemma drain_fold_push:
  "items s = [] \<Longrightarrow> drain cap (fold push xs s) = drop (length xs - cap) xs"
  using fold_push [of s xs] by (simp add: drain_items suffix_of_def)

end

interpretation read_fifo: bounded_fifo MAX_FRAME_QUEUE_SIZE frame_queue queue_frame dequeue_frame
  by unfold_locales
    (auto simp: MAX_FRAME_QUEUE_SIZE_def queue_frame_def dequeue_frame_def Let_def split: list.splits)

interpretation write_fifo: bounded_fifo MAX_FRAME_QUEUE_SIZE write_queue queue_write_frame dequeue_write_frame
  by unfold_locales
    (auto simp: MAX_FRAME_QUEUE_SIZE_def queue_write_frame_def dequeue_write_frame_def Let_def split: list.splits)

subsection \<open>Facts about the lifecycle\<close>

lemma hangup_down [simp]: "ch_state ch = CS_Down \<Longrightarrow> hangup c ch = (ch, [])"
  by (simp add: hangup_def)

lemma hangup_state [simp]: "ch_state (fst (hangup c ch)) = CS_Down"
  by (simp add: hangup_def set_state_def Let_def)

lemma set_state_frame [simp]:
  "fst (set_state s ch) = ch\<lparr>ch_state := s\<rparr>"
  by (simp add: set_state_def Let_def)

text \<open>A run of hangup requests, with their effects appended.\<close>

fun hangups :: "hangup_cause list \<Rightarrow> channel \<Rightarrow> channel \<times> ch_effect list" where
  "hangups [] ch = (ch, [])"
| "hangups (c # cs) ch =
     (case hangup c ch of (ch', es) \<Rightarrow> (case hangups cs ch' of (ch'', es') \<Rightarrow> (ch'', es @ es')))"

lemma hangups_down: "ch_state ch = CS_Down \<Longrightarrow> hangups cs ch = (ch, [])"
  by (induction cs) simp_all

definition fired_hangups :: "ch_effect list \<Rightarrow> (string \<times> hangup_cause) list" where
  "fired_hangups es = concat (map (\<lambda>e. case e of FireHangup u c \<Rightarrow> [(u, c)] | _ \<Rightarrow> []) es)"

subsection \<open>Callback registries stay bounded\<close>

definition fresh_ids :: "('h, 'a) callbacks \<Rightarrow> bool" where
  "fresh_ids r \<longleftrightarrow> (\<forall>i \<in> fst ` set (hangup_callbacks r) \<union> fst ` set (answer_callbacks r). i < callback_id r)"

lemma hget_fresh: "(\<And>v. (k, v) \<notin> set m) \<Longrightarrow> hremove k (hinsert k w m) = m"
  by (induction m) (auto simp: AList.delete_eq)

text \<open>One call's worth of scoped registrations: both handles are taken at its start and dropped
  at its end.\<close>

definition call_cycle :: "'h \<Rightarrow> 'a \<Rightarrow> ('h, 'a) callbacks \<Rightarrow> ('h, 'a) callbacks" where
  "call_cycle hcb acb r =
     (case register_hangup_callback_scoped hcb r of
        (i, r) \<Rightarrow> (case register_answer_callback_scoped acb r of
                    (j, r) \<Rightarrow> drop_answer_handle j (drop_hangup_handle i r)))"

lemma call_cycle_tables:
  assumes "fresh_ids r" and "unat (callback_id r) + 2 < 2 ^ 64"
  shows "call_cycle hcb acb r = r\<lparr>callback_id := callback_id r + 2\<rparr>"
    and "fresh_ids (r\<lparr>callback_id := callback_id r + 2\<rparr>)"
    and "unat (callback_id r + 2) = unat (callback_id r) + 2"
proof -
  let ?k = "callback_id r"
  have k: "?k < ?k + 1" "?k < ?k + 2" "?k + 1 < ?k + 2" "unat (?k + 2) = unat ?k + 2"
    using assms(2) by (simp_all add: word_less_nat_alt unat_word_ariths)
  have old: "i < ?k" if "i \<in> fst ` set (hangup_callbacks r) \<or> i \<in> fst ` set (answer_callbacks r)" for i
    using assms(1) that by (auto simp: fresh_ids_def)
  from old [of ?k] old [of "?k + 1"] k(1)
  have "(?k, v) \<notin> set (hangup_callbacks r)" "(?k + 1, w) \<notin> set (answer_callbacks r)" for v w
    by (force, force)
  note rm = hget_fresh [OF this(1)] hget_fresh [OF this(2)]
  then show "call_cycle hcb acb r = r\<lparr>callback_id := ?k + 2\<rparr>"
    by (simp add: call_cycle_def register_hangup_callback_scoped_def register_answer_callback_scoped_def
        next_callback_id_def drop_answer_handle_def drop_hangup_handle_def)
  show "fresh_ids (r\<lparr>callback_id := ?k + 2\<rparr>)"
    unfolding fresh_ids_def using old k(2) by (auto intro: less_trans)
  show "unat (?k + 2) = unat ?k + 2" by (rule k(4))
qed

lemma call_cycles_tables:
  assumes "fresh_ids r" and "unat (callback_id r) + 2 * n < 2 ^ 64"
  shows "hangup_callbacks ((call_cycle hcb acb ^^ n) r) = hangup_callbacks r
    \<and> answer_callbacks ((call_cycle hcb acb ^^ n) r) = answer_callbacks r
    \<and> fresh_ids ((call_cycle hcb acb ^^ n) r)
    \<and> unat (callback_id ((call_cycle hcb acb ^^ n) r)) = unat (callback_id r) + 2 * n"
  using assms(2)
proof (induction n)
  case (Suc n)
  then have IH: "hangup_callbacks ((call_cycle hcb acb ^^ n) r) = hangup_callbacks r"
    "answer_callbacks ((call_cycle hcb acb ^^ n) r) = answer_callbacks r"
    "fresh_ids ((call_cycle hcb acb ^^ n) r)"
    "unat (callback_id ((call_cycle hcb acb ^^ n) r)) = unat (callback_id r) + 2 * n"
    by simp_all
  from Suc.prems have "unat (callback_id ((call_cycle hcb acb ^^ n) r)) + 2 < 2 ^ 64" by (simp add: IH(4))
  from call_cycle_tables [OF IH(3) this] show ?case by (simp add: IH)
qed (use assms(1) in simp)

subsection \<open>Properties\<close>

text \<open>Hanging a live channel up any number of times hangs it up once: the first cause is kept,
  the hangup callbacks fire exactly once, with that cause, and the channel is down.\<close>

theorem hangup_once:
  assumes "ch_state ch \<noteq> CS_Down"
  shows "ch_state (fst (hangups (c # cs) ch)) = CS_Down
    \<and> ch_hangup_cause (fst (hangups (c # cs) ch)) = c
    \<and> fired_hangups (snd (hangups (c # cs) ch)) = [(unique_id ch, c)]
    \<and> \<not> gs_is_active (ch_generator (fst (hangups (c # cs) ch)))"
  using assms by (simp add: hangup_def set_state_def Let_def hangups_down fired_hangups_def)

theorem hangup_once_witness:
  "ch_hangup_cause (fst (hangups [HC_UserBusy, HC_NormalClearing] (fst (answer (channel_new ''u1'' ''SIP/a''))))) = HC_UserBusy"
  using hangup_once [of "fst (answer (channel_new ''u1'' ''SIP/a''))" HC_UserBusy "[HC_NormalClearing]"]
  by (simp add: answer_def set_state_def Let_def del: hangups.simps)

text \<open>A soft hangup request is seen until it is cleared: requesting sets exactly the requested
  flags, clearing flags removes exactly those, and clearing all of them makes the channel live.\<close>

theorem softhangup_flags_correct:
  "bit (softhangup_flags (fst (softhangup c ch))) n = (bit (softhangup_flags ch) n \<or> bit c n)
   \<and> bit (softhangup_flags (clear_softhangup f ch)) n = (bit (softhangup_flags ch) n \<and> \<not> bit f n)
   \<and> check_hangup (fst (softhangup c ch)) = (check_hangup ch \<or> c \<noteq> 0)
   \<and> \<not> check_hangup (clear_softhangup AST_SOFTHANGUP_ALL ch)"
proof -
  have "NOT AST_SOFTHANGUP_ALL = 0" by (simp add: AST_SOFTHANGUP_ALL_def)
  moreover have "bit (softhangup_flags ch AND NOT f) n = (bit (softhangup_flags ch) n \<and> \<not> bit f n)"
    by (auto simp: bit_simps dest: bit_imp_le_length)
  ultimately show ?thesis
    by (simp add: softhangup_def clear_softhangup_def check_hangup_def bit_or_iff or_eq_0_iff)
qed



text \<open>The bound of the read queue does not hold for soft hangups: each request appends a wake-up
  frame without the size check, so the queue grows by one with every request.\<close>

theorem softhangup_queue_unbounded:
  "length (frame_queue (((\<lambda>ch. fst (softhangup c ch)) ^^ n) ch)) = length (frame_queue ch) + n"
  by (induction n) (simp_all add: softhangup_def)

text \<open>The callback registries return to their baseline: after any number of calls that take
  and drop scoped handles, short of exhausting the 64-bit ids, both tables are what they were.\<close>

theorem callback_registries_baseline:
  assumes "fresh_ids r" and "unat (callback_id r) + 2 * n < 2 ^ 64"
  shows "hangup_callbacks ((call_cycle hcb acb ^^ n) r) = hangup_callbacks r
    \<and> answer_callbacks ((call_cycle hcb acb ^^ n) r) = answer_callbacks r"
  using call_cycles_tables [OF assms] by simp

theorem callback_registries_baseline_witness:
  "hangup_callbacks ((call_cycle 5 6 ^^ 3) \<lparr>callback_id = 2, hangup_callbacks = [(1, 7 :: nat)], answer_callbacks = [(0, 8 :: nat)]\<rparr>)
     = [(1, 7)]"
  using callback_registries_baseline
      [of "\<lparr>callback_id = 2, hangup_callbacks = [(1, 7 :: nat)], answer_callbacks = [(0, 8 :: nat)]\<rparr>" 3 5 6]
  by (simp add: fresh_ids_def)

end
