(* ===== verification/Channel_IO.thy ===== *)
theory Channel_IO
  imports Channel
begin

section \<open>The frame read and write pipelines\<close>

text \<open>
  \<^verbatim>\<open>asterisk-core/src/channel/readwrite.rs\<close>: reading a frame through the hangup check, the
  frame queue, the driver, DTMF timing, framehooks, audiohooks and generator, and writing one in
  the other direction. The channel driver is the function argument the code also takes:
  \<open>read_fn\<close> and \<open>write_fn\<close> map the channel to a result and the channel after the call. The clock
  value a read sees is the argument \<open>now\<close>.
\<close>

subsection \<open>Reading\<close>

definition dtmf_stage :: "instant \<Rightarrow> frame \<Rightarrow> channel \<Rightarrow> frame \<times> channel" where
  "dtmf_stage now f ch =
     (case f of
        DtmfBegin d \<Rightarrow>
          (case on_begin now d (ch_dtmf ch) of
             (True, st) \<Rightarrow> (DtmfBegin d, ch\<lparr>ch_dtmf := st\<rparr>)
           | (False, st) \<Rightarrow> (NullFrame, ch\<lparr>ch_dtmf := st\<rparr>))
      | DtmfEnd d dur \<Rightarrow>
          (case on_end now d dur (ch_dtmf ch) of
             (act, st) \<Rightarrow>
               let ch = ch\<lparr>ch_dtmf := st\<rparr>
               in (case act of
                     Passthrough dur' \<Rightarrow>
                       (DtmfEnd d dur', ch\<lparr>ch_generator := gs_digit d (ch_generator ch)\<rparr>)
                   | EmulateBeginFirst _ \<Rightarrow> (DtmfBegin d, ch)
                   | EmulateRemaining _ \<Rightarrow> (NullFrame, ch)
                   | Defer \<Rightarrow> (NullFrame, queue_frame (DtmfEnd d dur) ch)))
      | NullFrame \<Rightarrow>
          (case check_emulation_tick now (ch_dtmf ch) of
             (Some (d, dur), st) \<Rightarrow> (DtmfEnd d dur, ch\<lparr>ch_dtmf := st\<rparr>)
           | (None, st) \<Rightarrow> (NullFrame, ch\<lparr>ch_dtmf := st\<rparr>))
      | Voice _ _ _ _ _ _ _ \<Rightarrow>
          (case check_emulation_tick now (ch_dtmf ch) of
             (Some (d, dur), st) \<Rightarrow> (DtmfEnd d dur, ch\<lparr>ch_dtmf := st\<rparr>)
           | (None, st) \<Rightarrow>
               if emulating st then (NullFrame, ch\<lparr>ch_dtmf := st\<rparr>) else (f, ch\<lparr>ch_dtmf := st\<rparr>))
      | _ \<Rightarrow> (f, ch))"

definition framehook_stage_read :: "frame \<Rightarrow> channel \<Rightarrow> frame option" where
  "framehook_stage_read f ch =
     (if \<not> fh_is_empty (ch_framehooks ch) then fh_process_read (ch_framehooks ch) f else Some f)"

definition audiohook_stage_read :: "frame \<Rightarrow> channel \<Rightarrow> frame option \<times> channel" where
  "audiohook_stage_read f ch =
     (if \<not> ah_is_empty (ch_audiohooks ch) then
        (case ah_process_read f (ch_audiohooks ch) of (r, l) \<Rightarrow> (r, ch\<lparr>ch_audiohooks := l\<rparr>))
      else (Some f, ch))"

definition generator_stage_read :: "frame \<Rightarrow> channel \<Rightarrow> frame \<times> channel" where
  "generator_stage_read f ch =
     (if gs_is_active (ch_generator ch) then
        (case f of
           Voice _ samples _ _ _ _ _ \<Rightarrow>
             (case gs_generate (unat samples) (ch_generator ch) of
                (Some g, gs) \<Rightarrow> (g, ch\<lparr>ch_generator := gs\<rparr>)
              | (None, gs) \<Rightarrow> (f, ch\<lparr>ch_generator := gs\<rparr>))
         | _ \<Rightarrow> (f, ch))
      else (f, ch))"

definition process_read_frame :: "instant \<Rightarrow> frame \<Rightarrow> channel \<Rightarrow> frame option asterisk_result \<times> channel" where
  "process_read_frame now f ch =
     (case dtmf_stage now f ch of
        (f, ch) \<Rightarrow>
          (case framehook_stage_read f ch of
             None \<Rightarrow> (Inr (Some NullFrame), ch)
           | Some f \<Rightarrow>
               (case audiohook_stage_read f ch of
                  (None, ch) \<Rightarrow> (Inr (Some NullFrame), ch)
                | (Some f, ch) \<Rightarrow>
                    (case generator_stage_read f ch of (f, ch) \<Rightarrow> (Inr (Some f), ch)))))"

definition channel_read ::
  "instant \<Rightarrow> (channel \<Rightarrow> frame asterisk_result \<times> channel) \<Rightarrow> channel \<Rightarrow> frame option asterisk_result \<times> channel" where
  "channel_read now read_fn ch =
     (if check_hangup ch then
        (Inr None, ch\<lparr>ch_generator := snd (gs_deactivate (ch_generator ch))\<rparr>)
      else
        (case dequeue_frame ch of
           (Some queued, ch) \<Rightarrow> process_read_frame now queued ch
         | (None, ch) \<Rightarrow>
             (case read_fn ch of
                (Inr f, ch) \<Rightarrow> process_read_frame now f ch
              | (Inl e, ch) \<Rightarrow> (Inl e, ch))))"

subsection \<open>Writing\<close>

definition framehook_stage_write :: "frame \<Rightarrow> channel \<Rightarrow> frame option" where
  "framehook_stage_write f ch =
     (if \<not> fh_is_empty (ch_framehooks ch) then fh_process_write (ch_framehooks ch) f else Some f)"

definition audiohook_stage_write :: "frame \<Rightarrow> channel \<Rightarrow> frame option \<times> channel" where
  "audiohook_stage_write f ch =
     (if \<not> ah_is_empty (ch_audiohooks ch) then
        (case ah_process_write f (ch_audiohooks ch) of (r, l) \<Rightarrow> (r, ch\<lparr>ch_audiohooks := l\<rparr>))
      else (Some f, ch))"

text \<open>\<^const>\<open>None\<close> is the early return that consumes the frame.\<close>

definition generator_stage_write :: "frame \<Rightarrow> channel \<Rightarrow> channel option" where
  "generator_stage_write f ch =
     (if gs_is_active (ch_generator ch) then
        (case f of
           DtmfEnd d _ \<Rightarrow> Some (ch\<lparr>ch_generator := gs_digit d (ch_generator ch)\<rparr>)
         | Voice _ _ _ _ _ _ _ \<Rightarrow>
             if flags_contain (ch_flags ch) WRITE_INT
             then Some (ch\<lparr>ch_generator := snd (gs_deactivate (ch_generator ch))\<rparr>)
             else None
         | _ \<Rightarrow> Some ch)
      else Some ch)"

definition channel_write ::
  "(channel \<Rightarrow> frame \<Rightarrow> unit asterisk_result \<times> channel) \<Rightarrow> frame \<Rightarrow> channel \<Rightarrow> unit asterisk_result \<times> channel" where
  "channel_write write_fn f ch =
     (if check_hangup ch then
        (Inl (HangupError (''channel '' @ ch_name ch @ '' is hanging up'')), ch)
      else
        (case framehook_stage_write f ch of
           None \<Rightarrow> (Inr (), ch)
         | Some f \<Rightarrow>
             (case audiohook_stage_write f ch of
                (None, ch) \<Rightarrow> (Inr (), ch)
              | (Some f, ch) \<Rightarrow>
                  (case generator_stage_write f ch of
                     None \<Rightarrow> (Inr (), ch)
                   | Some ch \<Rightarrow> write_fn ch f))))"

subsection \<open>Facts about the stages\<close>

text \<open>A channel with nothing attached to it and no digit under way.\<close>

definition bare :: "channel \<Rightarrow> bool" where
  "bare ch \<longleftrightarrow> fh_is_empty (ch_framehooks ch) \<and> ah_is_empty (ch_audiohooks ch)
     \<and> \<not> gs_is_active (ch_generator ch) \<and> \<not> emulating (ch_dtmf ch)"

lemma tick_not_emulating [simp]: "\<not> emulating st \<Longrightarrow> check_emulation_tick now st = (None, st)"
  by (simp add: check_emulation_tick_def)

lemma tick_emits_digit:
  "check_emulation_tick now st = (Some (d, ms), st') \<Longrightarrow> emulating st \<and> d = dtmf_digit st"
  by (auto simp: check_emulation_tick_def Let_def split: if_splits)

lemma dtmf_stage_other: "\<not> emulating (ch_dtmf ch) \<Longrightarrow> \<not> is_dtmf f \<Longrightarrow> dtmf_stage now f ch = (f, ch)"
  by (cases f) (simp_all add: dtmf_stage_def is_dtmf_def)

lemma process_read_bare: "bare ch \<Longrightarrow> \<not> is_dtmf f \<Longrightarrow> process_read_frame now f ch = (Inr (Some f), ch)"
  by (simp add: process_read_frame_def dtmf_stage_other bare_def framehook_stage_read_def
      audiohook_stage_read_def generator_stage_read_def)

lemma dtmf_stage_keeps:
  "dtmf_stage now f ch = (f', ch') \<Longrightarrow>
     ch_framehooks ch' = ch_framehooks ch \<and> ch_audiohooks ch' = ch_audiohooks ch
     \<and> gs_is_active (ch_generator ch') = gs_is_active (ch_generator ch)"
  by (auto simp: dtmf_stage_def Let_def queue_frame_def
      split: frame.splits prod.splits bool.splits dtmf_end_action.splits option.splits if_splits)

fun read_n :: "instant \<Rightarrow> (channel \<Rightarrow> frame asterisk_result \<times> channel) \<Rightarrow> nat \<Rightarrow> channel \<Rightarrow>
    frame option asterisk_result list \<times> channel" where
  "read_n now read_fn 0 ch = ([], ch)"
| "read_n now read_fn (Suc n) ch =
     (case channel_read now read_fn ch of
        (r, ch') \<Rightarrow> (case read_n now read_fn n ch' of (rs, ch'') \<Rightarrow> (r # rs, ch'')))"

lemma read_n_queue:
  assumes "bare ch" and "\<not> check_hangup ch" and "frame_queue ch = fs @ gs" and "\<forall>f \<in> set fs. \<not> is_dtmf f"
  shows "read_n now rf (length fs) ch = (map (Inr \<circ> Some) fs, ch\<lparr>frame_queue := gs\<rparr>)"
  using assms
proof (induction fs arbitrary: ch)
  case (Cons f fs)
  let ?ch = "ch\<lparr>frame_queue := fs @ gs\<rparr>"
  have "channel_read now rf ch = (Inr (Some f), ?ch)"
    using Cons.prems process_read_bare [of ?ch f now]
    by (simp add: channel_read_def dequeue_frame_def bare_def)
  moreover have "read_n now rf (length fs) ?ch = (map (Inr \<circ> Some) fs, ?ch\<lparr>frame_queue := gs\<rparr>)"
    using Cons.prems by (intro Cons.IH) (simp_all add: bare_def check_hangup_def)
  ultimately show ?case by simp
qed simp

subsection \<open>Properties\<close>

text \<open>A channel that should hang up yields no frame: the read returns the hangup result
  without calling the driver or touching the queue, and leaves no generator running.\<close>

theorem channel_read_hangup:
  assumes "check_hangup ch"
  shows "fst (channel_read now read_fn ch) = Inr None
    \<and> frame_queue (snd (channel_read now read_fn ch)) = frame_queue ch
    \<and> \<not> gs_is_active (ch_generator (snd (channel_read now read_fn ch)))"
  using assms by (simp add: channel_read_def)

theorem channel_read_hangup_witness:
  "fst (channel_read 0 (\<lambda>ch. (Inr NullFrame, ch)) (fst (softhangup AST_SOFTHANGUP_DEV (channel_new ''u'' ''n''))))
     = Inr None"
proof -
  have "check_hangup (fst (softhangup AST_SOFTHANGUP_DEV (channel_new ''u'' ''n'')))"
    by (simp add: check_hangup_def softhangup_def AST_SOFTHANGUP_DEV_def channel_new_def)
  from channel_read_hangup [OF this] show ?thesis by blast
qed



text \<open>While a digit is being emulated no voice reaches the reader: without hooks, the frame a
  read returns for a voice frame is the end of the emulated digit, a null frame, or, once the
  emulation has just ended, the voice frame itself.\<close>

theorem no_voice_during_emulation:
  assumes "emulating (ch_dtmf ch)" and "is_voice f"
  shows "case dtmf_stage now f ch of
    (f', ch') \<Rightarrow> (\<exists>ms. f' = DtmfEnd (dtmf_digit (ch_dtmf ch)) ms) \<or> f' = NullFrame
      \<or> f' = f \<and> \<not> emulating (ch_dtmf ch')"
  using assms
  by (cases f; cases "check_emulation_tick now (ch_dtmf ch)"; cases "fst (check_emulation_tick now (ch_dtmf ch))")
    (auto simp: dtmf_stage_def is_voice_def dest!: tick_emits_digit)

theorem no_voice_during_emulation_witness:
  "case dtmf_stage 5 (frame_voice 0 160 []) ((channel_new ''u'' ''n'')\<lparr>ch_dtmf := snd (on_end 0 CHR ''4'' 0 dtmf_new)\<rparr>) of
    (f', ch') \<Rightarrow> (\<exists>ms. f' = DtmfEnd (dtmf_digit (ch_dtmf ((channel_new ''u'' ''n'')\<lparr>ch_dtmf := snd (on_end 0 CHR ''4'' 0 dtmf_new)\<rparr>))) ms)
      \<or> f' = NullFrame \<or> f' = frame_voice 0 160 [] \<and> \<not> emulating (ch_dtmf ch')"
  by (rule no_voice_during_emulation) (simp_all add: dtmf_eval frame_voice_def is_voice_def)

text \<open>Writing voice over a running generator: without the write-interrupt flag the driver is
  not called and the frame is consumed; with it the generator is stopped before the driver sees
  the frame.\<close>

theorem channel_write_generator:
  assumes "\<not> check_hangup ch" and "fh_is_empty (ch_framehooks ch)" and "ah_is_empty (ch_audiohooks ch)"
    and "gs_is_active (ch_generator ch)" and "is_voice f"
  shows "channel_write write_fn f ch =
    (if flags_contain (ch_flags ch) WRITE_INT
     then write_fn (ch\<lparr>ch_generator := snd (gs_deactivate (ch_generator ch))\<rparr>) f
     else (Inr (), ch))"
  using assms
  by (cases f) (simp_all add: channel_write_def framehook_stage_write_def audiohook_stage_write_def
      generator_stage_write_def is_voice_def)

primcorec silence_generator :: generator where
  "gen_alloc silence_generator = silence_generator"
| "gen_release silence_generator = silence_generator"
| "gen_generate silence_generator = (\<lambda>n. (Some NullFrame, silence_generator))"
| "gen_digit silence_generator = (\<lambda>d. silence_generator)"
| "gen_write_format_change silence_generator = silence_generator"

theorem channel_write_generator_witness:
  "fst (channel_write (\<lambda>ch f. (Inl (Internal []), ch)) (frame_voice 0 160 [])
     (activate_generator silence_generator (channel_new ''u'' ''n''))) = Inr ()"
proof -
  let ?ch = "activate_generator silence_generator (channel_new ''u'' ''n'')"
  have "\<not> check_hangup ?ch" "fh_is_empty (ch_framehooks ?ch)" "ah_is_empty (ch_audiohooks ?ch)"
    "gs_is_active (ch_generator ?ch)" "is_voice (frame_voice 0 160 [])" "ch_flags ?ch = 0"
    by (simp_all add: activate_generator_def channel_new_def check_hangup_def fh_is_empty_def ah_is_empty_def
        framehook_list_new_def audiohook_list_new_def gs_is_active_def gs_activate_def frame_voice_def is_voice_def)
  moreover have "\<not> flags_contain 0 WRITE_INT" by (simp add: flags_contain_def WRITE_INT_def)
  ultimately show ?thesis
    using channel_write_generator [of ?ch "frame_voice 0 160 []" "\<lambda>ch f. (Inl (Internal []), ch)"] by simp
qed

end
