(* ===== verification/Channel_Store.thy ===== *)
theory Channel_Store
  imports Channel
begin

section \<open>The global channel store\<close>

text \<open>
  \<^verbatim>\<open>asterisk-core/src/channel/store.rs\<close>: the registry of live channels, indexed by unique id
  and by name. Channels are shared, so a channel lives at an address of an explicit heap and the
  store and its clients hold addresses. The epoch second a unique id is built from is an argument.
\<close>

subsection \<open>State and operations\<close>

record store =
  chan_heap :: "(nat, channel) hashmap"
  chan_next :: nat
  by_uniqueid :: "(string, nat) hashmap"
  name_to_uniqueid :: "(string, string) hashmap"
  unique_counter :: u64

definition store_new :: store where
  "store_new = \<lparr>chan_heap = [], chan_next = 0, by_uniqueid = [], name_to_uniqueid = [], unique_counter = 1\<rparr>"

definition chan_alloc :: "channel \<Rightarrow> store \<Rightarrow> nat \<times> store" where
  "chan_alloc ch s =
     (chan_next s, s\<lparr>chan_heap := hinsert (chan_next s) ch (chan_heap s), chan_next := chan_next s + 1\<rparr>)"

definition chan_at :: "store \<Rightarrow> nat \<Rightarrow> channel option" where
  "chan_at s a = hget (chan_heap s) a"

definition store_register :: "nat \<Rightarrow> store \<Rightarrow> store" where
  "store_register a s =
     (case chan_at s a of
        None \<Rightarrow> s
      | Some ch \<Rightarrow>
          if hget (by_uniqueid s) (unique_id ch) \<noteq> None then s
          else s\<lparr>name_to_uniqueid := hinsert (ch_name ch) (unique_id ch) (name_to_uniqueid s),
                 by_uniqueid := hinsert (unique_id ch) a (by_uniqueid s)\<rparr>)"

definition deregister :: "string \<Rightarrow> store \<Rightarrow> store" where
  "deregister uid s =
     (case hget (by_uniqueid s) uid of
        None \<Rightarrow> s
      | Some a \<Rightarrow>
          (let s = s\<lparr>by_uniqueid := hremove uid (by_uniqueid s)\<rparr>
           in case chan_at s a of
                Some ch \<Rightarrow> s\<lparr>name_to_uniqueid := hremove (ch_name ch) (name_to_uniqueid s)\<rparr>
              | None \<Rightarrow> s))"

definition find_by_uniqueid :: "string \<Rightarrow> store \<Rightarrow> nat option" where
  "find_by_uniqueid uid s = hget (by_uniqueid s) uid"

definition find_by_name :: "string \<Rightarrow> store \<Rightarrow> nat option" where
  "find_by_name name s =
     (case hget (name_to_uniqueid s) name of None \<Rightarrow> None | Some uid \<Rightarrow> hget (by_uniqueid s) uid)"

definition store_count :: "store \<Rightarrow> nat" where
  "store_count s = length (by_uniqueid s)"

definition generate_uniqueid :: "nat \<Rightarrow> store \<Rightarrow> string \<times> store" where
  "generate_uniqueid epoch s =
     (show_nat epoch @ ''.'' @ show_nat (unat (unique_counter s)), s\<lparr>unique_counter := unique_counter s + 1\<rparr>)"

definition newchannel_event :: "channel \<Rightarrow> ch_effect" where
  "newchannel_event ch =
     Publish ''Newchannel''
       [(''Channel'', ch_name ch),
        (''ChannelState'', show_nat (unat (channel_state_code (ch_state ch)))),
        (''ChannelStateDesc'', channel_state_display (ch_state ch)),
        (''CallerIDNum'', pnum_number (pid_number (caller_party (ch_caller ch)))),
        (''AccountCode'', accountcode ch),
        (''Uniqueid'', unique_id ch),
        (''Linkedid'', linkedid ch)]"

text \<open>\<open>uuid\<close> is the identifier \<^verbatim>\<open>Channel::new\<close> draws, which is overwritten here.\<close>

definition alloc_channel :: "nat \<Rightarrow> string \<Rightarrow> string \<Rightarrow> store \<Rightarrow> nat \<times> store \<times> ch_effect list" where
  "alloc_channel epoch uuid name s =
     (case generate_uniqueid epoch s of
        (uid, s) \<Rightarrow>
          (case chan_alloc ((channel_new uuid name)\<lparr>unique_id := uid, linkedid := uid\<rparr>) s of
             (a, s) \<Rightarrow>
               (a, store_register a s,
                [Publish ''Newchannel''
                   [(''Channel'', name), (''ChannelState'', ''0''), (''ChannelStateDesc'', ''Down''),
                    (''CallerIDNum'', ''''), (''AccountCode'', ''''), (''Uniqueid'', uid), (''Linkedid'', uid)]])))"

definition register_existing_channel :: "nat \<Rightarrow> channel \<Rightarrow> store \<Rightarrow> nat \<times> store \<times> ch_effect list" where
  "register_existing_channel epoch ch s =
     (case generate_uniqueid epoch s of
        (uid, s) \<Rightarrow>
          (let ch = ch\<lparr>unique_id := uid, linkedid := uid\<rparr>
           in case chan_alloc ch s of
                (a, s) \<Rightarrow> (a, store_register a s, [newchannel_event ch])))"

definition try_register_channel :: "channel \<Rightarrow> store \<Rightarrow> (channel + nat) \<times> store \<times> ch_effect list" where
  "try_register_channel ch s =
     (if hget (by_uniqueid s) (unique_id ch) \<noteq> None then (Inl ch, s, [])
      else case chan_alloc ch s of (a, s) \<Rightarrow> (Inr a, store_register a s, [newchannel_event ch]))"

definition find_by_exten :: "string \<Rightarrow> string \<Rightarrow> store \<Rightarrow> nat list" where
  "find_by_exten context exten s =
     filter (\<lambda>a. case chan_at s a of Some ch \<Rightarrow> ch_context ch = context \<and> ch_exten ch = exten | None \<Rightarrow> False)
       (map snd (by_uniqueid s))"

definition all_channels :: "store \<Rightarrow> nat list" where
  "all_channels s = map snd (by_uniqueid s)"

definition update_name :: "string \<Rightarrow> string \<Rightarrow> string \<Rightarrow> store \<Rightarrow> store" where
  "update_name old_name new_name uid s =
     s\<lparr>name_to_uniqueid := hinsert new_name uid (hremove old_name (name_to_uniqueid s))\<rparr>"

subsection \<open>The invariant of the two indexes\<close>

text \<open>Every registered channel is reachable through both indexes: the name index maps the name of
  each registered channel to its id and nothing else to it. It is preserved as long as a name is
  not given to two registered channels.\<close>

definition store_inv :: "store \<Rightarrow> bool" where
  "store_inv s \<longleftrightarrow>
     hm_wf (by_uniqueid s)
     \<and> (\<forall>a ch. chan_at s a = Some ch \<longrightarrow> a < chan_next s)
     \<and> (\<forall>uid a. hget (by_uniqueid s) uid = Some a \<longrightarrow>
          (\<exists>ch. chan_at s a = Some ch \<and> unique_id ch = uid \<and> hget (name_to_uniqueid s) (ch_name ch) = Some uid))
     \<and> (\<forall>n uid. hget (name_to_uniqueid s) n = Some uid \<longrightarrow>
          (\<exists>a ch. hget (by_uniqueid s) uid = Some a \<and> chan_at s a = Some ch \<and> ch_name ch = n))"

lemma store_inv_new: "store_inv store_new"
  by (simp add: store_inv_def store_new_def chan_at_def)

lemma chan_at_alloc:
  "chan_alloc ch s = (a, s') \<Longrightarrow> chan_at s' b = (if b = a then Some ch else chan_at s b)"
  by (auto simp: chan_alloc_def chan_at_def)

lemma chan_alloc_keeps:
  "chan_alloc ch s = (a, s') \<Longrightarrow> by_uniqueid s' = by_uniqueid s \<and> name_to_uniqueid s' = name_to_uniqueid s
     \<and> a = chan_next s \<and> chan_next s' = Suc (chan_next s)"
  by (auto simp: chan_alloc_def)

lemma register_new_tables:
  assumes "chan_alloc ch s = (a, s')" and "hget (by_uniqueid s) (unique_id ch) = None"
  shows "by_uniqueid (store_register a s') = hinsert (unique_id ch) a (by_uniqueid s)"
    and "name_to_uniqueid (store_register a s') = hinsert (ch_name ch) (unique_id ch) (name_to_uniqueid s)"
    and "chan_at (store_register a s') b = (if b = a then Some ch else chan_at s b)"
    and "chan_next (store_register a s') = Suc (chan_next s)"
  using assms chan_at_alloc [OF assms(1)] chan_alloc_keeps [OF assms(1)]
  by (auto simp: store_register_def chan_at_def)

lemma store_invD:
  assumes "store_inv s"
  shows "hm_wf (by_uniqueid s)" and "chan_at s a = Some ch \<Longrightarrow> a < chan_next s"
    and "hget (by_uniqueid s) uid = Some a \<Longrightarrow>
      \<exists>ch. chan_at s a = Some ch \<and> unique_id ch = uid \<and> hget (name_to_uniqueid s) (ch_name ch) = Some uid"
    and "hget (name_to_uniqueid s) n = Some uid \<Longrightarrow>
      \<exists>a ch. hget (by_uniqueid s) uid = Some a \<and> chan_at s a = Some ch \<and> ch_name ch = n"
  using assms by (simp_all add: store_inv_def)

lemma store_inv_register:
  assumes inv: "store_inv s" and al: "chan_alloc ch s = (a, s')"
    and uid: "hget (by_uniqueid s) (unique_id ch) = None" and nm: "hget (name_to_uniqueid s) (ch_name ch) = None"
  shows "store_inv (store_register a s')"
proof -
  note tabs = register_new_tables [OF al uid]
  have a: "a = chan_next s" using chan_alloc_keeps [OF al] by simp
  show ?thesis
    unfolding store_inv_def tabs hget_hinsert
  proof (intro conjI allI impI)
    show "hm_wf (hinsert (unique_id ch) a (by_uniqueid s))"
      using store_invD(1) [OF inv] by auto
    show "b < Suc (chan_next s)" if "(if b = a then Some ch else chan_at s b) = Some c" for b c
      using store_invD(2) [OF inv, of b c] that a by (auto simp: less_Suc_eq split: if_splits)
    show "\<exists>c. (if b = a then Some ch else chan_at s b) = Some c \<and> unique_id c = u
        \<and> (if ch_name c = ch_name ch then Some (unique_id ch) else hget (name_to_uniqueid s) (ch_name c)) = Some u"
      if "(if u = unique_id ch then Some a else hget (by_uniqueid s) u) = Some b" for u b
    proof (cases "u = unique_id ch")
      case False
      with that store_invD(3) [OF inv, of u b] obtain c where
        c: "chan_at s b = Some c" "unique_id c = u" "hget (name_to_uniqueid s) (ch_name c) = Some u" by auto
      moreover from c(1) have "b \<noteq> a" using store_invD(2) [OF inv, of b c] a by auto
      ultimately show ?thesis using nm by auto
    qed (use that in auto)
    show "\<exists>b c. (if u = unique_id ch then Some a else hget (by_uniqueid s) u) = Some b
        \<and> (if b = a then Some ch else chan_at s b) = Some c \<and> ch_name c = n"
      if "(if n = ch_name ch then Some (unique_id ch) else hget (name_to_uniqueid s) n) = Some u" for n u
    proof (cases "n = ch_name ch")
      case False
      with that store_invD(4) [OF inv, of n u] obtain b c where
        c: "hget (by_uniqueid s) u = Some b" "chan_at s b = Some c" "ch_name c = n" by auto
      moreover from c(2) have "b \<noteq> a" using store_invD(2) [OF inv, of b c] a by auto
      ultimately show ?thesis using uid by auto
    qed (use that in auto)
  qed
qed

lemma store_inv_deregister:
  assumes inv: "store_inv s"
  shows "store_inv (deregister uid s)"
proof (cases "hget (by_uniqueid s) uid")
  case (Some a)
  from store_invD(3) [OF inv Some] obtain ch where
    ch: "chan_at s a = Some ch" "unique_id ch = uid" "hget (name_to_uniqueid s) (ch_name ch) = Some uid" by auto
  have tabs: "by_uniqueid (deregister uid s) = hremove uid (by_uniqueid s)"
    "name_to_uniqueid (deregister uid s) = hremove (ch_name ch) (name_to_uniqueid s)"
    "chan_at (deregister uid s) b = chan_at s b" "chan_next (deregister uid s) = chan_next s" for b
    using Some ch(1) by (auto simp: deregister_def chan_at_def)
  show ?thesis
    unfolding store_inv_def tabs hget_hremove
  proof (intro conjI allI impI)
    show "hm_wf (hremove uid (by_uniqueid s))" using store_invD(1) [OF inv] by auto
    show "b < chan_next s" if "chan_at s b = Some c" for b c
      using store_invD(2) [OF inv that] .
    show "\<exists>c. chan_at s b = Some c \<and> unique_id c = u
        \<and> (if ch_name c = ch_name ch then None else hget (name_to_uniqueid s) (ch_name c)) = Some u"
      if "(if u = uid then None else hget (by_uniqueid s) u) = Some b" for u b
    proof -
      from that store_invD(3) [OF inv, of u b] obtain c where
        "u \<noteq> uid" "chan_at s b = Some c" "unique_id c = u" "hget (name_to_uniqueid s) (ch_name c) = Some u"
        by (auto split: if_splits)
      moreover from calculation ch(3) have "ch_name c \<noteq> ch_name ch" by force
      ultimately show ?thesis by auto
    qed
    show "\<exists>b c. (if u = uid then None else hget (by_uniqueid s) u) = Some b \<and> chan_at s b = Some c \<and> ch_name c = n"
      if "(if n = ch_name ch then None else hget (name_to_uniqueid s) n) = Some u" for n u
      using store_invD(4) [OF inv, of n u] that ch Some by (auto split: if_splits)
  qed
qed (use inv in \<open>simp add: deregister_def\<close>)

lemma find_by_name_registered:
  assumes inv: "store_inv s"
  shows "find_by_name n s = Some a \<longleftrightarrow>
    a \<in> set (all_channels s) \<and> (\<exists>ch. chan_at s a = Some ch \<and> ch_name ch = n)"
proof
  assume "find_by_name n s = Some a"
  then obtain uid where uid: "hget (name_to_uniqueid s) n = Some uid" "hget (by_uniqueid s) uid = Some a"
    by (auto simp: find_by_name_def split: option.splits)
  from store_invD(4) [OF inv uid(1)] uid(2) have "\<exists>ch. chan_at s a = Some ch \<and> ch_name ch = n" by auto
  moreover from hget_in_set [OF uid(2)] have "a \<in> set (all_channels s)"
    by (force simp: all_channels_def)
  ultimately show "a \<in> set (all_channels s) \<and> (\<exists>ch. chan_at s a = Some ch \<and> ch_name ch = n)" by blast
next
  assume "a \<in> set (all_channels s) \<and> (\<exists>ch. chan_at s a = Some ch \<and> ch_name ch = n)"
  then obtain uid ch where "(uid, a) \<in> set (by_uniqueid s)" and ch: "chan_at s a = Some ch" "ch_name ch = n"
    by (auto simp: all_channels_def)
  then have "hget (by_uniqueid s) uid = Some a"
    using hm_wf_in_set [OF store_invD(1) [OF inv]] by blast
  with store_invD(3) [OF inv this] ch show "find_by_name n s = Some a"
    by (auto simp: find_by_name_def)
qed

subsection \<open>Unique ids\<close>

text \<open>The ids a run of generations yields, each at its own epoch second.\<close>

fun generate_ids :: "nat list \<Rightarrow> store \<Rightarrow> string list" where
  "generate_ids [] s = []"
| "generate_ids (e # es) s = (case generate_uniqueid e s of (uid, s') \<Rightarrow> uid # generate_ids es s')"

lemma uniqueid_seq_inj:
  assumes "show_nat e @ ''.'' @ show_nat n = show_nat e' @ ''.'' @ show_nat n'"
  shows "n = n'"
proof -
  have dot: "CHR ''.'' \<notin> set (show_nat k)" for k
    by (simp add: show_nat_no_char is_digit_iff)
  from assms have "split_once CHR ''.'' (show_nat e @ CHR ''.'' # show_nat n) =
      split_once CHR ''.'' (show_nat e' @ CHR ''.'' # show_nat n')" by simp
  then have "show_nat n = show_nat n'" using dot by simp
  then show ?thesis by (metis digits_val_show_nat)
qed

lemma generate_ids_seq:
  assumes "uid \<in> set (generate_ids es s)" and "unat (unique_counter s) + length es < 2 ^ 64"
  shows "\<exists>e n. uid = show_nat e @ ''.'' @ show_nat n \<and> unat (unique_counter s) \<le> n"
  using assms
proof (induction es arbitrary: s)
  case (Cons e es)
  let ?s = "s\<lparr>unique_counter := unique_counter s + 1\<rparr>"
  have "unat (unique_counter s + 1) = Suc (unat (unique_counter s))"
    using Cons.prems(2) by (simp add: unat_word_ariths)
  with Cons.IH [of ?s] Cons.prems show ?case
    by (auto simp: generate_uniqueid_def dest: Suc_leD)
qed simp

lemma generate_ids_distinct:
  assumes "unat (unique_counter s) + length es < 2 ^ 64"
  shows "distinct (generate_ids es s)"
  using assms
proof (induction es arbitrary: s)
  case (Cons e es)
  let ?s = "s\<lparr>unique_counter := unique_counter s + 1\<rparr>"
  have c: "unat (unique_counter s + 1) = Suc (unat (unique_counter s))"
    using Cons.prems by (simp add: unat_word_ariths)
  have "show_nat e @ ''.'' @ show_nat (unat (unique_counter s)) \<notin> set (generate_ids es ?s)"
  proof
    assume "show_nat e @ ''.'' @ show_nat (unat (unique_counter s)) \<in> set (generate_ids es ?s)"
    from generate_ids_seq [OF this] Cons.prems c obtain e' n where
      n: "show_nat e @ ''.'' @ show_nat (unat (unique_counter s)) = show_nat e' @ ''.'' @ show_nat n"
      "Suc (unat (unique_counter s)) \<le> n"
      by (simp del: append.simps) blast
    from uniqueid_seq_inj [OF n(1)] n(2) show False by simp
  qed
  with Cons.IH [of ?s] c Cons.prems show ?case
    by (simp add: generate_uniqueid_def)
qed simp

subsection \<open>Properties\<close>

text \<open>Registering a channel under a fresh id and name makes it, and only it, reachable by both:
  the invariant of the indexes is kept, the count grows by one and lookups of other ids and names
  are unchanged.\<close>

theorem try_register_channel_found:
  assumes "store_inv s" and "find_by_uniqueid (unique_id ch) s = None"
    and "hget (name_to_uniqueid s) (ch_name ch) = None"
  shows "\<exists>a s' evs. try_register_channel ch s = (Inr a, s', evs) \<and> store_inv s'
    \<and> find_by_uniqueid (unique_id ch) s' = Some a \<and> find_by_name (ch_name ch) s' = Some a
    \<and> chan_at s' a = Some ch \<and> store_count s' = Suc (store_count s)
    \<and> (\<forall>u. u \<noteq> unique_id ch \<longrightarrow> find_by_uniqueid u s' = find_by_uniqueid u s)"
proof -
  obtain a s1 where al: "chan_alloc ch s = (a, s1)" by fastforce
  from assms(2) have uid: "hget (by_uniqueid s) (unique_id ch) = None" by (simp add: find_by_uniqueid_def)
  note tabs = register_new_tables [OF al uid]
  have "try_register_channel ch s = (Inr a, store_register a s1, [newchannel_event ch])"
    using uid al by (simp add: try_register_channel_def)
  moreover have "store_inv (store_register a s1)"
    by (rule store_inv_register [OF assms(1) al uid assms(3)])
  ultimately show ?thesis
    using uid by (simp add: find_by_uniqueid_def find_by_name_def store_count_def tabs length_hinsert)
qed

theorem try_register_channel_found_witness:
  "\<exists>a s' evs. try_register_channel (channel_new ''u1'' ''SIP/a'') store_new = (Inr a, s', evs) \<and> store_inv s'
    \<and> find_by_uniqueid (unique_id (channel_new ''u1'' ''SIP/a'')) s' = Some a
    \<and> find_by_name (ch_name (channel_new ''u1'' ''SIP/a'')) s' = Some a
    \<and> chan_at s' a = Some (channel_new ''u1'' ''SIP/a'') \<and> store_count s' = Suc (store_count store_new)
    \<and> (\<forall>u. u \<noteq> unique_id (channel_new ''u1'' ''SIP/a'') \<longrightarrow> find_by_uniqueid u s' = find_by_uniqueid u store_new)"
  by (rule try_register_channel_found) (rule store_inv_new, simp_all add: store_new_def find_by_uniqueid_def)



text \<open>Deregistering removes a channel from both indexes and nothing else, and keeps the
  indexes consistent.\<close>

theorem deregister_removes:
  assumes "store_inv s" and "find_by_uniqueid uid s = Some a" and "chan_at s a = Some ch"
  shows "store_inv (deregister uid s) \<and> find_by_uniqueid uid (deregister uid s) = None
    \<and> find_by_name (ch_name ch) (deregister uid s) = None
    \<and> (\<forall>u. u \<noteq> uid \<longrightarrow> find_by_uniqueid u (deregister uid s) = find_by_uniqueid u s)"
proof
  show "store_inv (deregister uid s)" by (rule store_inv_deregister [OF assms(1)])
qed (use assms(2,3) in \<open>simp add: find_by_uniqueid_def find_by_name_def deregister_def chan_at_def\<close>)

theorem deregister_removes_witness:
  "find_by_uniqueid ''u1'' (deregister ''u1''
     (fst (snd (try_register_channel (channel_new ''u1'' ''SIP/a'') store_new)))) = None"
proof -
  let ?s = "fst (snd (try_register_channel (channel_new ''u1'' ''SIP/a'') store_new))"
  obtain a s1 where al: "chan_alloc (channel_new ''u1'' ''SIP/a'') store_new = (a, s1)" by fastforce
  then have s: "?s = store_register a s1" by (simp add: try_register_channel_def store_new_def)
  have "store_inv ?s" unfolding s
    by (rule store_inv_register [OF store_inv_new al]) (simp_all add: store_new_def)
  moreover have "find_by_uniqueid ''u1'' ?s = Some a" "chan_at ?s a = Some (channel_new ''u1'' ''SIP/a'')"
    unfolding s find_by_uniqueid_def
    using register_new_tables [OF al] by (simp_all add: channel_new_def store_new_def)
  ultimately show ?thesis using deregister_removes by blast
qed

text \<open>Generated unique ids never repeat, whatever the clock does, until the 64-bit counter is
  exhausted.\<close>

theorem unique_ids_distinct:
  assumes "unat (unique_counter s) + length epochs < 2 ^ 64"
  shows "distinct (generate_ids epochs s)"
  by (rule generate_ids_distinct [OF assms])

theorem unique_ids_distinct_witness: "distinct (generate_ids [1700000000, 1700000000, 5] store_new)"
  by (rule unique_ids_distinct) (simp add: store_new_def)

text \<open>Deregistering removes the name entry without looking at whose it is: of two registered
  channels with one name, ending the first leaves the second without a name lookup although it is
  still registered.\<close>

theorem deregister_hides_namesake:
  assumes "store_inv s" and "find_by_uniqueid u1 s = Some a1" and "chan_at s a1 = Some ch1"
    and "u2 \<noteq> u1" and "find_by_uniqueid u2 s = None" and "unique_id ch2 = u2" and "ch_name ch2 = ch_name ch1"
  shows "\<exists>a2 s' evs. try_register_channel ch2 s = (Inr a2, s', evs)
    \<and> find_by_uniqueid u2 (deregister u1 s') = Some a2 \<and> find_by_name (ch_name ch2) (deregister u1 s') = None"
proof -
  obtain a s1 where al: "chan_alloc ch2 s = (a, s1)" by fastforce
  have uid: "hget (by_uniqueid s) (unique_id ch2) = None" using assms(5,6) by (simp add: find_by_uniqueid_def)
  note tabs = register_new_tables [OF al uid]
  have ne: "a1 \<noteq> a"
    using chan_alloc_keeps [OF al] store_invD(2) [OF assms(1,3)] by simp
  have "try_register_channel ch2 s = (Inr a, store_register a s1, [newchannel_event ch2])"
    using uid al by (simp add: try_register_channel_def)
  moreover have "hget (by_uniqueid (store_register a s1)) u1 = Some a1" "chan_at (store_register a s1) a1 = Some ch1"
    using assms ne by (simp_all add: tabs find_by_uniqueid_def)
  then have "by_uniqueid (deregister u1 (store_register a s1)) = hremove u1 (by_uniqueid (store_register a s1))"
    "name_to_uniqueid (deregister u1 (store_register a s1)) =
       hremove (ch_name ch1) (name_to_uniqueid (store_register a s1))"
    by (simp_all add: deregister_def chan_at_def)
  ultimately show ?thesis
    using assms by (simp add: find_by_uniqueid_def find_by_name_def tabs)
qed

theorem deregister_hides_namesake_witness:
  "\<exists>s0 a2 s' evs. try_register_channel (channel_new ''u2'' ''SIP/a'') s0 = (Inr a2, s', evs)
    \<and> find_by_uniqueid ''u2'' (deregister ''u1'' s') = Some a2
    \<and> find_by_name (ch_name (channel_new ''u2'' ''SIP/a'')) (deregister ''u1'' s') = None"
proof -
  obtain a s1 where al: "chan_alloc (channel_new ''u1'' ''SIP/a'') store_new = (a, s1)" by fastforce
  let ?s = "store_register a s1"
  have u: "hget (by_uniqueid store_new) (unique_id (channel_new ''u1'' ''SIP/a'')) = None"
    by (simp add: store_new_def)
  note tabs = register_new_tables [OF al u]
  have "store_inv ?s" by (rule store_inv_register [OF store_inv_new al u]) (simp add: store_new_def)
  moreover have "find_by_uniqueid ''u1'' ?s = Some a" "find_by_uniqueid ''u2'' ?s = None"
    "chan_at ?s a = Some (channel_new ''u1'' ''SIP/a'')"
    by (simp_all add: find_by_uniqueid_def tabs channel_new_def store_new_def)
  ultimately show ?thesis
    using deregister_hides_namesake [of ?s "''u1''" a "channel_new ''u1'' ''SIP/a''" "''u2''" "channel_new ''u2'' ''SIP/a''"]
    by (simp add: channel_new_def) blast
qed

text \<open>An id collision is not reported: when the generated id is already taken (client-chosen ids
  share the space), the new channel is announced with a Newchannel event but not registered.\<close>

theorem alloc_channel_collision:
  assumes "find_by_uniqueid (show_nat epoch @ ''.'' @ show_nat (unat (unique_counter s))) s = Some b"
    and "b < chan_next s"
  shows "\<exists>a s' evs. alloc_channel epoch uuid name s = (a, s', evs) \<and> length evs = 1
    \<and> a \<noteq> b \<and> by_uniqueid s' = by_uniqueid s \<and> name_to_uniqueid s' = name_to_uniqueid s"
  using assms
  by (auto simp: alloc_channel_def generate_uniqueid_def chan_alloc_def store_register_def chan_at_def
      find_by_uniqueid_def)

theorem alloc_channel_collision_witness:
  "\<exists>a s' evs. alloc_channel 7 ''uuid'' ''SIP/b'' (store_new\<lparr>chan_next := 1, by_uniqueid := [(''7.1'', 0)]\<rparr>) = (a, s', evs)
    \<and> length evs = 1 \<and> a \<noteq> 0 \<and> by_uniqueid s' = by_uniqueid (store_new\<lparr>chan_next := 1, by_uniqueid := [(''7.1'', 0)]\<rparr>)
    \<and> name_to_uniqueid s' = name_to_uniqueid (store_new\<lparr>chan_next := 1, by_uniqueid := [(''7.1'', 0)]\<rparr>)"
  by (rule alloc_channel_collision) (simp_all add: find_by_uniqueid_def store_new_def show_nat.simps digit_char_def char_of_def bit_0)

end
