(* ===== verification/Substitute.thy ===== *)
theory Substitute
  imports Channel
begin

section \<open>Variable substitution\<close>

text \<open>
  The substitution engine of \<^verbatim>\<open>asterisk-core/src/pbx/substitute.rs\<close>. A call that slices a
  string off a character boundary panics in the code; here the result is then \<^const>\<open>None\<close>.
  The dialplan functions (trait objects of the function registry) and the expression evaluator are
  fields of the environment, so every statement holds for all of them.
\<close>

subsection \<open>Scanning\<close>

definition MAX_SUBSTITUTE_DEPTH :: nat where
  "MAX_SUBSTITUTE_DEPTH = 15"

text \<open>The scanners take the number of open brackets, the content so far in reverse and the rest of
  the input, and return the content and the input behind the closing bracket.\<close>

fun find_matching_brace :: "nat \<Rightarrow> string \<Rightarrow> string \<Rightarrow> (string \<times> string) option" where
  "find_matching_brace b acc [] = None"
| "find_matching_brace b acc (c # cs) =
     (if c = CHR ''$'' \<and> cs \<noteq> [] \<and> hd cs = CHR ''{'' then
        find_matching_brace (b + 1) (hd cs # c # acc) (tl cs)
      else if c = CHR ''$'' \<and> cs \<noteq> [] \<and> hd cs = CHR ''['' then
        find_matching_brace b (hd cs # c # acc) (tl cs)
      else if c = CHR ''}'' then
        (if b = 1 then Some (rev acc, cs) else find_matching_brace (b - 1) (c # acc) cs)
      else find_matching_brace b (c # acc) cs)"

fun find_matching_bracket :: "nat \<Rightarrow> bool \<Rightarrow> string \<Rightarrow> string \<Rightarrow> (string \<times> string) option" where
  "find_matching_bracket b q acc [] = None"
| "find_matching_bracket b q acc (c # cs) =
     (if c = CHR 0x22 then find_matching_bracket b (\<not> q) (c # acc) cs
      else if q then find_matching_bracket b q (c # acc) cs
      else if c = CHR ''$'' \<and> cs \<noteq> [] \<and> hd cs = CHR ''['' then
        find_matching_bracket (b + 1) q (hd cs # c # acc) (tl cs)
      else if c = CHR ''$'' \<and> cs \<noteq> [] \<and> hd cs = CHR ''{'' then
        find_matching_bracket b q (hd cs # c # acc) (tl cs)
      else if c = CHR '']'' then
        (if b = 1 then Some (rev acc, cs) else find_matching_bracket (b - 1) q (c # acc) cs)
      else find_matching_bracket b q (c # acc) cs)"

text \<open>The position of the first colon outside parentheses.\<close>

fun colon_pos :: "nat \<Rightarrow> nat \<Rightarrow> string \<Rightarrow> nat option" where
  "colon_pos parens i [] = None"
| "colon_pos parens i (c # cs) =
     (if c = CHR ''('' then colon_pos (parens + 1) (i + 1) cs
      else if c = CHR '')'' then colon_pos (parens - 1) (i + 1) cs
      else if c = CHR '':'' \<and> parens = 0 then Some i
      else colon_pos parens (i + 1) cs)"

definition parse_variable_name_with_substring :: "string \<Rightarrow> string \<times> i32 option \<times> i32 option" where
  "parse_variable_name_with_substring input =
     (case colon_pos 0 0 input of
        Some cp \<Rightarrow>
          (let var_name = take cp input;
               substr_spec = drop (cp + 1) input;
               parts = splitn 2 CHR '':'' substr_spec;
               off = (case parts of p # _ \<Rightarrow> parse_i32 p | [] \<Rightarrow> None);
               len = (case parts of _ # p # _ \<Rightarrow> parse_i32 p | _ \<Rightarrow> None)
           in (var_name, off, len))
      | None \<Rightarrow> (input, None, None))"

fun paren_depth :: "int \<Rightarrow> string \<Rightarrow> int" where
  "paren_depth d [] = d"
| "paren_depth d (c # cs) =
     (if c = CHR ''('' then paren_depth (d + 1) cs
      else if c = CHR '')'' then paren_depth (d - 1) cs else paren_depth d cs)"

definition is_function_call :: "string \<Rightarrow> bool" where
  "is_function_call name \<longleftrightarrow> CHR ''('' \<in> set name \<and> paren_depth 0 name = 0"

definition split_function_call :: "string \<Rightarrow> (string \<times> string) option" where
  "split_function_call name =
     (case find_char CHR ''('' name of
        None \<Rightarrow> None
      | Some paren_pos \<Rightarrow>
          (case strip_suffix '')'' (drop (paren_pos + 1) name) of
             None \<Rightarrow> None
           | Some args \<Rightarrow> Some (take paren_pos name, args)))"

subsection \<open>Lookup\<close>

record subst_env =
  se_channel :: "channel option"
  se_headp :: "(string, string) hashmap option"
  se_funcs :: "string \<Rightarrow> (channel \<Rightarrow> string \<Rightarrow> string option) option"
  se_eval :: "string \<Rightarrow> string option"

definition builtin_variable :: "channel \<Rightarrow> string \<Rightarrow> string option" where
  "builtin_variable ch name =
     (if name = ''EXTEN'' then Some (ch_exten ch)
      else if name = ''CONTEXT'' then Some (ch_context ch)
      else if name = ''PRIORITY'' then Some (show_int (sint (ch_priority ch)))
      else if name = ''CHANNEL'' then Some (ch_name ch)
      else if name = ''UNIQUEID'' then Some (unique_id ch)
      else if name = ''HANGUPCAUSE'' then Some (show_nat (unat (hangup_cause_code (ch_hangup_cause ch))))
      else if name = ''CALLERID(num)'' \<or> name = ''CALLERID(number)'' then
        Some (pnum_number (pid_number (caller_party (ch_caller ch))))
      else if name = ''CALLERID(name)'' then Some (pn_name (pid_name (caller_party (ch_caller ch))))
      else if name = ''CALLERID(all)'' then
        (let cid_name = pn_name (pid_name (caller_party (ch_caller ch)));
             num = pnum_number (pid_number (caller_party (ch_caller ch)))
         in if cid_name = [] then Some num
            else Some ([CHR 0x22] @ cid_name @ [CHR 0x22] @ '' <'' @ num @ ''>''))
      else None)"

definition lookup_function :: "subst_env \<Rightarrow> string \<Rightarrow> string" where
  "lookup_function env name =
     (if is_function_call name then
        (case split_function_call name of
           Some (func_name, args) \<Rightarrow>
             (case se_funcs env func_name of
                Some func \<Rightarrow>
                  (case se_channel env of
                     Some ch \<Rightarrow> (case func ch args of Some val \<Rightarrow> val | None \<Rightarrow> [])
                   | None \<Rightarrow> [])
              | None \<Rightarrow> [])
         | None \<Rightarrow> [])
      else [])"

definition lookup_variable :: "subst_env \<Rightarrow> string \<Rightarrow> string" where
  "lookup_variable env name =
     (case (case se_channel env of
              Some ch \<Rightarrow>
                (case builtin_variable ch name of Some v \<Rightarrow> Some v | None \<Rightarrow> hget (ch_variables ch) name)
            | None \<Rightarrow> None) of
        Some v \<Rightarrow> v
      | None \<Rightarrow>
          (case (case se_headp env of Some vars \<Rightarrow> hget vars name | None \<Rightarrow> None) of
             Some v \<Rightarrow> v
           | None \<Rightarrow> lookup_function env name))"

text \<open>\<^verbatim>\<open>value[a..b]\<close>, which panics off a character boundary.\<close>

definition str_slice :: "string \<Rightarrow> nat \<Rightarrow> nat \<Rightarrow> string option" where
  "str_slice v a b =
     (if a \<le> b \<and> b \<le> length v \<and> is_char_boundary v a \<and> is_char_boundary v b
      then Some (take (b - a) (drop a v)) else None)"

definition apply_substring :: "string \<Rightarrow> i32 \<Rightarrow> i32 \<Rightarrow> string option" where
  "apply_substring value offset0 len0 =
     (let lr = sint (of_nat (length value) :: i32);
          offset = sint offset0;
          len = sint len0
      in if offset = 0 \<and> lr \<le> len then Some value
         else
           let offset = (if offset < 0 then (let o' = lr + offset in if o' < 0 then 0 else o') else offset)
           in if lr \<le> offset then Some []
              else
                let start = nat offset;
                    remaining = lr - offset
                in if 0 \<le> len \<and> len < remaining then str_slice value start (start + nat len)
                   else if len < 0 then
                     (let effective_len = remaining + len
                      in if 0 < effective_len then str_slice value start (start + nat effective_len) else Some [])
                   else str_slice value start (length value))"

subsection \<open>Substitution\<close>

definition needs_sub :: "string \<Rightarrow> bool" where
  "needs_sub content \<longleftrightarrow> contains_sub ''${'' content \<or> contains_sub ''$['' content"

definition subst_value :: "subst_env \<Rightarrow> string \<Rightarrow> string option" where
  "subst_value env resolved =
     (case parse_variable_name_with_substring resolved of
        (var_name, off, len) \<Rightarrow>
          (let value = lookup_variable env var_name
           in if off \<noteq> None \<or> len \<noteq> None then
                apply_substring value (case off of Some o' \<Rightarrow> o' | None \<Rightarrow> 0)
                  (case len of Some l \<Rightarrow> l | None \<Rightarrow> 2147483647)
              else Some value))"

lemma find_matching_brace_length:
  "find_matching_brace b acc cs = Some (content, rest) \<Longrightarrow>
     length content + length rest < length acc + length cs"
  by (induction b acc cs rule: find_matching_brace.induct) (auto simp: neq_Nil_conv split: if_splits)

lemma find_matching_bracket_length:
  "find_matching_bracket b q acc cs = Some (content, rest) \<Longrightarrow>
     length content + length rest < length acc + length cs"
  by (induction b q acc cs rule: find_matching_bracket.induct) (auto simp: neq_Nil_conv split: if_splits)

function (sequential)
  substitute_recursive :: "subst_env \<Rightarrow> nat \<Rightarrow> string \<Rightarrow> string option" and
  substitute_loop :: "subst_env \<Rightarrow> nat \<Rightarrow> string \<Rightarrow> string option"
where
  "substitute_recursive env depth input =
     (if MAX_SUBSTITUTE_DEPTH \<le> depth then Some [] else substitute_loop env depth input)"
| "substitute_loop env depth [] = Some []"
| "substitute_loop env depth [c] = Some [c]"
| "substitute_loop env depth (c # d # ds) =
     (if c \<noteq> CHR ''$'' then map_option ((#) c) (substitute_loop env depth (d # ds))
      else if d = CHR ''{'' then
        (case find_matching_brace 1 [] ds of
           Some (content, rest) \<Rightarrow>
             Option.bind
               (if needs_sub content then substitute_recursive env (depth + 1) content else Some content)
               (\<lambda>resolved. Option.bind (subst_value env resolved)
                  (\<lambda>v. map_option ((@) v) (substitute_loop env depth rest)))
         | None \<Rightarrow> map_option ((@) ''${'') (substitute_loop env depth ds))
      else if d = CHR ''['' then
        (case find_matching_bracket 1 False [] ds of
           Some (content, rest) \<Rightarrow>
             Option.bind
               (if needs_sub content then substitute_recursive env (depth + 1) content else Some content)
               (\<lambda>resolved. map_option ((@) (case se_eval env resolved of Some r \<Rightarrow> r | None \<Rightarrow> ''0''))
                  (substitute_loop env depth rest))
         | None \<Rightarrow> map_option ((@) ''$['') (substitute_loop env depth ds))
      else if d = CHR ''$'' then map_option ((#) c) (substitute_loop env depth ds)
      else map_option ((#) c) (substitute_loop env depth (d # ds)))"
  by pat_completeness auto

termination
  by (relation "measure (\<lambda>x. case x of Inl (env, depth, input) \<Rightarrow> 2 * length input + 1
      | Inr (env, depth, input) \<Rightarrow> 2 * length input)")
    (auto dest: find_matching_brace_length find_matching_bracket_length)

declare substitute_recursive.simps [simp del]

definition substitute_variables_full :: "subst_env \<Rightarrow> string \<Rightarrow> string option" where
  "substitute_variables_full env input = substitute_recursive env 0 input"

definition substitute_variables ::
  "(string \<Rightarrow> (channel \<Rightarrow> string \<Rightarrow> string option) option) \<Rightarrow> (string \<Rightarrow> string option) \<Rightarrow> channel \<Rightarrow> string \<Rightarrow> string option" where
  "substitute_variables funcs evalx ch input =
     substitute_variables_full \<lparr>se_channel = Some ch, se_headp = None, se_funcs = funcs, se_eval = evalx\<rparr> input"

subsection \<open>Templates\<close>

text \<open>The meaning of a substitution input, for the text a dialplan author writes: literal text,
  with dollar signs doubled, and references to plainly named variables.\<close>

datatype piece = Lit string | Var string

definition escape :: "string \<Rightarrow> string" where
  "escape s = concat (map (\<lambda>c. if c = CHR ''$'' then ''$$'' else [c]) s)"

fun piece_text :: "piece \<Rightarrow> string" where
  "piece_text (Lit s) = escape s"
| "piece_text (Var n) = ''${'' @ n @ ''}''"

fun piece_value :: "subst_env \<Rightarrow> piece \<Rightarrow> string" where
  "piece_value env (Lit s) = s"
| "piece_value env (Var n) = lookup_variable env n"

definition plain_name :: "string \<Rightarrow> bool" where
  "plain_name n \<longleftrightarrow> (\<forall>c \<in> set n. c \<notin> {CHR ''$'', CHR ''}'', CHR '':''})"

fun piece_ok :: "piece \<Rightarrow> bool" where
  "piece_ok (Lit s) = True"
| "piece_ok (Var n) = plain_name n"

lemma loop_literal_char: "c \<noteq> CHR ''$'' \<Longrightarrow> substitute_loop env d (c # s) = map_option ((#) c) (substitute_loop env d s)"
  by (cases s) simp_all

lemma loop_escape: "substitute_loop env d (escape s @ t) = map_option ((@) s) (substitute_loop env d t)"
proof (induction s)
  case (Cons c s)
  then show ?case
    by (cases "c = CHR ''$''")
      (simp_all add: escape_def loop_literal_char option.map_comp comp_def)
qed (simp add: escape_def option.map_ident)

lemma find_matching_brace_plain:
  "\<forall>c \<in> set n. c \<noteq> CHR ''$'' \<and> c \<noteq> CHR ''}'' \<Longrightarrow>
     find_matching_brace 1 acc (n @ CHR ''}'' # t) = Some (rev acc @ n, t)"
  by (induction n arbitrary: acc) auto

lemma contains_sub_hd: "contains_sub (c # p) s \<Longrightarrow> c \<in> set s"
  by (induction "c # p" s rule: find_sub.induct) (auto simp: contains_sub_def starts_with_def split: if_splits)

lemma needs_sub_plain: "CHR ''$'' \<notin> set n \<Longrightarrow> \<not> needs_sub n"
  by (auto simp: needs_sub_def dest: contains_sub_hd)

lemma colon_pos_None: "CHR '':'' \<notin> set n \<Longrightarrow> colon_pos k i n = None"
  by (induction k i n rule: colon_pos.induct) auto

lemma subst_value_plain: "CHR '':'' \<notin> set n \<Longrightarrow> subst_value env n = Some (lookup_variable env n)"
  by (simp add: subst_value_def parse_variable_name_with_substring_def colon_pos_None)

lemma loop_variable:
  assumes "plain_name n"
  shows "substitute_loop env d (''${'' @ n @ ''}'' @ t) =
    map_option ((@) (lookup_variable env n)) (substitute_loop env d t)"
proof -
  have n: "CHR ''$'' \<notin> set n" "CHR '':'' \<notin> set n" "\<forall>c \<in> set n. c \<noteq> CHR ''$'' \<and> c \<noteq> CHR ''}''"
    using assms by (auto simp: plain_name_def)
  have "find_matching_brace 1 [] (n @ CHR ''}'' # t) = Some (n, t)"
    using find_matching_brace_plain [OF n(3), of "[]" t] by simp
  then show ?thesis
    by (simp add: subst_value_plain [OF n(2)] needs_sub_plain [OF n(1)])
qed

lemma loop_template:
  "\<forall>p \<in> set ps. piece_ok p \<Longrightarrow>
     substitute_loop env d (concat (map piece_text ps)) = Some (concat (map (piece_value env) ps))"
proof (induction ps)
  case (Cons p ps)
  then show ?case
    by (cases p) (simp_all add: loop_escape loop_variable [simplified])
qed simp

subsection \<open>Freedom from panics\<close>

lemma str_slice_ascii: "is_ascii v \<Longrightarrow> a \<le> b \<Longrightarrow> b \<le> length v \<Longrightarrow> \<exists>r. str_slice v a b = Some r"
  by (simp add: str_slice_def is_char_boundary_ascii)

lemma apply_substring_ascii: "is_ascii v \<Longrightarrow> \<exists>r. apply_substring v off len = Some r"
  using sint_of_nat_le [of "length v"]
  by (auto simp: apply_substring_def Let_def intro!: str_slice_ascii)

lemma subst_value_ascii: "(\<And>n. is_ascii (lookup_variable env n)) \<Longrightarrow> \<exists>r. subst_value env s = Some r"
  by (auto simp: subst_value_def Let_def apply_substring_ascii split: prod.splits)

lemma substitute_loop_total:
  assumes ascii: "\<And>n. is_ascii (lookup_variable env n)"
  shows "\<exists>r. substitute_loop env depth input = Some r"
proof (induction "length input" arbitrary: depth input rule: less_induct)
  case less
  have rec: "\<exists>r. substitute_recursive env k s = Some r" if "length s < length input" for k s
    using less [OF that] by (auto simp: substitute_recursive.simps)
  consider "input = []" | c where "input = [c]" | c d ds where "input = c # d # ds"
    by (cases input; cases "tl input") auto
  then show ?case
  proof cases
    case (3 c d ds)
    then have l: "\<exists>r. substitute_loop env depth s = Some r" if "length s \<le> Suc (length ds)" for s
      using less [of s] that by simp
    have brace: "\<exists>r. Option.bind (if needs_sub x then substitute_recursive env (depth + 1) x else Some x)
        (\<lambda>y. Option.bind (subst_value env y) (\<lambda>v. map_option ((@) v) (substitute_loop env depth t))) = Some r"
      if "find_matching_brace 1 [] ds = Some (x, t)" for x t
      using that [THEN find_matching_brace_length] rec [of x "depth + 1"] l [of t] subst_value_ascii [OF ascii] 3
      by (fastforce simp: bind_eq_Some_conv)
    have bracket: "\<exists>r. Option.bind (if needs_sub x then substitute_recursive env (depth + 1) x else Some x)
        (\<lambda>y. map_option ((@) (f y)) (substitute_loop env depth t)) = Some r"
      if "find_matching_bracket 1 False [] ds = Some (x, t)" for x t f
      using that [THEN find_matching_bracket_length] rec [of x "depth + 1"] l [of t] 3
      by (fastforce simp: bind_eq_Some_conv)
    obtain r1 r2 where r: "substitute_loop env depth ds = Some r1" "substitute_loop env depth (d # ds) = Some r2"
      using l [of ds] l [of "d # ds"] by auto
    have "\<exists>r. (case find_matching_brace 1 [] ds of
         Some (x, t) \<Rightarrow> Option.bind (if needs_sub x then substitute_recursive env (depth + 1) x else Some x)
           (\<lambda>y. Option.bind (subst_value env y) (\<lambda>v. map_option ((@) v) (substitute_loop env depth t)))
       | None \<Rightarrow> map_option ((@) ''${'') (Some r1)) = Some r"
      using brace by (cases "find_matching_brace 1 [] ds") (auto simp only: option.case prod.case option.map)
    moreover have "\<exists>r. (case find_matching_bracket 1 False [] ds of
         Some (x, t) \<Rightarrow> Option.bind (if needs_sub x then substitute_recursive env (depth + 1) x else Some x)
           (\<lambda>y. map_option ((@) (case se_eval env y of Some r \<Rightarrow> r | None \<Rightarrow> ''0'')) (substitute_loop env depth t))
       | None \<Rightarrow> map_option ((@) ''$['') (Some r1)) = Some r"
      using bracket by (cases "find_matching_bracket 1 False [] ds") (auto simp only: option.case prod.case option.map)
    ultimately show ?thesis
      unfolding 3 substitute_loop.simps r by (simp only: option.map split: if_split) blast
  qed simp_all
qed

lemma substitute_total:
  "(\<And>n. is_ascii (lookup_variable env n)) \<Longrightarrow> \<exists>r. substitute_variables_full env input = Some r"
  using substitute_loop_total [of env] by (simp add: substitute_variables_full_def substitute_recursive.simps)

subsection \<open>What a substring is\<close>

definition substring_spec :: "string \<Rightarrow> int \<Rightarrow> int \<Rightarrow> string" where
  "substring_spec v off len =
     (let start = (if off < 0 then max 0 (int (length v) + off) else off);
          rest = drop (nat start) v
      in if len < 0 then take (nat (int (length rest) + len)) rest else take (nat len) rest)"

lemma apply_substring_denotes:
  assumes "is_ascii v" and "length v < 2 ^ 31"
  shows "apply_substring v off len = Some (substring_spec v (sint off) (sint len))"
proof -
  have lr: "sint (of_nat (length v) :: i32) = int (length v)"
    using assms(2) by (rule sint_of_nat_small)
  have slice: "str_slice v a b = Some (take (b - a) (drop a v))" if "a \<le> b" "b \<le> length v" for a b
    using assms(1) that by (simp add: str_slice_def is_char_boundary_ascii)
  show ?thesis
    unfolding apply_substring_def substring_spec_def Let_def lr
    by (auto simp: slice nat_add_distrib nat_diff_distrib max_def split: if_splits)
qed

definition env_none :: subst_env where
  "env_none = \<lparr>se_channel = None, se_headp = None, se_funcs = (\<lambda>_. None), se_eval = (\<lambda>_. None)\<rparr>"

lemma lookup_env_none: "lookup_variable env_none n = []"
  by (auto simp: lookup_variable_def env_none_def lookup_function_def split: option.splits)

subsection \<open>Properties\<close>

text \<open>(C29) Substitution evaluates templates: literal text with its dollar signs doubled and
  references to plainly named variables yield the text and the values of the variables, in order.\<close>

theorem substitute_template:
  assumes "\<forall>p \<in> set ps. piece_ok p"
  shows "substitute_variables_full env (concat (map piece_text ps)) = Some (concat (map (piece_value env) ps))"
  using loop_template [OF assms]
  by (simp add: substitute_variables_full_def substitute_recursive.simps MAX_SUBSTITUTE_DEPTH_def)

theorem substitute_template_witness:
  "substitute_variables_full (env_none\<lparr>se_headp := Some [(''V'', ''1$2'')]\<rparr>)
      (concat (map piece_text [Lit ''a$'', Var ''V'', Lit ''@x''])) =
     Some (concat (map (piece_value (env_none\<lparr>se_headp := Some [(''V'', ''1$2'')]\<rparr>)) [Lit ''a$'', Var ''V'', Lit ''@x'']))"
  by (rule substitute_template) (simp add: plain_name_def)

text \<open>Substitution never panics when every variable and function value it looks up is ASCII,
  whatever the input, its nesting and its substring specifications.\<close>

theorem substitute_ascii_total:
  assumes "\<forall>n. is_ascii (lookup_variable env n)"
  shows "\<exists>r. substitute_variables_full env input = Some r"
  using assms substitute_total by blast

theorem substitute_ascii_total_witness: "\<exists>r. substitute_variables_full env_none ''${A:1:$[2+${B:-3}]}'' = Some r"
  by (rule substitute_ascii_total) (simp add: lookup_env_none is_ascii_def)

text \<open>The substring operation has its documented meaning on ASCII values: a negative offset
  counts from the end, a negative length leaves that many characters off the end, and both are
  clipped to the value.\<close>

theorem apply_substring_correct:
  assumes "is_ascii v" and "length v < 2 ^ 31"
  shows "apply_substring v off len = Some (substring_spec v (sint off) (sint len))"
  by (rule apply_substring_denotes [OF assms])

theorem apply_substring_correct_witness:
  "apply_substring ''123456'' (- 4) (- 1) = Some (substring_spec ''123456'' (sint (- 4 :: i32)) (sint (- 1 :: i32)))"
  by (rule apply_substring_correct) (simp_all add: is_ascii_def)

text \<open>A substring of a value with a multi-byte character panics when it cuts the character:
  the first byte of a two-byte value cannot be taken.\<close>

theorem substring_splits_character:
  assumes "lookup_variable env ''X'' = [CHR 0xC3, CHR 0xA9]"
  shows "substitute_variables_full env ''${X:0:1}'' = None"
  using assms
  by (simp add: substitute_variables_full_def substitute_recursive.simps MAX_SUBSTITUTE_DEPTH_def
      needs_sub_def contains_sub_def starts_with_def subst_value_def parse_variable_name_with_substring_def
      parse_signed_def parse_digits_def digits_val_def digit_val_def is_digit_iff numeral_2_eq_2
      apply_substring_def str_slice_def is_char_boundary_def)

theorem substring_splits_character_witness:
  "substitute_variables_full (env_none\<lparr>se_headp := Some [(''X'', [CHR 0xC3, CHR 0xA9])]\<rparr>) ''${X:0:1}'' = None"
  by (rule substring_splits_character) (simp add: lookup_variable_def env_none_def)

end
