(* ===== verification/Pbx_Exec.thy ===== *)
theory Pbx_Exec
  imports Dialplan Substitute
begin

section \<open>The dialplan execution loop\<close>

text \<open>
  \<^verbatim>\<open>asterisk-core/src/pbx/exec.rs\<close> with the application registry
  (\<^verbatim>\<open>app_registry.rs\<close>). Applications are the registered functions from a channel and an
  argument to a result, the channel and the effects; dialplan functions and the expression
  evaluator are those of the substitution. The executor is modelled for a channel only its
  applications change. A panic of the substitution is \<^const>\<open>None\<close>; in the loop over the
  \<^verbatim>\<open>h\<close> extension, which has no iteration limit, a run that never ends is an outer
  \<^const>\<open>None\<close>.
\<close>

subsection \<open>The application registry\<close>

type_synonym app = "channel \<Rightarrow> string \<Rightarrow> pbx_result \<times> channel \<times> ch_effect list"

record app_registry =
  ar_apps :: "(string, app) hashmap"

definition app_registry_new :: app_registry where
  "app_registry_new = \<lparr>ar_apps = []\<rparr>"

definition register_app :: "string \<Rightarrow> app \<Rightarrow> app_registry \<Rightarrow> app_registry" where
  "register_app name f r = r\<lparr>ar_apps := hinsert name f (ar_apps r)\<rparr>"

definition unregister_app :: "string \<Rightarrow> app_registry \<Rightarrow> bool \<times> app_registry" where
  "unregister_app name r =
     (hget (ar_apps r) name \<noteq> None, r\<lparr>ar_apps := hremove name (ar_apps r)\<rparr>)"

definition find_app :: "app_registry \<Rightarrow> string \<Rightarrow> app option" where
  "find_app r name = hget (ar_apps r) name"

definition count_apps :: "app_registry \<Rightarrow> nat" where
  "count_apps r = length (ar_apps r)"

subsection \<open>One iteration\<close>

datatype pbx_run_result = PRR_Success | PRR_Failed | PRR_CallLimit

definition PBX_MAX_ITERATIONS :: nat where
  "PBX_MAX_ITERATIONS = 10000"

record pbx_env =
  pe_dialplan :: dialplan
  pe_apps :: app_registry
  pe_funcs :: "string \<Rightarrow> (channel \<Rightarrow> string \<Rightarrow> string option) option"
  pe_eval :: "string \<Rightarrow> string option"

text \<open>\<open>ps_steps\<close> records the location and the application of every priority executed.\<close>

type_synonym location = "string \<times> string \<times> i32"

record pbx_state =
  ps_chan :: channel
  ps_found :: bool
  ps_error :: bool
  ps_effects :: "ch_effect list"
  ps_steps :: "(location \<times> string) list"

datatype loop_exit = ContinueInner | BreakInner | BreakOuter

definition location_of :: "channel \<Rightarrow> location" where
  "location_of ch = (ch_context ch, ch_exten ch, ch_priority ch)"

definition newexten_event :: "channel \<Rightarrow> priority \<Rightarrow> ch_effect" where
  "newexten_event ch prio =
     Publish ''Newexten''
       [(''Channel'', ch_name ch), (''Context'', ch_context ch), (''Extension'', ch_exten ch),
        (''Priority'', show_int (sint (ch_priority ch))), (''Application'', prio_app prio),
        (''AppData'', prio_app_data prio), (''Uniqueid'', unique_id ch), (''Linkedid'', linkedid ch)]"

definition after_success :: "location \<Rightarrow> channel \<Rightarrow> loop_exit \<times> channel" where
  "after_success loc ch =
     (if check_hangup ch then
        (if softhangup_flags ch AND AST_SOFTHANGUP_ASYNCGOTO \<noteq> 0
         then (ContinueInner, clear_softhangup AST_SOFTHANGUP_ASYNCGOTO ch)
         else (BreakOuter, ch))
      else if location_of ch \<noteq> loc then (ContinueInner, ch)
      else (ContinueInner, ch\<lparr>ch_priority := ch_priority ch + 1\<rparr>))"

definition pbx_step :: "pbx_env \<Rightarrow> pbx_state \<Rightarrow> (loop_exit \<times> pbx_state) option" where
  "pbx_step env st =
     (let ch = ps_chan st; loc = location_of ch in
      case dp_find_extension (pe_dialplan env) (ch_context ch) (ch_exten ch) of
        None \<Rightarrow> Some (BreakInner, st)
      | Some (_, ext) \<Rightarrow>
          (case get_priority ext (ch_priority ch) of
             None \<Rightarrow> Some (BreakInner, st)
           | Some prio \<Rightarrow>
               (let st = st\<lparr>ps_found := True, ps_effects := ps_effects st @ [newexten_event ch prio],
                            ps_steps := ps_steps st @ [(loc, prio_app prio)]\<rparr>
                in case substitute_variables (pe_funcs env) (pe_eval env) ch (prio_app_data prio) of
                     None \<Rightarrow> None
                   | Some data \<Rightarrow>
                       (case find_app (pe_apps env) (prio_app prio) of
                          None \<Rightarrow> Some (BreakInner, st\<lparr>ps_error := True\<rparr>)
                        | Some f \<Rightarrow>
                            (case f ch data of
                               (res, ch', evs) \<Rightarrow>
                                 (let st = st\<lparr>ps_chan := ch', ps_effects := ps_effects st @ evs\<rparr>
                                  in case res of
                                       PR_Success \<Rightarrow>
                                         (case after_success loc ch' of (x, ch'') \<Rightarrow> Some (x, st\<lparr>ps_chan := ch''\<rparr>))
                                     | PR_Failed \<Rightarrow>
                                         (if ch_exten ch \<noteq> ''e''
                                             \<and> dp_find_extension (pe_dialplan env) (ch_context ch) ''e'' \<noteq> None
                                          then Some (ContinueInner,
                                                 st\<lparr>ps_chan := ch'\<lparr>ch_exten := ''e'', ch_priority := 1\<rparr>\<rparr>)
                                          else Some (BreakInner, st\<lparr>ps_error := True\<rparr>))
                                     | PR_Incomplete \<Rightarrow> Some (BreakInner, st)))))))"

text \<open>The special extensions after the inner loop; the flag says whether the outer loop continues.\<close>

definition pbx_special :: "pbx_env \<Rightarrow> pbx_state \<Rightarrow> bool \<times> pbx_state" where
  "pbx_special env st =
     (let ch = ps_chan st in
      if \<not> ps_found st \<and> \<not> ps_error st then
        (if dp_find_extension (pe_dialplan env) (ch_context ch) ''i'' \<noteq> None then
           (case set_variable ''INVALID_EXTEN'' (ch_exten ch) ch of
              (ch', evs) \<Rightarrow>
                (True, st\<lparr>ps_chan := ch'\<lparr>ch_exten := ''i'', ch_priority := 1\<rparr>, ps_found := False,
                          ps_effects := ps_effects st @ evs\<rparr>))
         else if dp_find_extension (pe_dialplan env) (ch_context ch) ''t'' \<noteq> None then
           (True, st\<lparr>ps_chan := ch\<lparr>ch_exten := ''t'', ch_priority := 1\<rparr>, ps_found := False\<rparr>)
         else (False, st))
      else (False, st))"

subsection \<open>The loops\<close>

text \<open>The counter is the number of iterations left before \<^const>\<open>PBX_MAX_ITERATIONS\<close> is
  exceeded.\<close>

fun pbx_loop :: "pbx_env \<Rightarrow> nat \<Rightarrow> pbx_state \<Rightarrow> pbx_state option" where
  "pbx_loop env 0 st = Some (st\<lparr>ps_error := True\<rparr>)"
| "pbx_loop env (Suc n) st =
     (case pbx_step env st of
        None \<Rightarrow> None
      | Some (ContinueInner, st') \<Rightarrow> pbx_loop env n st'
      | Some (BreakOuter, st') \<Rightarrow> Some st'
      | Some (BreakInner, st') \<Rightarrow>
          (case pbx_special env st' of
             (True, st'') \<Rightarrow> pbx_loop env n st''
           | (False, st'') \<Rightarrow> Some st''))"

definition hangup_step :: "pbx_env \<Rightarrow> channel \<times> ch_effect list \<Rightarrow> (channel \<times> ch_effect list) option option" where
  "hangup_step env s =
     (case s of (ch, evs) \<Rightarrow>
      case dp_find_extension (pe_dialplan env) (ch_context ch) ''h'' of
        None \<Rightarrow> None
      | Some (_, ext) \<Rightarrow>
          (case get_priority ext (ch_priority ch) of
             None \<Rightarrow> None
           | Some prio \<Rightarrow>
               Some (case substitute_variables (pe_funcs env) (pe_eval env) ch (prio_app_data prio) of
                       None \<Rightarrow> None
                     | Some data \<Rightarrow>
                         (case find_app (pe_apps env) (prio_app prio) of
                            None \<Rightarrow> Some (ch\<lparr>ch_priority := ch_priority ch + 1\<rparr>, evs)
                          | Some f \<Rightarrow>
                              (case f ch data of
                                 (_, ch', evs') \<Rightarrow>
                                   Some (ch'\<lparr>ch_priority := ch_priority ch' + 1\<rparr>, evs @ evs'))))))"

text \<open>One pass of the body either leaves the loop (\<^const>\<open>None\<close>), panics, or goes round.\<close>

partial_function (option) hangup_loop ::
  "pbx_env \<Rightarrow> channel \<times> ch_effect list \<Rightarrow> (channel \<times> ch_effect list) option option" where
  "hangup_loop env s =
     (case hangup_step env s of
        None \<Rightarrow> Some (Some s)
      | Some r \<Rightarrow> (case r of None \<Rightarrow> Some None | Some s' \<Rightarrow> hangup_loop env s'))"

definition run_hangup_extension ::
  "pbx_env \<Rightarrow> channel \<times> ch_effect list \<Rightarrow> (channel \<times> ch_effect list) option option" where
  "run_hangup_extension env s =
     (case s of (ch, evs) \<Rightarrow>
        if dp_find_extension (pe_dialplan env) (ch_context ch) ''h'' = None then Some (Some s)
        else hangup_loop env (ch\<lparr>ch_exten := ''h'', ch_priority := 1\<rparr>, evs))"

definition pbx_start :: "channel \<Rightarrow> pbx_state" where
  "pbx_start ch =
     \<lparr>ps_chan = (if ch_exten ch = [] then ch\<lparr>ch_exten := ''s'', ch_priority := 1\<rparr> else ch),
      ps_found = False, ps_error = False, ps_effects = [], ps_steps = []\<rparr>"

definition pbx_final_hangup :: "channel \<Rightarrow> channel \<times> ch_effect list" where
  "pbx_final_hangup ch =
     hangup (if ch_hangup_cause ch \<noteq> HC_NotDefined then ch_hangup_cause ch else HC_NormalClearing) ch"

definition pbx_run ::
  "pbx_env \<Rightarrow> channel \<Rightarrow> (pbx_run_result \<times> channel \<times> ch_effect list) option option" where
  "pbx_run env ch =
     (case pbx_loop env PBX_MAX_ITERATIONS (pbx_start ch) of
        None \<Rightarrow> Some None
      | Some st \<Rightarrow>
          (case run_hangup_extension env (ps_chan st, ps_effects st) of
             None \<Rightarrow> None
           | Some None \<Rightarrow> Some None
           | Some (Some (ch', evs)) \<Rightarrow>
               (case pbx_final_hangup ch' of
                  (ch'', evs') \<Rightarrow>
                    Some (Some (if ps_found st \<or> ps_error st then PRR_Success else PRR_Failed, ch'', evs @ evs')))))"

definition pbx_exec_application :: "pbx_env \<Rightarrow> string \<Rightarrow> string \<Rightarrow> channel \<Rightarrow> (pbx_result \<times> channel \<times> ch_effect list) option" where
  "pbx_exec_application env app_name app_args ch =
     (case substitute_variables (pe_funcs env) (pe_eval env) ch app_args of
        None \<Rightarrow> None
      | Some args \<Rightarrow>
          Some (case find_app (pe_apps env) app_name of
                  Some f \<Rightarrow> f ch args
                | None \<Rightarrow> (PR_Failed, ch, [])))"

subsection \<open>Facts about the loops\<close>

lemma pbx_step_steps: "pbx_step env st = Some (x, st') \<Longrightarrow> length (ps_steps st') \<le> Suc (length (ps_steps st))"
  by (auto simp: pbx_step_def Let_def
      split: option.splits prod.splits pbx_result.splits if_splits)

lemma pbx_special_steps: "pbx_special env st = (b, st') \<Longrightarrow> ps_steps st' = ps_steps st"
  by (auto simp: pbx_special_def Let_def split: if_splits prod.splits)

lemma pbx_loop_steps: "pbx_loop env n st = Some st' \<Longrightarrow> length (ps_steps st') \<le> length (ps_steps st) + n"
proof (induction n arbitrary: st)
  case (Suc n)
  then obtain x st1 where st1: "pbx_step env st = Some (x, st1)" by (auto split: option.splits)
  note len = pbx_step_steps [OF st1]
  show ?case
  proof (cases x)
    case ContinueInner
    with Suc st1 len show ?thesis by fastforce
  next
    case BreakOuter
    with Suc st1 len show ?thesis by simp
  next
    case BreakInner
    obtain b st2 where st2: "pbx_special env st1 = (b, st2)" by fastforce
    with pbx_special_steps [OF this] Suc st1 len BreakInner show ?thesis by (cases b) fastforce+
  qed
qed auto

lemma pbx_special_found: "ps_found st \<Longrightarrow> pbx_special env st = (False, st)"
  by (simp add: pbx_special_def Let_def)

text \<open>Substitution leaves text without dollar signs alone.\<close>

lemma substitute_plain: "CHR ''$'' \<notin> set s \<Longrightarrow> substitute_variables funcs evalx ch s = Some s"
proof -
  assume s: "CHR ''$'' \<notin> set s"
  then have "escape s = s" by (induction s) (auto simp: escape_def)
  with loop_escape [of _ 0 s "[]"] show ?thesis
    by (simp add: substitute_variables_def substitute_variables_full_def substitute_recursive.simps MAX_SUBSTITUTE_DEPTH_def)
qed

subsection \<open>Runs through one extension\<close>

text \<open>An application that succeeds and leaves the location and the hangup flags alone.\<close>

definition well_behaved :: "app \<Rightarrow> bool" where
  "well_behaved f \<longleftrightarrow> (\<forall>ch d. case f ch d of (r, ch', evs) \<Rightarrow>
     r = PR_Success \<and> location_of ch' = location_of ch \<and> softhangup_flags ch' = softhangup_flags ch)"

definition runnable :: "pbx_env \<Rightarrow> priority \<Rightarrow> bool" where
  "runnable env prio \<longleftrightarrow> CHR ''$'' \<notin> set (prio_app_data prio) \<and>
     (\<exists>f. find_app (pe_apps env) (prio_app prio) = Some f \<and> well_behaved f)"

lemma pbx_step_runnable:
  assumes "dp_find_extension (pe_dialplan env) (ch_context (ps_chan st)) (ch_exten (ps_chan st)) = Some (c, ext)"
    and "get_priority ext (ch_priority (ps_chan st)) = Some prio" and "runnable env prio"
    and "softhangup_flags (ps_chan st) = 0"
  shows "\<exists>st'. pbx_step env st = Some (ContinueInner, st') \<and> ps_found st' \<and> ps_error st' = ps_error st
    \<and> ps_steps st' = ps_steps st @ [(location_of (ps_chan st), prio_app prio)]
    \<and> location_of (ps_chan st') = (ch_context (ps_chan st), ch_exten (ps_chan st), ch_priority (ps_chan st) + 1)
    \<and> softhangup_flags (ps_chan st') = 0"
proof -
  from assms(3) obtain f where f: "find_app (pe_apps env) (prio_app prio) = Some f" "well_behaved f"
    "CHR ''$'' \<notin> set (prio_app_data prio)" by (auto simp: runnable_def)
  obtain r ch' evs where app: "f (ps_chan st) (prio_app_data prio) = (r, ch', evs)" by (metis prod_cases3)
  have "r = PR_Success" "location_of ch' = location_of (ps_chan st)" "softhangup_flags ch' = 0"
    using f(2) [unfolded well_behaved_def, rule_format, of "ps_chan st" "prio_app_data prio"] assms(4) app
    by simp_all
  with assms(1,2) f(1) substitute_plain [OF f(3)] app show ?thesis
    by (simp add: pbx_step_def Let_def after_success_def check_hangup_def location_of_def)
qed

lemma pbx_loop_linear:
  assumes "dp_find_extension (pe_dialplan env) ctx x = Some (c, ext)"
    and "\<And>i. i < n \<Longrightarrow> \<exists>prio. get_priority ext (p + of_nat i) = Some prio \<and> runnable env prio"
    and "get_priority ext (p + of_nat n) = None"
    and "location_of (ps_chan st) = (ctx, x, p)" and "softhangup_flags (ps_chan st) = 0"
    and "n < k" and "ps_found st \<or> 0 < n"
  shows "\<exists>st'. pbx_loop env k st = Some st' \<and> ps_found st' \<and> ps_error st' = ps_error st
    \<and> ps_steps st' = ps_steps st @
        map (\<lambda>i. ((ctx, x, p + of_nat i), prio_app (the (get_priority ext (p + of_nat i))))) [0..<n]"
  using assms(2-)
proof (induction n arbitrary: p st k)
  case 0
  then obtain m where k: "k = Suc m" by (cases k) auto
  have "pbx_step env st = Some (BreakInner, st)"
    using 0 assms(1) by (simp add: pbx_step_def Let_def location_of_def)
  with 0 k show ?case by (simp add: pbx_special_found)
next
  case (Suc n)
  then obtain m where k: "k = Suc m" "n < m" by (cases k) auto
  from Suc.prems(1) [of 0] obtain prio where prio: "get_priority ext p = Some prio" "runnable env prio" by auto
  with Suc.prems(3,4) assms(1) obtain st1 where st1: "pbx_step env st = Some (ContinueInner, st1)" "ps_found st1"
    "ps_error st1 = ps_error st" "ps_steps st1 = ps_steps st @ [((ctx, x, p), prio_app prio)]"
    "location_of (ps_chan st1) = (ctx, x, p + 1)" "softhangup_flags (ps_chan st1) = 0"
    using pbx_step_runnable [of env st c ext prio] by (auto simp: location_of_def)
  have "\<exists>st'. pbx_loop env m st1 = Some st' \<and> ps_found st' \<and> ps_error st' = ps_error st1
    \<and> ps_steps st' = ps_steps st1 @
        map (\<lambda>i. ((ctx, x, p + 1 + of_nat i), prio_app (the (get_priority ext (p + 1 + of_nat i))))) [0..<n]"
    using Suc.prems(1) [of "Suc _"] Suc.prems(2) st1(2,5,6) k(2)
    by (intro Suc.IH) (auto simp: add.assoc)
  then show ?case
    using st1 k prio by (auto simp: upt_conv_Cons map_Suc_upt [symmetric] add.assoc simp del: upt_Suc)
qed

subsection \<open>The hangup extension\<close>

definition stays_put :: "app \<Rightarrow> bool" where
  "stays_put f \<longleftrightarrow> (\<forall>ch d. case f ch d of (r, ch', evs) \<Rightarrow>
     ch_context ch' = ch_context ch \<and> ch_priority ch' = ch_priority ch)"

lemma hangup_step_stays:
  assumes "hangup_step env (ch, evs) = Some (Some (ch', evs'))"
    and "\<And>name f. find_app (pe_apps env) name = Some f \<Longrightarrow> stays_put f"
  shows "ch_context ch' = ch_context ch \<and> ch_priority ch' = ch_priority ch + 1"
proof -
  have put: "ch_context c = ch_context ch \<and> ch_priority c = ch_priority ch"
    if "find_app (pe_apps env) name = Some f" "f ch d = (r, c, es)" for name f d r c es
    using assms(2) [OF that(1), unfolded stays_put_def, rule_format, of ch d] that(2) by simp
  from assms(1) show ?thesis
    by (auto simp: hangup_step_def split: option.splits prod.splits dest!: put)
qed

lemma hangup_loop_ends:
  assumes "\<And>name f. find_app (pe_apps env) name = Some f \<Longrightarrow> stays_put f"
    and "dp_find_extension (pe_dialplan env) (ch_context ch) ''h'' = Some (c, ext)"
    and "get_priority ext (ch_priority ch + of_nat k) = None"
  shows "hangup_loop env (ch, evs) \<noteq> None"
  using assms(2,3)
proof (induction k arbitrary: ch evs)
  case 0
  then have "hangup_step env (ch, evs) = None" by (simp add: hangup_step_def)
  then show ?case by (subst hangup_loop.simps) simp
next
  case (Suc k)
  show ?case
  proof (cases "hangup_step env (ch, evs)")
    case None
    then show ?thesis by (subst hangup_loop.simps) simp
  next
    case (Some r)
    show ?thesis
    proof (cases r)
      case None
      with Some show ?thesis by (subst hangup_loop.simps) simp
    next
      case Some': (Some s')
      obtain ch' evs' where s': "s' = (ch', evs')" by fastforce
      have "ch_context ch' = ch_context ch \<and> ch_priority ch' = ch_priority ch + 1"
        using hangup_step_stays [of env ch evs ch' evs'] assms(1) Some Some' s' by blast
      with Suc.prems have "hangup_loop env (ch', evs') \<noteq> None"
        by (intro Suc.IH) (simp_all add: add.assoc)
      with Some Some' s' show ?thesis by (subst hangup_loop.simps) simp
    qed
  qed
qed

lemma missing_priority:
  assumes "length (ext_priorities ext) < 2 ^ 32"
  shows "\<exists>k. get_priority ext (p + of_nat k) = None"
proof -
  have "card (fst ` set (ext_priorities ext)) < card (UNIV :: i32 set)"
    using assms card_image_le [of "set (ext_priorities ext)" fst] card_length [of "ext_priorities ext"]
    by (simp add: card_word)
  then have "\<not> (UNIV :: i32 set) \<subseteq> fst ` set (ext_priorities ext)"
    by (metis List.finite_set card_mono finite_imageI linorder_not_le)
  then obtain q where "q \<notin> fst ` set (ext_priorities ext)" by blast
  then have "get_priority ext q = None" by (simp add: get_priority_def map_of_eq_None_iff)
  moreover have "q = p + of_nat (unat (q - p))" by simp
  ultimately show ?thesis by metis
qed

lemma final_hangup_down: "ch_state (fst (pbx_final_hangup ch)) = CS_Down"
  by (simp add: pbx_final_hangup_def)

lemma final_hangup_cause:
  "ch_state ch \<noteq> CS_Down \<Longrightarrow> ch_hangup_cause (fst (pbx_final_hangup ch)) =
     (if ch_hangup_cause ch \<noteq> HC_NotDefined then ch_hangup_cause ch else HC_NormalClearing)"
  by (simp add: pbx_final_hangup_def hangup_def set_state_def Let_def)

text \<open>A one-context dialplan for concrete runs.\<close>

definition noop_app :: app where
  "noop_app ch d = (PR_Success, ch, [])"

definition demo_ext :: "string \<Rightarrow> string list \<Rightarrow> extension" where
  "demo_ext x apps = fst (foldl (\<lambda>(e, i). \<lambda>a.
     (add_priority \<lparr>prio_priority = i, prio_app = a, prio_app_data = [], prio_label = None\<rparr> e, i + 1))
     (extension_new x, 1) apps)"

definition demo_env :: "(string \<times> app) list \<Rightarrow> extension list \<Rightarrow> pbx_env" where
  "demo_env apps exts =
     \<lparr>pe_dialplan = fold (dp_add_extension ''default'') exts dialplan_new, pe_apps = \<lparr>ar_apps = apps\<rparr>,
      pe_funcs = (\<lambda>_. None), pe_eval = (\<lambda>_. None)\<rparr>"

lemmas demo_eval = demo_env_def demo_ext_def dp_find_extension_def find_extension_recursive.simps
  dp_add_extension_def get_context_def dialplan_new_def context_new_def ctx_add_extension_def
  ctx_find_extension_def ctx_find_extension_with_cid_def matches_with_cid_def extension_new_def
  add_priority_def get_priority_def strip_prefix_def starts_with_def find_app_def

lemma well_behaved_noop: "well_behaved noop_app"
  by (simp add: well_behaved_def noop_app_def)

lemma stays_put_noop: "stays_put noop_app"
  by (simp add: stays_put_def noop_app_def)

subsection \<open>Properties\<close>



text \<open>Whatever the applications do, the main loop ends and executes at most ten thousand
  priorities.\<close>

theorem pbx_loop_bounded:
  assumes "pbx_loop env PBX_MAX_ITERATIONS (pbx_start ch) = Some st"
  shows "length (ps_steps st) \<le> 10000"
  using pbx_loop_steps [OF assms] by (simp add: pbx_start_def PBX_MAX_ITERATIONS_def)

theorem pbx_loop_bounded_witness:
  "length (ps_steps (the (pbx_loop (demo_env [] []) PBX_MAX_ITERATIONS (pbx_start (channel_new ''u'' ''n''))))) \<le> 10000"
proof -
  have max: "PBX_MAX_ITERATIONS = Suc 9999" by (simp add: PBX_MAX_ITERATIONS_def)
  have "pbx_loop (demo_env [] []) PBX_MAX_ITERATIONS (pbx_start (channel_new ''u'' ''n''))
      = Some (pbx_start (channel_new ''u'' ''n''))"
    unfolding max pbx_loop.simps by (simp add: pbx_step_def pbx_special_def Let_def demo_eval)
  with pbx_loop_bounded [OF this] show ?thesis by simp
qed



end
