(* ===== verification/Apps.thy ===== *)
theory Apps
  imports Pbx_Exec
begin

section \<open>Dialplan applications\<close>

text \<open>
  The applications the execution loop depends on most, from \<^verbatim>\<open>asterisk-apps/src\<close>:
  Answer, Hangup, Set and MSet, Goto and GotoIf, with the adapter that maps their results to those
  of the core. The delay Answer may wait has no effect on the channel and is left out.
\<close>

subsection \<open>Results\<close>

datatype pbx_exec_result = PER_Success | PER_Failed | PER_Hangup

fun map_result :: "pbx_exec_result \<Rightarrow> pbx_result" where
  "map_result PER_Success = PR_Success"
| "map_result PER_Failed = PR_Failed"
| "map_result PER_Hangup = PR_Failed"

type_synonym app_exec = "channel \<Rightarrow> string \<Rightarrow> pbx_exec_result \<times> channel \<times> ch_effect list"

definition adapt :: "app_exec \<Rightarrow> app" where
  "adapt f ch args = (case f ch args of (r, ch', evs) \<Rightarrow> (map_result r, ch', evs))"

subsection \<open>Answer and Hangup\<close>

definition app_answer :: app_exec where
  "app_answer ch args =
     (if ch_state ch \<noteq> CS_Up then (case answer ch of (ch', evs) \<Rightarrow> (PER_Success, ch', evs))
      else (PER_Success, ch, []))"

definition hangup_cause_from_code :: "u32 \<Rightarrow> hangup_cause" where
  "hangup_cause_from_code code =
     (if code = 0 then HC_NotDefined
      else if code = 1 then HC_UnallocatedNumber
      else if code = 2 then HC_NoRouteTransitNet
      else if code = 3 then HC_NoRouteDestination
      else if code = 6 then HC_ChannelUnacceptable
      else if code = 16 then HC_NormalClearing
      else if code = 17 then HC_UserBusy
      else if code = 18 then HC_NoUserResponse
      else if code = 19 then HC_NoAnswer
      else if code = 20 then HC_SubscriberAbsent
      else if code = 21 then HC_CallRejected
      else if code = 22 then HC_NumberChanged
      else if code = 27 then HC_DestinationOutOfOrder
      else if code = 28 then HC_InvalidNumberFormat
      else if code = 31 then HC_NormalUnspecified
      else if code = 34 then HC_NormalCircuitCongestion
      else if code = 38 then HC_NetworkOutOfOrder
      else if code = 41 then HC_NormalTemporaryFailure
      else if code = 42 then HC_SwitchCongestion
      else if code = 127 then HC_Interworking
      else HC_NormalClearing)"

definition app_hangup :: app_exec where
  "app_hangup ch args =
     (let cause = (if args = [] then HC_NormalClearing
                   else case parse_u32 (trim args) of
                          Some code \<Rightarrow> hangup_cause_from_code code
                        | None \<Rightarrow> HC_NormalClearing);
          ch = ch\<lparr>ch_hangup_cause := cause\<rparr>
      in case softhangup AST_SOFTHANGUP_EXPLICIT ch of (ch', evs) \<Rightarrow> (PER_Success, ch', evs))"

subsection \<open>Set and MSet\<close>

definition app_set :: app_exec where
  "app_set ch args =
     (if trim args = [] then (PER_Failed, ch, [])
      else case split_once CHR ''='' args of
             None \<Rightarrow> (PER_Failed, ch, [])
           | Some (n, v) \<Rightarrow>
               (case set_variable (trim n) (trim v) ch of (ch', evs) \<Rightarrow> (PER_Success, ch', evs)))"

fun mset_loop :: "string list \<Rightarrow> channel \<Rightarrow> channel \<times> ch_effect list" where
  "mset_loop [] ch = (ch, [])"
| "mset_loop (a # as) ch =
     (let a = trim a
      in if a = [] then mset_loop as ch
         else case split_once CHR ''='' a of
                None \<Rightarrow> mset_loop as ch
              | Some (n, v) \<Rightarrow>
                  (case set_variable (trim n) (trim v) ch of
                     (ch', evs) \<Rightarrow> (case mset_loop as ch' of (ch'', evs') \<Rightarrow> (ch'', evs @ evs'))))"

definition app_mset :: app_exec where
  "app_mset ch args =
     (if trim args = [] then (PER_Failed, ch, [])
      else case mset_loop (split_char CHR '','' args) ch of (ch', evs) \<Rightarrow> (PER_Success, ch', evs))"

subsection \<open>Goto and GotoIf\<close>

record goto_target =
  gt_context :: "string option"
  gt_extension :: "string option"
  gt_priority :: string

definition goto_target_parse :: "string \<Rightarrow> goto_target option" where
  "goto_target_parse args =
     (case map trim (split_char CHR '','' args) of
        [p] \<Rightarrow> Some \<lparr>gt_context = None, gt_extension = None, gt_priority = p\<rparr>
      | [e, p] \<Rightarrow> Some \<lparr>gt_context = None, gt_extension = Some e, gt_priority = p\<rparr>
      | [c, e, p] \<Rightarrow> Some \<lparr>gt_context = Some c, gt_extension = Some e, gt_priority = p\<rparr>
      | _ \<Rightarrow> None)"

text \<open>Moving the channel to a target, which Goto and GotoIf both spell out.\<close>

definition goto_location :: "goto_target \<Rightarrow> channel \<Rightarrow> channel" where
  "goto_location t ch =
     (let ch = (case gt_context t of Some c \<Rightarrow> ch\<lparr>ch_context := c\<rparr> | None \<Rightarrow> ch);
          ch = (case gt_extension t of Some e \<Rightarrow> ch\<lparr>ch_exten := e\<rparr> | None \<Rightarrow> ch);
          priority = (case parse_i32 (gt_priority t) of
                        Some p \<Rightarrow> p
                      | None \<Rightarrow> if eq_ignore_ascii_case (gt_priority t) ''n'' then ch_priority ch + 1 else 1)
      in ch\<lparr>ch_priority := priority\<rparr>)"

definition app_goto :: app_exec where
  "app_goto ch args =
     (case goto_target_parse args of
        None \<Rightarrow> (PER_Failed, ch, [])
      | Some t \<Rightarrow> (PER_Success, goto_location t ch, []))"

definition nonempty :: "string \<Rightarrow> string option" where
  "nonempty s = (if s = [] then None else Some s)"

definition app_gotoif :: app_exec where
  "app_gotoif ch args =
     (case split_once CHR ''?'' args of
        None \<Rightarrow> (PER_Failed, ch, [])
      | Some (c, branches) \<Rightarrow>
          (let condition = trim c;
               (true_label, false_label) =
                 (case split_once CHR '':'' branches of
                    Some (t, f) \<Rightarrow> (nonempty (trim t), nonempty (trim f))
                  | None \<Rightarrow> (nonempty (trim branches), None));
               is_true = (condition \<noteq> [] \<and> condition \<noteq> ''0'');
               target = (if is_true then true_label else false_label)
           in case target of
                None \<Rightarrow> (PER_Success, ch, [])
              | Some label \<Rightarrow>
                  (case goto_target_parse label of
                     Some t \<Rightarrow> (PER_Success, goto_location t ch, [])
                   | None \<Rightarrow> (PER_Failed, ch, []))))"

definition core_apps :: app_registry where
  "core_apps =
     fold (\<lambda>(n, f). register_app n (adapt f))
       [(''Answer'', app_answer), (''Hangup'', app_hangup), (''Set'', app_set), (''MSet'', app_mset),
        (''Goto'', app_goto), (''GotoIf'', app_gotoif)] app_registry_new"

subsection \<open>Facts about the applications\<close>

lemma parse_i32_show: "n \<le> 2147483647 \<Longrightarrow> parse_i32 (show_nat n) = Some (of_nat n)"
  by simp

lemma comma_not_digit: "CHR '','' \<notin> set (show_nat n)"
  by (simp add: show_nat_no_char is_digit_iff)

lemma goto_parse_priority:
  "goto_target_parse (show_nat n) = Some \<lparr>gt_context = None, gt_extension = None, gt_priority = show_nat n\<rparr>"
  by (simp add: goto_target_parse_def comma_not_digit)

lemma app_goto_priority:
  "n \<le> 2147483647 \<Longrightarrow> adapt app_goto ch (show_nat n) = (PR_Success, ch\<lparr>ch_priority := of_nat n\<rparr>, [])"
  by (simp add: adapt_def app_goto_def goto_parse_priority goto_location_def)

lemma app_goto_exten:
  assumes "CHR '','' \<notin> set x" and "trimmed x" and "n \<le> 2147483647"
  shows "adapt app_goto ch (x @ '','' @ show_nat n) = (PR_Success, ch\<lparr>ch_exten := x, ch_priority := of_nat n\<rparr>, [])"
  using assms
  by (simp add: adapt_def app_goto_def goto_target_parse_def split_char_append comma_not_digit goto_location_def)

lemma app_hangup_code:
  assumes "code < 2 ^ 32"
  shows "adapt app_hangup ch (show_nat code) =
    (PR_Success, ch\<lparr>ch_hangup_cause := hangup_cause_from_code (of_nat code),
        softhangup_flags := softhangup_flags ch OR AST_SOFTHANGUP_EXPLICIT,
        frame_queue := frame_queue ch @ [NullFrame]\<rparr>, [CancelLifetime (ch_name ch)])"
  using assms by (simp add: adapt_def app_hangup_def Let_def softhangup_def)

lemma dollar_not_digit: "CHR ''$'' \<notin> set (show_nat n)"
  by (simp add: show_nat_no_char is_digit_iff)

lemma app_set_assign:
  assumes "CHR ''='' \<notin> set n" and "trimmed n" and "trimmed v" and "n \<noteq> []"
  shows "adapt app_set ch (n @ ''='' @ v) =
    (PR_Success, fst (set_variable n v ch), snd (set_variable n v ch))"
proof -
  have "trim (n @ ''='' @ v) \<noteq> []"
    using assms(2,4) by (cases n) (auto simp: trimmed_def trim_def trim_start_def trim_end_def)
  with assms show ?thesis by (simp add: adapt_def app_set_def set_variable_def)
qed

text \<open>One pass of the loops over a priority whose application is known.\<close>

lemma pbx_step_app:
  assumes "dp_find_extension (pe_dialplan env) (ch_context (ps_chan st)) (ch_exten (ps_chan st)) = Some (c, ext)"
    and "get_priority ext (ch_priority (ps_chan st)) = Some prio"
    and "find_app (pe_apps env) (prio_app prio) = Some f" and "CHR ''$'' \<notin> set (prio_app_data prio)"
    and "f (ps_chan st) (prio_app_data prio) = (PR_Success, ch', evs)"
    and "after_success (location_of (ps_chan st)) ch' = (x, ch'')"
  shows "pbx_step env st = Some (x, st\<lparr>ps_chan := ch'', ps_found := True,
      ps_effects := ps_effects st @ newexten_event (ps_chan st) prio # evs,
      ps_steps := ps_steps st @ [(location_of (ps_chan st), prio_app prio)]\<rparr>)"
  using assms by (simp add: pbx_step_def Let_def substitute_plain)

lemma hangup_step_app:
  assumes "dp_find_extension (pe_dialplan env) (ch_context ch) ''h'' = Some (c, ext)"
    and "get_priority ext (ch_priority ch) = Some prio"
    and "find_app (pe_apps env) (prio_app prio) = Some f" and "CHR ''$'' \<notin> set (prio_app_data prio)"
    and "f ch (prio_app_data prio) = (r, ch', es)"
  shows "hangup_step env (ch, evs) = Some (Some (ch'\<lparr>ch_priority := ch_priority ch' + 1\<rparr>, evs @ es))"
  using assms by (simp add: hangup_step_def substitute_plain)

lemma hangup_loop_diverges:
  assumes inv: "\<And>s. P s \<Longrightarrow> \<exists>s'. hangup_step env s = Some (Some s') \<and> P s'" and "P s"
  shows "hangup_loop env s = None"
proof (rule ccontr)
  assume "hangup_loop env s \<noteq> None"
  then obtain y where "hangup_loop env s = Some y" by blast
  then have "\<not> P s"
  proof (rule hangup_loop.raw_induct [of "\<lambda>e s y. e = env \<longrightarrow> \<not> P s", rule_format, OF _ _ refl, rotated])
    fix f e s y
    assume IH: "\<And>e s y. f e s = Some y \<Longrightarrow> e = env \<Longrightarrow> \<not> P s"
      and body: "(case hangup_step e s of None \<Rightarrow> Some (Some s)
        | Some r \<Rightarrow> (case r of None \<Rightarrow> Some None | Some s' \<Rightarrow> f e s')) = Some y" and "e = env"
    show "\<not> P s"
    proof
      assume "P s"
      from inv [OF this] obtain s' where "hangup_step env s = Some (Some s')" "P s'" by blast
      with body \<open>e = env\<close> IH show False by simp
    qed
  qed
  with \<open>P s\<close> show False by blast
qed

subsection \<open>Properties\<close>



text \<open>An assignment is visible to the substitution: after \<^verbatim>\<open>Set(n=v)\<close> a reference to n
  yields v, for every name that is not one of the built-in ones.\<close>

theorem set_then_substitute:
  assumes "CHR ''='' \<notin> set n" and "trimmed n" and "trimmed v" and "n \<noteq> []" and "plain_name n"
    and "builtin_variable ch n = None"
  shows "\<exists>ch' evs. adapt app_set ch (n @ ''='' @ v) = (PR_Success, ch', evs)
    \<and> substitute_variables funcs evalx ch' (''${'' @ n @ ''}'') = Some v"
proof -
  let ?ch = "fst (set_variable n v ch)"
  have "builtin_variable ?ch n = None" "hget (ch_variables ?ch) n = Some v"
    using assms(6) by (auto simp: set_variable_def builtin_variable_def Let_def split: if_splits)
  then have "lookup_variable \<lparr>se_channel = Some ?ch, se_headp = None, se_funcs = funcs, se_eval = evalx\<rparr> n = v"
    by (simp add: lookup_variable_def)
  with loop_template [of "[Var n]"] assms(5)
  have "substitute_variables funcs evalx ?ch (''${'' @ n @ ''}'') = Some v"
    by (simp add: substitute_variables_def substitute_variables_full_def substitute_recursive.simps MAX_SUBSTITUTE_DEPTH_def)
  with app_set_assign [OF assms(1-4)] show ?thesis by blast
qed

theorem set_then_substitute_witness:
  "\<exists>ch' evs. adapt app_set (channel_new ''u'' ''n'') (''FOO'' @ ''='' @ ''b$r'') = (PR_Success, ch', evs)
    \<and> substitute_variables (\<lambda>_. None) (\<lambda>_. None) ch' (''${'' @ ''FOO'' @ ''}'') = Some ''b$r''"
  by (rule set_then_substitute) (simp_all add: trimmed_def is_ws_def plain_name_def builtin_variable_def)

text \<open>A jump to the step that performs it is not taken: the executor recognises a jump by the
  location having changed, so \<^verbatim>\<open>Goto\<close> to its own priority falls through to the next one.\<close>

theorem goto_self_falls_through:
  assumes "dp_find_extension (pe_dialplan env) (ch_context (ps_chan st)) (ch_exten (ps_chan st)) = Some (c, ext)"
    and "ch_priority (ps_chan st) = of_nat n" and "n \<le> 2147483647"
    and "get_priority ext (of_nat n) = Some prio" and "prio_app prio = ''Goto''" and "prio_app_data prio = show_nat n"
    and "find_app (pe_apps env) ''Goto'' = Some (adapt app_goto)" and "softhangup_flags (ps_chan st) = 0"
  shows "\<exists>st'. pbx_step env st = Some (ContinueInner, st')
    \<and> location_of (ps_chan st') = (ch_context (ps_chan st), ch_exten (ps_chan st), of_nat n + 1)"
proof -
  let ?ch = "(ps_chan st)\<lparr>ch_priority := of_nat n\<rparr>"
  have "after_success (location_of (ps_chan st)) ?ch = (ContinueInner, ?ch\<lparr>ch_priority := of_nat n + 1\<rparr>)"
    using assms(2,8) by (simp add: after_success_def check_hangup_def location_of_def)
  with pbx_step_app [of env st c ext prio "adapt app_goto"] assms dollar_not_digit show ?thesis
    by (simp add: app_goto_priority location_of_def)
qed

theorem goto_self_falls_through_witness:
  "\<exists>st'. pbx_step (demo_env [(''Goto'', adapt app_goto)]
       [add_priority \<lparr>prio_priority = 1, prio_app = ''Goto'', prio_app_data = show_nat 1, prio_label = None\<rparr> (extension_new ''s'')])
       (pbx_start (channel_new ''u'' ''n'')) = Some (ContinueInner, st')
    \<and> location_of (ps_chan st') = (ch_context (ps_chan (pbx_start (channel_new ''u'' ''n''))),
        ch_exten (ps_chan (pbx_start (channel_new ''u'' ''n''))), of_nat 1 + 1)"
  by (rule goto_self_falls_through [where prio = "\<lparr>prio_priority = 1, prio_app = ''Goto'', prio_app_data = show_nat 1, prio_label = None\<rparr>"
      and ext = "add_priority \<lparr>prio_priority = 1, prio_app = ''Goto'', prio_app_data = show_nat 1, prio_label = None\<rparr> (extension_new ''s'')"])
    (simp_all add: demo_eval channel_new_def pbx_start_def)

text \<open>The loop over the hangup extension adds one to the priority even after a jump and has no
  iteration limit: a step of \<^verbatim>\<open>h\<close> that jumps to the priority before it runs forever.\<close>

theorem hangup_extension_goto_diverges:
  assumes "dp_find_extension (pe_dialplan env) (ch_context ch) ''h'' = Some (c, ext)"
    and "ch_priority ch = of_nat (Suc n)" and "n \<le> 2147483647"
    and "get_priority ext (of_nat (Suc n)) = Some prio" and "prio_app prio = ''Goto''"
    and "prio_app_data prio = show_nat n" and "find_app (pe_apps env) ''Goto'' = Some (adapt app_goto)"
  shows "hangup_loop env (ch, evs) = None"
proof (rule hangup_loop_diverges [where P = "\<lambda>(c, es). ch_context c = ch_context ch \<and> ch_priority c = of_nat (Suc n)"])
  fix s :: "channel \<times> ch_effect list"
  assume s: "case s of (c, es) \<Rightarrow> ch_context c = ch_context ch \<and> ch_priority c = of_nat (Suc n)"
  obtain d es where "s = (d, es)" by fastforce
  with s assms dollar_not_digit
  show "\<exists>s'. hangup_step env s = Some (Some s') \<and>
      (case s' of (c, es) \<Rightarrow> ch_context c = ch_context ch \<and> ch_priority c = of_nat (Suc n))"
    using hangup_step_app [of env d c ext prio "adapt app_goto" "PR_Success" "d\<lparr>ch_priority := of_nat n\<rparr>" "[]" es]
    by (simp add: app_goto_priority add.commute)
qed (use assms(2) in simp)

theorem hangup_extension_goto_diverges_witness:
  "hangup_loop (demo_env [(''Goto'', adapt app_goto)]
     [add_priority \<lparr>prio_priority = 2, prio_app = ''Goto'', prio_app_data = show_nat 1, prio_label = None\<rparr> (extension_new ''h'')])
     ((channel_new ''u'' ''n'')\<lparr>ch_priority := 2\<rparr>, []) = None"
proof -
  let ?prio = "\<lparr>prio_priority = 2, prio_app = ''Goto'', prio_app_data = show_nat 1, prio_label = None\<rparr>"
  show ?thesis
    by (rule hangup_extension_goto_diverges [where n = 1 and prio = ?prio and ext = "add_priority ?prio (extension_new ''h'')"
          and c = "ctx_add_extension (add_priority ?prio (extension_new ''h'')) (context_new ''default'')"])
      (simp_all add: demo_eval channel_new_def)
qed

text \<open>Reading back the code of a hangup cause gives the cause, except for the five causes the
  conversion leaves out, which become normal clearing.\<close>

theorem hangup_cause_code_roundtrip:
  "hangup_cause_from_code (hangup_cause_code c) =
     (if c \<in> {HC_BearerCapNotAvail, HC_BearerCapNotImplemented, HC_FacilityNotImplemented, HC_Failure, HC_NoSuchDriver}
      then HC_NormalClearing else c)"
  by (cases c) (simp_all add: hangup_cause_from_code_def)

text \<open>The invalid-extension handler is not reached after the first step: once a priority has
  been executed, a jump to an extension that does not exist ends the loop at that extension, without
  an error, whether or not the context has an \<^verbatim>\<open>i\<close> extension.\<close>

theorem invalid_target_skips_handler:
  assumes "dp_find_extension (pe_dialplan env) (ch_context ch) (ch_exten ch) = Some (c, ext)"
    and "get_priority ext (ch_priority ch) = Some prio" and "prio_app prio = ''Goto''"
    and "prio_app_data prio = x @ '','' @ show_nat 1" and "CHR '','' \<notin> set x" and "CHR ''$'' \<notin> set x" and "trimmed x"
    and "dp_find_extension (pe_dialplan env) (ch_context ch) x = None"
    and "find_app (pe_apps env) ''Goto'' = Some (adapt app_goto)" and "ch_exten ch \<noteq> []" and "softhangup_flags ch = 0"
  shows "\<exists>st. pbx_loop env PBX_MAX_ITERATIONS (pbx_start ch) = Some st \<and> ch_exten (ps_chan st) = x
    \<and> \<not> ps_error st \<and> ps_steps st = [(location_of ch, ''Goto'')]"
proof -
  have max: "PBX_MAX_ITERATIONS = Suc (Suc 9998)" by (simp add: PBX_MAX_ITERATIONS_def)
  let ?ch = "ch\<lparr>ch_exten := x, ch_priority := 1\<rparr>"
  have "x \<noteq> ch_exten ch" using assms(1,8) by auto
  then have "after_success (location_of ch) ?ch = (ContinueInner, ?ch)"
    using assms(11) by (simp add: after_success_def check_hangup_def location_of_def)
  moreover have "adapt app_goto ch (x @ '','' @ show_nat 1) = (PR_Success, ?ch, [])"
    using app_goto_exten [OF assms(5,7), of 1 ch] by simp
  ultimately obtain st where "pbx_step env (pbx_start ch) = Some (ContinueInner, st)" "ps_chan st = ?ch" "ps_found st"
    "\<not> ps_error st" "ps_steps st = [(location_of ch, ''Goto'')]"
    using pbx_step_app [of env "pbx_start ch" c ext prio "adapt app_goto" ?ch "[]"] assms dollar_not_digit
    by (simp add: pbx_start_def)
  moreover from this have "pbx_step env st = Some (BreakInner, st)"
    using assms(8) by (simp add: pbx_step_def Let_def)
  ultimately show ?thesis
    unfolding max pbx_loop.simps by (simp add: pbx_special_found)
qed

theorem invalid_target_skips_handler_witness:
  "\<exists>st. pbx_loop (demo_env [(''Goto'', adapt app_goto)]
       [add_priority \<lparr>prio_priority = 1, prio_app = ''Goto'', prio_app_data = ''77'' @ '','' @ show_nat 1, prio_label = None\<rparr> (extension_new ''s''),
        demo_ext ''i'' [''Goto'']]) PBX_MAX_ITERATIONS (pbx_start (channel_new ''u'' ''n'')) = Some st
    \<and> ch_exten (ps_chan st) = ''77'' \<and> \<not> ps_error st
    \<and> ps_steps st = [(location_of (channel_new ''u'' ''n''), ''Goto'')]"
  by (rule invalid_target_skips_handler [where prio = "\<lparr>prio_priority = 1, prio_app = ''Goto'',
        prio_app_data = ''77'' @ '','' @ show_nat 1, prio_label = None\<rparr>" and
        ext = "add_priority \<lparr>prio_priority = 1, prio_app = ''Goto'',
          prio_app_data = ''77'' @ '','' @ show_nat 1, prio_label = None\<rparr> (extension_new ''s'')"])
    (simp_all add: demo_eval channel_new_def trimmed_def is_ws_def)

text \<open>A run that fails because an application does not exist is reported as a success.\<close>

theorem missing_application_reported_success:
  assumes "dp_find_extension (pe_dialplan env) (ch_context ch) (ch_exten ch) = Some (c, ext)"
    and "get_priority ext (ch_priority ch) = Some prio" and "find_app (pe_apps env) (prio_app prio) = None"
    and "CHR ''$'' \<notin> set (prio_app_data prio)" and "ch_exten ch \<noteq> []"
    and "dp_find_extension (pe_dialplan env) (ch_context ch) ''h'' = None"
  shows "\<exists>ch' evs. pbx_run env ch = Some (Some (PRR_Success, ch', evs))"
proof -
  have max: "PBX_MAX_ITERATIONS = Suc 9999" by (simp add: PBX_MAX_ITERATIONS_def)
  obtain st where "pbx_step env (pbx_start ch) = Some (BreakInner, st)" "ps_found st" "ps_error st" "ps_chan st = ch"
    using assms by (simp add: pbx_step_def Let_def pbx_start_def substitute_plain)
  then show ?thesis
    using assms(6) unfolding pbx_run_def max pbx_loop.simps
    by (simp add: pbx_special_found run_hangup_extension_def split: prod.split)
qed

theorem missing_application_reported_success_witness:
  "\<exists>ch' evs. pbx_run (demo_env [] [demo_ext ''s'' [''NoSuchApp'']]) (channel_new ''u'' ''n'') = Some (Some (PRR_Success, ch', evs))"
  by (rule missing_application_reported_success [where ext = "demo_ext ''s'' [''NoSuchApp'']" and
        prio = "\<lparr>prio_priority = 1, prio_app = ''NoSuchApp'', prio_app_data = [], prio_label = None\<rparr>"])
    (simp_all add: demo_eval channel_new_def)

end
