(* ===== verification/Sip_Parser.thy ===== *)
theory Sip_Parser
  imports Ast_Types
begin

section \<open>SIP messages\<close>

text \<open>
  The SIP message parser and printer of \<^verbatim>\<open>asterisk-sip/src/parser/mod.rs\<close>. A parse result
  is a sum of the error text and the value. The source address of a packet is its printed IP
  address with the port. Parameter and header tables of a URI are hash maps; printing lists them in
  the order of the association list, which stands for the iteration order of the map.
\<close>

subsection \<open>Methods\<close>

datatype sip_method =
    Invite | Ack | Bye | Cancel | Register | Options | Subscribe | Notify | Refer | Info | Update
  | Message | Prack | Publish_method

primrec method_as_str :: "sip_method \<Rightarrow> string" where
  "method_as_str Invite = ''INVITE''"
| "method_as_str Ack = ''ACK''"
| "method_as_str Bye = ''BYE''"
| "method_as_str Cancel = ''CANCEL''"
| "method_as_str Register = ''REGISTER''"
| "method_as_str Options = ''OPTIONS''"
| "method_as_str Subscribe = ''SUBSCRIBE''"
| "method_as_str Notify = ''NOTIFY''"
| "method_as_str Refer = ''REFER''"
| "method_as_str Info = ''INFO''"
| "method_as_str Update = ''UPDATE''"
| "method_as_str Message = ''MESSAGE''"
| "method_as_str Prack = ''PRACK''"
| "method_as_str Publish_method = ''PUBLISH''"

definition method_from_name :: "string \<Rightarrow> sip_method option" where
  "method_from_name s =
     (if eq_ignore_ascii_case s ''INVITE'' then Some Invite
      else if eq_ignore_ascii_case s ''ACK'' then Some Ack
      else if eq_ignore_ascii_case s ''BYE'' then Some Bye
      else if eq_ignore_ascii_case s ''CANCEL'' then Some Cancel
      else if eq_ignore_ascii_case s ''REGISTER'' then Some Register
      else if eq_ignore_ascii_case s ''OPTIONS'' then Some Options
      else if eq_ignore_ascii_case s ''SUBSCRIBE'' then Some Subscribe
      else if eq_ignore_ascii_case s ''NOTIFY'' then Some Notify
      else if eq_ignore_ascii_case s ''REFER'' then Some Refer
      else if eq_ignore_ascii_case s ''INFO'' then Some Info
      else if eq_ignore_ascii_case s ''UPDATE'' then Some Update
      else if eq_ignore_ascii_case s ''MESSAGE'' then Some Message
      else if eq_ignore_ascii_case s ''PRACK'' then Some Prack
      else if eq_ignore_ascii_case s ''PUBLISH'' then Some Publish_method
      else None)"

subsection \<open>URIs\<close>

type_synonym 'a parse_result = "string + 'a"

record sip_uri =
  uri_scheme :: string
  uri_user :: "string option"
  uri_password :: "string option"
  uri_host :: string
  uri_port :: "u16 option"
  uri_parameters :: "(string, string option) hashmap"
  uri_headers :: "(string, string) hashmap"

definition bind_res :: "'a parse_result \<Rightarrow> ('a \<Rightarrow> 'b parse_result) \<Rightarrow> 'b parse_result" where
  "bind_res r f = (case r of Inl e \<Rightarrow> Inl e | Inr x \<Rightarrow> f x)"

definition parse_host_port :: "string \<Rightarrow> (string \<times> u16 option) parse_result" where
  "parse_host_port s =
     (case (if starts_with ''['' s then find_char CHR '']'' s else None) of
        Some end_bracket \<Rightarrow>
          (let host = take (end_bracket - 1) (drop 1 s);
               rest = drop (end_bracket + 1) s
           in case strip_prefix '':'' rest of
                Some port_str \<Rightarrow>
                  (case parse_u16 port_str of
                     Some port \<Rightarrow> Inr (host, Some port)
                   | None \<Rightarrow> Inl (''Invalid port: '' @ port_str))
              | None \<Rightarrow> Inr (host, None))
      | None \<Rightarrow>
          (case rsplit_once CHR '':'' s of
             Some (host, port_str) \<Rightarrow>
               (case parse_u16 port_str of
                  Some port \<Rightarrow> Inr (host, Some port)
                | None \<Rightarrow> Inr (s, None))
           | None \<Rightarrow> Inr (s, None)))"

definition parse_scheme :: "string \<Rightarrow> string parse_result" where
  "parse_scheme s =
     (if eq_ignore_ascii_case s ''sip'' then Inr ''sip''
      else if eq_ignore_ascii_case s ''sips'' then Inr ''sips''
      else if eq_ignore_ascii_case s ''tel'' then Inr ''tel''
      else Inl (''Unknown URI scheme: '' @ s))"

definition split_opt :: "char \<Rightarrow> string \<Rightarrow> string \<times> string option" where
  "split_opt d s = (case split_once d s of Some (a, b) \<Rightarrow> (a, Some b) | None \<Rightarrow> (s, None))"

definition parse_userinfo :: "string \<Rightarrow> (string option \<times> string option \<times> string \<times> u16 option) parse_result" where
  "parse_userinfo s =
     (case split_once CHR ''@'' s of
        Some (userinfo, hostport) \<Rightarrow>
          (let (user, password) =
             (case split_once CHR '':'' userinfo of
                Some (u, p) \<Rightarrow> (Some u, Some p)
              | None \<Rightarrow> (Some userinfo, None))
           in bind_res (parse_host_port hostport) (\<lambda>(host, port). Inr (user, password, host, port)))
      | None \<Rightarrow> bind_res (parse_host_port s) (\<lambda>(host, port). Inr (None, None, host, port)))"

definition insert_param :: "string \<Rightarrow> (string, string option) hashmap \<Rightarrow> (string, string option) hashmap" where
  "insert_param param m =
     (if param = [] then m
      else case split_once CHR ''='' param of
             Some (k, v) \<Rightarrow> hinsert (to_ascii_lowercase k) (Some v) m
           | None \<Rightarrow> hinsert (to_ascii_lowercase param) None m)"

definition insert_uri_header :: "string \<Rightarrow> (string, string) hashmap \<Rightarrow> (string, string) hashmap" where
  "insert_uri_header hdr m =
     (case split_once CHR ''='' hdr of Some (k, v) \<Rightarrow> hinsert k v m | None \<Rightarrow> m)"

definition uri_parse :: "string \<Rightarrow> sip_uri parse_result" where
  "uri_parse input0 =
     (let input = trim input0 in
      case split_once CHR '':'' input of
        None \<Rightarrow> Inl ''Missing scheme in URI''
      | Some (scheme_raw, rest) \<Rightarrow>
          bind_res (parse_scheme scheme_raw) (\<lambda>scheme.
            let (before_headers, headers_str) = split_opt CHR ''?'' rest;
                (before_params, params_str) = split_opt CHR '';'' before_headers
            in bind_res (parse_userinfo before_params) (\<lambda>(user, password, host, port).
                 Inr \<lparr>uri_scheme = scheme, uri_user = user, uri_password = password,
                      uri_host = host, uri_port = port,
                      uri_parameters = (case params_str of
                          Some ps \<Rightarrow> fold insert_param (split_char CHR '';'' ps) []
                        | None \<Rightarrow> []),
                      uri_headers = (case headers_str of
                          Some hs \<Rightarrow> fold insert_uri_header (split_char CHR ''&'' hs) []
                        | None \<Rightarrow> [])\<rparr>)))"

definition get_param :: "sip_uri \<Rightarrow> string \<Rightarrow> string option" where
  "get_param u name =
     (case hget (uri_parameters u) (to_ascii_lowercase name) of Some v \<Rightarrow> v | None \<Rightarrow> None)"

definition uri_transport :: "sip_uri \<Rightarrow> string option" where
  "uri_transport u = get_param u ''transport''"

definition is_ipv6_host :: "sip_uri \<Rightarrow> bool" where
  "is_ipv6_host u \<longleftrightarrow> CHR '':'' \<in> set (uri_host u)"

definition host_display :: "sip_uri \<Rightarrow> string" where
  "host_display u = (if is_ipv6_host u then ''['' @ uri_host u @ '']'' else uri_host u)"

definition show_param :: "string \<times> string option \<Rightarrow> string" where
  "show_param kv =
     (case kv of (k, Some v) \<Rightarrow> '';'' @ k @ ''='' @ v | (k, None) \<Rightarrow> '';'' @ k)"

fun show_uri_headers :: "bool \<Rightarrow> (string \<times> string) list \<Rightarrow> string" where
  "show_uri_headers first [] = []"
| "show_uri_headers first ((k, v) # hs) =
     (if first then ''?'' else ''&'') @ k @ ''='' @ v @ show_uri_headers False hs"

definition show_userinfo :: "sip_uri \<Rightarrow> string" where
  "show_userinfo u =
     (case uri_user u of
        Some user \<Rightarrow>
          user @ (case uri_password u of Some pass \<Rightarrow> '':'' @ pass | None \<Rightarrow> []) @ ''@''
      | None \<Rightarrow> [])"

definition show_port :: "u16 option \<Rightarrow> string" where
  "show_port p = (case p of Some port \<Rightarrow> '':'' @ show_nat (unat port) | None \<Rightarrow> [])"

definition uri_display :: "sip_uri \<Rightarrow> string" where
  "uri_display u =
     uri_scheme u @ '':'' @ show_userinfo u @ host_display u @ show_port (uri_port u)
     @ concat (map show_param (uri_parameters u)) @ show_uri_headers True (uri_headers u)"

subsection \<open>Messages\<close>

record request_line =
  rl_method :: sip_method
  rl_uri :: sip_uri
  rl_version :: string

record status_line =
  sl_version :: string
  sl_status_code :: u16
  sl_reason_phrase :: string

datatype start_line = Request request_line | Response status_line

record sip_header =
  hdr_name :: string
  hdr_value :: string

record sip_message =
  msg_start_line :: start_line
  msg_headers :: "sip_header list"
  msg_body :: string

definition expand_compact_header :: "string \<Rightarrow> string" where
  "expand_compact_header name =
     (case name of
        [c] \<Rightarrow>
          (let l = lower_char c
           in if l = CHR ''i'' then ''Call-ID''
              else if l = CHR ''m'' then ''Contact''
              else if l = CHR ''e'' then ''Content-Encoding''
              else if l = CHR ''l'' then ''Content-Length''
              else if l = CHR ''c'' then ''Content-Type''
              else if l = CHR ''f'' then ''From''
              else if l = CHR ''s'' then ''Subject''
              else if l = CHR ''k'' then ''Supported''
              else if l = CHR ''t'' then ''To''
              else if l = CHR ''v'' then ''Via''
              else name)
      | _ \<Rightarrow> name)"

definition get_header :: "sip_message \<Rightarrow> string \<Rightarrow> string option" where
  "get_header m name =
     map_option hdr_value (find (\<lambda>h. eq_ignore_ascii_case (hdr_name h) name) (msg_headers m))"

definition get_headers :: "sip_message \<Rightarrow> string \<Rightarrow> string list" where
  "get_headers m name =
     map hdr_value (filter (\<lambda>h. eq_ignore_ascii_case (hdr_name h) name) (msg_headers m))"

definition call_id :: "sip_message \<Rightarrow> string option" where "call_id m = get_header m ''Call-ID''"
definition cseq :: "sip_message \<Rightarrow> string option" where "cseq m = get_header m ''CSeq''"
definition from_header :: "sip_message \<Rightarrow> string option" where "from_header m = get_header m ''From''"
definition to_header :: "sip_message \<Rightarrow> string option" where "to_header m = get_header m ''To''"

definition is_request :: "sip_message \<Rightarrow> bool" where
  "is_request m \<longleftrightarrow> (case msg_start_line m of Request _ \<Rightarrow> True | Response _ \<Rightarrow> False)"

definition is_response :: "sip_message \<Rightarrow> bool" where
  "is_response m \<longleftrightarrow> (case msg_start_line m of Response _ \<Rightarrow> True | Request _ \<Rightarrow> False)"

definition msg_method :: "sip_message \<Rightarrow> sip_method option" where
  "msg_method m = (case msg_start_line m of Request r \<Rightarrow> Some (rl_method r) | Response _ \<Rightarrow> None)"

definition status_code :: "sip_message \<Rightarrow> u16 option" where
  "status_code m = (case msg_start_line m of Response r \<Rightarrow> Some (sl_status_code r) | Request _ \<Rightarrow> None)"

definition new_request :: "sip_method \<Rightarrow> string \<Rightarrow> sip_message" where
  "new_request meth uri =
     (let parsed_uri =
        (case uri_parse uri of
           Inr u \<Rightarrow> u
         | Inl _ \<Rightarrow> \<lparr>uri_scheme = ''sip'', uri_user = None, uri_password = None, uri_host = uri,
                    uri_port = None, uri_parameters = [], uri_headers = []\<rparr>)
      in \<lparr>msg_start_line = Request \<lparr>rl_method = meth, rl_uri = parsed_uri, rl_version = ''SIP/2.0''\<rparr>,
          msg_headers = [], msg_body = []\<rparr>)"

definition new_response :: "u16 \<Rightarrow> string \<Rightarrow> sip_message" where
  "new_response code reason =
     \<lparr>msg_start_line = Response \<lparr>sl_version = ''SIP/2.0'', sl_status_code = code, sl_reason_phrase = reason\<rparr>,
      msg_headers = [], msg_body = []\<rparr>"

definition add_header :: "string \<Rightarrow> string \<Rightarrow> sip_message \<Rightarrow> sip_message" where
  "add_header name value m = m\<lparr>msg_headers := msg_headers m @ [\<lparr>hdr_name = name, hdr_value = value\<rparr>]\<rparr>"

definition create_response :: "sip_message \<Rightarrow> u16 \<Rightarrow> string \<Rightarrow> sip_message parse_result" where
  "create_response m code reason =
     (if \<not> is_request m then Inl ''Cannot create response to a response''
      else Inr \<lparr>msg_start_line =
                  Response \<lparr>sl_version = ''SIP/2.0'', sl_status_code = code, sl_reason_phrase = reason\<rparr>,
                msg_headers =
                  concat (map (\<lambda>n. map (\<lambda>v. \<lparr>hdr_name = n, hdr_value = v\<rparr>) (get_headers m n))
                    [''Via'', ''From'', ''To'', ''Call-ID'', ''CSeq''])
                  @ [\<lparr>hdr_name = ''Content-Length'', hdr_value = ''0''\<rparr>],
                msg_body = []\<rparr>)"

subsection \<open>Stamping the top Via\<close>

fun update_first :: "('a \<Rightarrow> bool) \<Rightarrow> ('a \<Rightarrow> 'a) \<Rightarrow> 'a list \<Rightarrow> 'a list" where
  "update_first p f [] = []"
| "update_first p f (x # xs) = (if p x then f x # xs else x # update_first p f xs)"

definition via_param :: "string \<Rightarrow> (string \<times> string option) list" where
  "via_param p0 =
     (let p = trim p0
      in if p = [] then []
         else case split_once CHR ''='' p of
                Some (k, v) \<Rightarrow> [(trim k, Some (trim v))]
              | None \<Rightarrow> [(p, None)])"

definition sent_by_host :: "string \<Rightarrow> string" where
  "sent_by_host head =
     (let sent_by = trim (last (split_char CHR '' '' head))
      in case rsplit_once CHR '':'' sent_by of
           Some (h, p) \<Rightarrow> if p \<noteq> [] \<and> list_all is_digit p then h else sent_by
         | None \<Rightarrow> sent_by)"

definition via_split :: "string \<Rightarrow> string \<times> (string \<times> string option) list" where
  "via_split entry0 =
     (let entry = trim entry0;
          (head, params_str) = (case find_char CHR '';'' entry of
             Some i \<Rightarrow> (trim_end (take i entry), drop (i + 1) entry)
           | None \<Rightarrow> (entry, []))
      in (head, concat (map via_param (split_char CHR '';'' params_str))))"

definition is_param :: "string \<Rightarrow> string \<times> string option \<Rightarrow> bool" where
  "is_param name kv \<longleftrightarrow> eq_ignore_ascii_case (fst kv) name"

definition fill_value :: "string \<Rightarrow> string \<times> string option \<Rightarrow> string \<times> string option" where
  "fill_value x kv = (fst kv, case snd kv of None \<Rightarrow> Some x | Some v \<Rightarrow> Some v)"

definition stamp_params ::
  "socket_addr \<Rightarrow> string \<Rightarrow> (string \<times> string option) list \<Rightarrow> (string \<times> string option) list" where
  "stamp_params src head params =
     (let has_received = list_ex (is_param ''received'') params;
          client_wants_rport = list_ex (is_param ''rport'') params;
          params = update_first (is_param ''rport'') (fill_value (show_nat (unat (snd src)))) params;
          need_received = (client_wants_rport \<or> sent_by_host head \<noteq> fst src)
      in if need_received \<and> \<not> has_received
         then params @ [(''received'', Some (fst src))] else params)"

definition rewrite_top_via_entry :: "socket_addr \<Rightarrow> string \<Rightarrow> string" where
  "rewrite_top_via_entry src entry =
     (case via_split entry of
        (head, params) \<Rightarrow> head @ concat (map show_param (stamp_params src head params)))"

definition stamp_value :: "socket_addr \<Rightarrow> string \<Rightarrow> string" where
  "stamp_value src v =
     (case split_once CHR '','' v of
        Some (first, rest) \<Rightarrow> rewrite_top_via_entry src first @ '','' @ rest
      | None \<Rightarrow> rewrite_top_via_entry src v)"

definition stamp_via_received_rport :: "socket_addr \<Rightarrow> sip_message \<Rightarrow> sip_message" where
  "stamp_via_received_rport src m =
     m\<lparr>msg_headers := update_first (\<lambda>h. eq_ignore_ascii_case (hdr_name h) ''Via'')
        (\<lambda>h. h\<lparr>hdr_value := stamp_value src (hdr_value h)\<rparr>) (msg_headers m)\<rparr>"

subsection \<open>Printing and parsing a message\<close>

definition crlf :: string where
  "crlf = [CHR 0x0D, CHR 0x0A]"

definition start_line_display :: "start_line \<Rightarrow> string" where
  "start_line_display sl =
     (case sl of
        Request r \<Rightarrow> method_as_str (rl_method r) @ '' '' @ uri_display (rl_uri r) @ '' '' @ rl_version r
      | Response r \<Rightarrow> sl_version r @ '' '' @ show_nat (unat (sl_status_code r)) @ '' '' @ sl_reason_phrase r)"

definition header_display :: "sip_header \<Rightarrow> string" where
  "header_display h = hdr_name h @ '': '' @ hdr_value h"

definition message_display :: "sip_message \<Rightarrow> string" where
  "message_display m =
     start_line_display (msg_start_line m) @ crlf
     @ concat (map (\<lambda>h. header_display h @ crlf) (msg_headers m)) @ crlf @ msg_body m"

definition MAX_CONTENT_LENGTH :: nat where "MAX_CONTENT_LENGTH = 65536"
definition MAX_HEADER_COUNT :: nat where "MAX_HEADER_COUNT = 256"
definition MAX_HEADER_VALUE_LEN :: nat where "MAX_HEADER_VALUE_LEN = 8192"

definition parse_start_line :: "string \<Rightarrow> start_line parse_result" where
  "parse_start_line line =
     (if starts_with ''SIP/'' line then
        (case splitn 3 CHR '' '' line of
           [version, code, reason] \<Rightarrow>
             (case parse_u16 code of
                Some c \<Rightarrow> Inr (Response \<lparr>sl_version = version, sl_status_code = c, sl_reason_phrase = reason\<rparr>)
              | None \<Rightarrow> Inl (''Invalid status code: '' @ code))
         | _ \<Rightarrow> Inl (''Invalid status line: '' @ line))
      else
        (case splitn 3 CHR '' '' line of
           [meth, uri, version] \<Rightarrow>
             (case method_from_name meth of
                Some me \<Rightarrow>
                  bind_res (uri_parse uri)
                    (\<lambda>u. Inr (Request \<lparr>rl_method = me, rl_uri = u, rl_version = version\<rparr>))
              | None \<Rightarrow> Inl (''Unknown SIP method: '' @ meth))
         | _ \<Rightarrow> Inl (''Invalid request line: '' @ line)))"

definition value_too_long :: "string \<Rightarrow> string" where
  "value_too_long name =
     ''Header '' @ [CHR 0x27] @ name @ [CHR 0x27] @ '' value exceeds maximum length (''
     @ show_nat MAX_HEADER_VALUE_LEN @ '')''"

text \<open>The header loop; the headers read so far are in their order of appearance.\<close>

fun parse_header_lines :: "sip_header list \<Rightarrow> string list \<Rightarrow> sip_header list parse_result" where
  "parse_header_lines hs [] = Inr hs"
| "parse_header_lines hs (l # ls) =
     (let line = trim_end_matches CHR 0x0D l
      in if line = [] then Inr hs
         else if starts_with '' '' line \<or> starts_with [CHR 0x09] line then
           (if hs = [] then parse_header_lines hs ls
            else
              let h = (last hs)\<lparr>hdr_value := hdr_value (last hs) @ '' '' @ trim line\<rparr>
              in if MAX_HEADER_VALUE_LEN < length (hdr_value h) then Inl (value_too_long (hdr_name h))
                 else parse_header_lines (butlast hs @ [h]) ls)
         else if MAX_HEADER_COUNT \<le> length hs then
           Inl (''Too many headers (max '' @ show_nat MAX_HEADER_COUNT @ '')'')
         else case split_once CHR '':'' line of
                Some (n, v) \<Rightarrow>
                  (let name = expand_compact_header (trim n); value = trim v
                   in if MAX_HEADER_VALUE_LEN < length value then Inl (value_too_long name)
                      else parse_header_lines (hs @ [\<lparr>hdr_name = name, hdr_value = value\<rparr>]) ls)
              | None \<Rightarrow> parse_header_lines hs ls)"

definition split_sections :: "string \<Rightarrow> string \<times> string" where
  "split_sections text =
     (case find_sub (crlf @ crlf) text of
        Some pos \<Rightarrow> (take pos text, drop (pos + 4) text)
      | None \<Rightarrow>
          (case find_sub [CHR 0x0A, CHR 0x0A] text of
             Some pos \<Rightarrow> (take pos text, drop (pos + 2) text)
           | None \<Rightarrow> (text, [])))"

definition content_length :: "sip_header list \<Rightarrow> nat option" where
  "content_length hs =
     (case find (\<lambda>h. eq_ignore_ascii_case (hdr_name h) ''content-length'') hs of
        Some h \<Rightarrow> parse_usize (trim (hdr_value h))
      | None \<Rightarrow> None)"

definition cut_body :: "sip_header list \<Rightarrow> string \<Rightarrow> string parse_result" where
  "cut_body hs body =
     (case content_length hs of
        Some cl \<Rightarrow>
          (if MAX_CONTENT_LENGTH < cl then
             Inl (''Content-Length '' @ show_nat cl @ '' exceeds maximum allowed (''
                  @ show_nat MAX_CONTENT_LENGTH @ '')'')
           else if 0 < cl \<and> cl \<le> length body then
             Inr (if is_char_boundary body cl then take cl body else body)
           else Inr body)
      | None \<Rightarrow> Inr body)"

definition parse_message :: "string \<Rightarrow> sip_message parse_result" where
  "parse_message text =
     (let (header_section, body) = split_sections text;
          lines = split_char CHR 0x0A header_section;
          first_line = trim (trim_end_matches CHR 0x0D (hd lines))
      in if first_line = [] then Inl ''Empty start line''
         else bind_res (parse_start_line first_line) (\<lambda>sl.
              bind_res (parse_header_lines [] (tl lines)) (\<lambda>hs.
              bind_res (cut_body hs body) (\<lambda>b.
              Inr \<lparr>msg_start_line = sl, msg_headers = hs, msg_body = b\<rparr>))))"

subsection \<open>Header values\<close>

definition extract_tag :: "string \<Rightarrow> string option" where
  "extract_tag v =
     (case List.map_filter (\<lambda>part. strip_prefix ''tag='' (trim part)) (split_char CHR '';'' v) of
        tag # _ \<Rightarrow> Some tag
      | [] \<Rightarrow> None)"

definition extract_uri :: "string \<Rightarrow> string option" where
  "extract_uri v =
     (case (find_char CHR ''<'' v, find_char CHR ''>'' v) of
        (Some start, Some stop) \<Rightarrow>
          if start < stop then Some (take (stop - (start + 1)) (drop (start + 1) v))
          else Some (trim (hd (split_char CHR '';'' v)))
      | _ \<Rightarrow> Some (trim (hd (split_char CHR '';'' v))))"

definition parse_via :: "string \<Rightarrow> string \<times> string \<times> u16 option \<times> string option" where
  "parse_via value =
     (let (transport, rest) = (case splitn 2 CHR '' '' value of
            [t, r] \<Rightarrow> (t, r) | [t] \<Rightarrow> (t, []) | _ \<Rightarrow> (''SIP/2.0/UDP'', []));
          (hostport, params) = (case splitn 2 CHR '';'' rest of
            [h, ps] \<Rightarrow> (h, Some ps) | h # _ \<Rightarrow> (h, None) | [] \<Rightarrow> ([], None));
          (host, port) = (case parse_host_port hostport of Inr hp \<Rightarrow> hp | Inl _ \<Rightarrow> ([], None));
          branch = (case params of
              None \<Rightarrow> None
            | Some ps \<Rightarrow>
                fold (\<lambda>param acc. case strip_prefix ''branch='' (trim param) of Some b \<Rightarrow> Some b | None \<Rightarrow> acc)
                  (split_char CHR '';'' ps) None)
      in (transport, host, port, branch))"

record retry_after =
  ra_seconds :: u32
  ra_comment :: "string option"
  ra_duration :: "u32 option"

definition retry_after_parse :: "string \<Rightarrow> retry_after option" where
  "retry_after_parse value0 =
     (let value = trim value0
      in if value = [] then None
         else
           let seconds_str = takeWhile is_digit value
           in case parse_u32 seconds_str of
                None \<Rightarrow> None
              | Some seconds \<Rightarrow>
                  (let rest = trim_start (drop (length seconds_str) value);
                       (comment, rest) = (case (if starts_with ''('' rest then find_char CHR '')'' rest else None) of
                            Some end_paren \<Rightarrow>
                              (Some (take (end_paren - 1) (drop 1 rest)), trim_start (drop (end_paren + 1) rest))
                          | None \<Rightarrow> (None, rest));
                       duration = fold (\<lambda>part acc. case strip_prefix ''duration='' (trim part) of
                            Some val \<Rightarrow> parse_u32 (trim val) | None \<Rightarrow> acc) (split_char CHR '';'' rest) None
                   in Some \<lparr>ra_seconds = seconds, ra_comment = comment, ra_duration = duration\<rparr>))"

definition retry_after_from_message :: "sip_message \<Rightarrow> retry_after option" where
  "retry_after_from_message m = Option.bind (get_header m ''Retry-After'') retry_after_parse"

end
