(* ===== verification/Sip_Roundtrip.thy ===== *)
theory Sip_Roundtrip
  imports Sip_Parser
begin

section \<open>Parsing what was printed\<close>

text \<open>
  The printer and the parser of SIP messages agree: for well-formed URIs and messages parsing the
  printed text gives the value back. Well-formedness asks that no component contains a character
  that separates it from its neighbours.
\<close>

subsection \<open>URIs\<close>

definition without :: "string \<Rightarrow> string \<Rightarrow> bool" where
  "without bad s \<longleftrightarrow> (\<forall>c \<in> set s. c \<notin> set bad \<and> \<not> is_ws c)"

definition param_ok :: "string \<times> string option \<Rightarrow> bool" where
  "param_ok kv \<longleftrightarrow> fst kv \<noteq> [] \<and> without '';?='' (fst kv) \<and> to_ascii_lowercase (fst kv) = fst kv
     \<and> (case snd kv of Some v \<Rightarrow> without '';?'' v | None \<Rightarrow> True)"

definition uri_header_ok :: "string \<times> string \<Rightarrow> bool" where
  "uri_header_ok kv \<longleftrightarrow> without ''&='' (fst kv) \<and> without ''&'' (snd kv)"

definition uri_wf :: "sip_uri \<Rightarrow> bool" where
  "uri_wf u \<longleftrightarrow> uri_scheme u \<in> {''sip'', ''sips'', ''tel''}
     \<and> (case uri_user u of None \<Rightarrow> uri_password u = None | Some x \<Rightarrow> without '':@;?'' x)
     \<and> (case uri_password u of None \<Rightarrow> True | Some x \<Rightarrow> without ''@;?'' x)
     \<and> without ''@;?[]'' (uri_host u)
     \<and> list_all param_ok (uri_parameters u) \<and> hm_wf (uri_parameters u)
     \<and> list_all uri_header_ok (uri_headers u) \<and> hm_wf (uri_headers u)"

lemma without_notin: "without bad s \<Longrightarrow> c \<in> set bad \<Longrightarrow> c \<notin> set s"
  by (auto simp: without_def)

lemma without_trimmed: "without bad s \<Longrightarrow> trimmed s"
  by (rule trimmed_no_ws) (simp add: without_def)

lemma hinsert_new: "k \<notin> fst ` set m \<Longrightarrow> hinsert k v m = m @ [(k, v)]"
  by (induction m) auto

text \<open>Inserting the pairs of a table with distinct keys one after the other rebuilds it.\<close>

lemma fold_insert_table:
  assumes "\<forall>p \<in> set ps. \<forall>m. ins (pr p) m = hinsert (fst p) (snd p) m"
    and "distinct (map fst (m @ ps))"
  shows "fold ins (map pr ps) m = m @ ps"
  using assms
proof (induction ps arbitrary: m)
  case (Cons p ps)
  then have "fst p \<notin> fst ` set m" by auto
  then have "ins (pr p) m = m @ [p]" using Cons.prems(1) by (simp add: hinsert_new)
  moreover have "fold ins (map pr ps) (m @ [p]) = (m @ [p]) @ ps"
    using Cons.prems by (intro Cons.IH) simp_all
  ultimately show ?case by simp
qed simp

lemma rebuild_table:
  assumes "\<forall>p \<in> set ps. \<forall>m. ins (pr p) m = hinsert (fst p) (snd p) m" and "hm_wf ps"
  shows "fold ins (map pr ps) [] = ps"
  using fold_insert_table [of ps ins pr "[]"] assms by (simp add: hm_wf_def)

definition param_text :: "string \<times> string option \<Rightarrow> string" where
  "param_text kv = (case snd kv of Some v \<Rightarrow> fst kv @ ''='' @ v | None \<Rightarrow> fst kv)"

lemma show_param_text: "show_param kv = CHR '';'' # param_text kv"
  by (cases kv) (auto simp: show_param_def param_text_def split: option.splits)

lemma param_text_no_sep: "param_ok kv \<Longrightarrow> CHR '';'' \<notin> set (param_text kv)"
  by (auto simp: param_ok_def param_text_def without_def split: option.splits)

lemma split_params:
  "list_all param_ok (p # ps) \<Longrightarrow>
     split_char CHR '';'' (param_text p @ concat (map show_param ps)) = map param_text (p # ps)"
proof (induction ps arbitrary: p)
  case Nil
  then show ?case by (simp add: param_text_no_sep)
next
  case (Cons q ps)
  then show ?case by (simp add: show_param_text param_text_no_sep)
qed

lemma insert_param_text: "param_ok p \<Longrightarrow> insert_param (param_text p) m = hinsert (fst p) (snd p) m"
  by (auto simp: insert_param_def param_text_def param_ok_def without_notin split: option.splits)

lemma parse_params:
  assumes "list_all param_ok ps" and "hm_wf ps"
  shows "fold insert_param (split_char CHR '';'' (tl (concat (map show_param ps)))) [] = ps"
proof (cases ps)
  case Nil
  then show ?thesis by (simp add: insert_param_def)
next
  case (Cons p qs)
  then have "tl (concat (map show_param ps)) = param_text p @ concat (map show_param qs)"
    by (simp add: show_param_text)
  with assms Cons show ?thesis
    using rebuild_table [of ps insert_param param_text]
    by (simp add: split_params insert_param_text list_all_iff)
qed

definition uri_header_text :: "string \<times> string \<Rightarrow> string" where
  "uri_header_text kv = fst kv @ ''='' @ snd kv"

lemma uri_header_text_no_sep: "uri_header_ok h \<Longrightarrow> CHR ''&'' \<notin> set (uri_header_text h)"
  by (auto simp: uri_header_text_def uri_header_ok_def without_def)

lemma show_uri_headers_Cons:
  "show_uri_headers False (g # hs) = CHR ''&'' # uri_header_text g @ show_uri_headers False hs"
  by (cases g) (simp add: uri_header_text_def)

lemma split_uri_headers:
  "list_all uri_header_ok (h # hs) \<Longrightarrow>
     split_char CHR ''&'' (uri_header_text h @ show_uri_headers False hs) = map uri_header_text (h # hs)"
proof (induction hs arbitrary: h)
  case Nil
  then show ?case by (simp add: uri_header_text_no_sep)
next
  case (Cons g hs)
  then have "CHR ''&'' \<notin> set (uri_header_text h)" by (simp add: uri_header_text_no_sep)
  moreover have "split_char CHR ''&'' (uri_header_text g @ show_uri_headers False hs) = map uri_header_text (g # hs)"
    using Cons.prems by (intro Cons.IH) simp
  ultimately show ?case by (simp add: show_uri_headers_Cons del: show_uri_headers.simps)
qed

lemma insert_uri_header_text:
  "uri_header_ok h \<Longrightarrow> insert_uri_header (uri_header_text h) m = hinsert (fst h) (snd h) m"
  by (cases h) (auto simp: insert_uri_header_def uri_header_text_def uri_header_ok_def without_notin)

lemma parse_uri_headers:
  assumes "list_all uri_header_ok hs" and "hm_wf hs"
  shows "fold insert_uri_header (split_char CHR ''&'' (tl (show_uri_headers True hs))) [] = hs"
proof (cases hs)
  case Nil
  then show ?thesis by (simp add: insert_uri_header_def)
next
  case (Cons h gs)
  then have "tl (show_uri_headers True hs) = uri_header_text h @ show_uri_headers False gs"
    by (cases h) (simp add: uri_header_text_def)
  moreover have "split_char CHR ''&'' \<dots> = map uri_header_text hs"
    using assms(1) by (simp add: Cons split_uri_headers)
  ultimately show ?thesis
    using rebuild_table [of hs insert_uri_header uri_header_text] assms
    by (simp add: insert_uri_header_text list_all_iff)
qed

lemma unat_u16_le: "unat (w :: u16) \<le> 65535"
  using unsigned_less [of w, where 'a = nat] by simp

lemma parse_u16_show [simp]: "parse_u16 (show_nat (unat (w :: u16))) = Some w"
  by (simp add: unat_u16_le)

lemma show_port_chars: "c \<in> set (show_port p) \<Longrightarrow> c = CHR '':'' \<or> is_digit c"
  by (auto simp: show_port_def dest: show_nat_chars split: option.splits)

lemma find_char_append_eq: "d \<notin> set a \<Longrightarrow> find_char d (a @ d # b) = Some (length a)"
  by (induction a) auto

lemma parse_host_port_display:
  assumes "without ''@;?[]'' (uri_host u)"
  shows "parse_host_port (host_display u @ show_port p) = Inr (uri_host u, p)"
proof (cases "is_ipv6_host u")
  case True
  have "find_char CHR '']'' (CHR ''['' # uri_host u @ CHR '']'' # show_port p) = Some (Suc (length (uri_host u)))"
    using assms by (simp add: find_char_append_eq without_notin)
  with True show ?thesis
    by (cases p) (simp_all add: parse_host_port_def host_display_def starts_with_def show_port_def
        strip_prefix_def del: find_char.simps)
next
  case False
  then have c: "CHR '':'' \<notin> set (uri_host u)" by (simp add: is_ipv6_host_def)
  have "CHR ''['' \<notin> set (uri_host u @ show_port p)"
    using assms show_port_chars [of "CHR ''[''" p] by (auto simp: without_def is_digit_iff)
  then have "\<not> starts_with ''['' (uri_host u @ show_port p)"
    by (metis append_Cons list.set_intros(1) starts_with_iff)
  with False c show ?thesis
    by (cases p) (simp_all add: parse_host_port_def host_display_def show_port_def show_nat_no_char
        is_digit_iff unat_u16_le)
qed

lemma host_display_no_char:
  assumes "without ''@;?[]'' (uri_host u)" and "c \<in> {CHR ''@'', CHR '';'', CHR ''?''}"
  shows "c \<notin> set (host_display u @ show_port p)"
proof -
  have "c \<noteq> CHR '':''" "\<not> is_digit c" "c \<noteq> CHR ''[''" "c \<noteq> CHR '']''"
    using assms(2) by (auto simp: is_digit_iff)
  moreover from this have "c \<notin> set (show_port p)" using show_port_chars by blast
  moreover have "c \<notin> set (uri_host u)" using assms without_notin by fastforce
  ultimately show ?thesis by (simp add: host_display_def)
qed

lemma parse_userinfo_display:
  assumes "uri_wf u"
  shows "parse_userinfo (show_userinfo u @ host_display u @ show_port (uri_port u)) =
    Inr (uri_user u, uri_password u, uri_host u, uri_port u)"
proof -
  note host = parse_host_port_display [of u "uri_port u"]
  have h: "without ''@;?[]'' (uri_host u)" using assms by (simp add: uri_wf_def)
  then have at: "CHR ''@'' \<notin> set (host_display u @ show_port (uri_port u))"
    by (rule host_display_no_char) simp
  show ?thesis
  proof (cases "uri_user u")
    case None
    with assms h at host show ?thesis
      by (simp add: uri_wf_def parse_userinfo_def show_userinfo_def bind_res_def)
  next
    case (Some x)
    with assms have x: "CHR '':'' \<notin> set x" "CHR ''@'' \<notin> set x"
      by (auto simp: uri_wf_def without_def)
    show ?thesis
    proof (cases "uri_password u")
      case None
      with Some x h host show ?thesis
        by (simp add: parse_userinfo_def show_userinfo_def bind_res_def)
    next
      case (Some y)
      with assms have "CHR ''@'' \<notin> set y" by (auto simp: uri_wf_def without_def)
      with Some \<open>uri_user u = Some x\<close> x h host show ?thesis
        using split_once_append [of "CHR ''@''" "x @ '':'' @ y" "host_display u @ show_port (uri_port u)"]
        by (simp add: parse_userinfo_def show_userinfo_def bind_res_def)
    qed
  qed
qed

lemma show_userinfo_no_char:
  assumes "uri_wf u" and "c \<in> {CHR '';'', CHR ''?''}"
  shows "c \<notin> set (show_userinfo u)"
proof -
  have "c \<noteq> CHR '':''" "c \<noteq> CHR ''@''" "c \<in> set '':@;?''" "c \<in> set ''@;?''"
    using assms(2) by auto
  moreover from this have "c \<notin> set x" if "uri_user u = Some x" for x
    using assms(1) that without_notin by (fastforce simp: uri_wf_def)
  moreover from calculation have "c \<notin> set x" if "uri_password u = Some x" for x
    using assms(1) that without_notin by (fastforce simp: uri_wf_def)
  ultimately show ?thesis by (simp add: show_userinfo_def split: option.split)
qed

lemma param_text_no_question: "param_ok p \<Longrightarrow> CHR ''?'' \<notin> set (param_text p)"
  by (cases "snd p") (auto simp: param_text_def param_ok_def dest: without_notin [where c = "CHR ''?''"])

lemma show_params_no_question:
  "list_all param_ok ps \<Longrightarrow> CHR ''?'' \<notin> set (concat (map show_param ps))"
  by (induction ps) (simp_all add: show_param_text param_text_no_question)

text \<open>Splitting off a tail that is absent or starts with its separator.\<close>

lemma split_opt_tail:
  assumes "d \<notin> set a" and "t = [] \<or> hd t = d"
  shows "split_opt d (a @ t) = (a, if t = [] then None else Some (tl t))"
  using assms by (cases t) (auto simp: split_opt_def)

lemma split_opt_headers:
  "d \<notin> set a \<Longrightarrow> d = CHR ''?'' \<Longrightarrow>
     split_opt d (a @ show_uri_headers True hs) =
       (a, if hs = [] then None else Some (tl (show_uri_headers True hs)))"
  by (cases hs; cases "hd hs") (auto simp: split_opt_tail, simp add: split_opt_def)

lemma split_opt_params:
  "d \<notin> set a \<Longrightarrow> d = CHR '';'' \<Longrightarrow>
     split_opt d (a @ concat (map show_param ps)) =
       (a, if ps = [] then None else Some (tl (concat (map show_param ps))))"
  by (cases ps) (auto simp: split_opt_tail show_param_text, simp add: split_opt_def)

lemma separators_not_ws [simp]:
  "\<not> is_ws CHR '':''" "\<not> is_ws CHR '';''" "\<not> is_ws CHR ''@''" "\<not> is_ws CHR ''=''" "\<not> is_ws CHR ''?''"
  "\<not> is_ws CHR ''&''" "\<not> is_ws CHR ''[''" "\<not> is_ws CHR '']''"
  by (simp_all add: is_ws_def)

lemma without_not_ws: "without bad s \<Longrightarrow> \<forall>c \<in> set s. \<not> is_ws c"
  by (simp add: without_def)

lemma show_port_not_ws: "\<forall>c \<in> set (show_port p). \<not> is_ws c"
  using show_port_chars is_digit_not_ws separators_not_ws(1) by blast

lemma show_params_not_ws: "list_all param_ok ps \<Longrightarrow> \<forall>c \<in> set (concat (map show_param ps)). \<not> is_ws c"
  by (induction ps)
    (auto simp: show_param_text param_text_def param_ok_def dest: without_not_ws split: option.splits)

lemma show_uri_headers_not_ws:
  "list_all uri_header_ok hs \<Longrightarrow> \<forall>c \<in> set (show_uri_headers b hs). \<not> is_ws c"
  by (induction b hs rule: show_uri_headers.induct) (auto simp: uri_header_ok_def dest: without_not_ws)

lemma uri_display_no_ws:
  assumes "uri_wf u"
  shows "\<forall>c \<in> set (uri_display u). \<not> is_ws c"
proof -
  have "\<forall>c \<in> set (show_userinfo u). \<not> is_ws c"
    using assms by (auto simp: uri_wf_def show_userinfo_def dest: without_not_ws split: option.splits)
  moreover have "\<forall>c \<in> set (host_display u). \<not> is_ws c"
    using assms by (auto simp: uri_wf_def host_display_def dest: without_not_ws)
  moreover have "\<forall>c \<in> set (uri_scheme u). \<not> is_ws c"
    using assms by (auto simp: uri_wf_def is_ws_def)
  ultimately show ?thesis
    using assms show_port_not_ws [of "uri_port u"] show_params_not_ws [of "uri_parameters u"]
      show_uri_headers_not_ws [of "uri_headers u" True]
    by (simp add: uri_display_def uri_wf_def ball_Un)
qed

lemma parse_scheme_ok: "x \<in> {''sip'', ''sips'', ''tel''} \<Longrightarrow> parse_scheme x = Inr x \<and> CHR '':'' \<notin> set x"
  by (elim insertE emptyE) (simp_all add: parse_scheme_def eq_ignore_ascii_case_def lower_char_def)

lemma uri_roundtrip:
  assumes "uri_wf u"
  shows "uri_parse (uri_display u) = Inr u"
proof -
  let ?base = "show_userinfo u @ host_display u @ show_port (uri_port u)"
  let ?ps = "concat (map show_param (uri_parameters u))"
  let ?hs = "show_uri_headers True (uri_headers u)"
  have wf: "list_all param_ok (uri_parameters u)" "hm_wf (uri_parameters u)"
    "list_all uri_header_ok (uri_headers u)" "hm_wf (uri_headers u)" "without ''@;?[]'' (uri_host u)"
    "uri_scheme u \<in> {''sip'', ''sips'', ''tel''}"
    using assms by (auto simp: uri_wf_def)
  have no: "c \<notin> set ?base" if "c \<in> {CHR '';'', CHR ''?''}" for c
    using show_userinfo_no_char [OF assms that] host_display_no_char [OF wf(5), of c "uri_port u"] that by auto
  have q: "CHR ''?'' \<notin> set (?base @ ?ps)"
    using no [of "CHR ''?''"] show_params_no_question [OF wf(1)] by simp
  have t: "trim (uri_display u) = uri_display u"
    by (rule trim_id, rule trimmed_no_ws, rule uri_display_no_ws [OF assms])
  have s: "split_once CHR '':'' (uri_display u) = Some (uri_scheme u, (?base @ ?ps) @ ?hs)"
    using parse_scheme_ok [OF wf(6)] by (simp add: uri_display_def)
  have H: "split_opt CHR ''?'' ((?base @ ?ps) @ ?hs) = (?base @ ?ps, if uri_headers u = [] then None else Some (tl ?hs))"
    using q by (rule split_opt_headers) simp
  have P: "split_opt CHR '';'' (?base @ ?ps) = (?base, if uri_parameters u = [] then None else Some (tl ?ps))"
    using no [of "CHR '';''"] by (intro split_opt_params) simp_all
  have ps: "(case (if uri_parameters u = [] then None else Some (tl ?ps)) of
      Some x \<Rightarrow> fold insert_param (split_char CHR '';'' x) [] | None \<Rightarrow> []) = uri_parameters u"
    using parse_params [OF wf(1,2)] by simp
  have hs: "(case (if uri_headers u = [] then None else Some (tl ?hs)) of
      Some x \<Rightarrow> fold insert_uri_header (split_char CHR ''&'' x) [] | None \<Rightarrow> []) = uri_headers u"
    using parse_uri_headers [OF wf(3,4)] by simp
  show ?thesis
    by (simp only: uri_parse_def Let_def t s option.case prod.case H P ps hs
        parse_scheme_ok [OF wf(6), THEN conjunct1] parse_userinfo_display [OF assms] bind_res_def sum.case)
      simp
qed

subsection \<open>Messages\<close>

definition no_break :: "string \<Rightarrow> bool" where
  "no_break s \<longleftrightarrow> CHR 0x0D \<notin> set s \<and> CHR 0x0A \<notin> set s"

definition start_line_wf :: "start_line \<Rightarrow> bool" where
  "start_line_wf sl \<longleftrightarrow>
     (case sl of
        Request r \<Rightarrow> uri_wf (rl_uri r) \<and> rl_version r \<noteq> [] \<and> \<not> is_ws (last (rl_version r)) \<and> no_break (rl_version r)
      | Response r \<Rightarrow>
          starts_with ''SIP/'' (sl_version r) \<and> without [] (sl_version r)
          \<and> sl_reason_phrase r \<noteq> [] \<and> \<not> is_ws (last (sl_reason_phrase r)) \<and> no_break (sl_reason_phrase r))"

definition header_wf :: "sip_header \<Rightarrow> bool" where
  "header_wf h \<longleftrightarrow> hdr_name h \<noteq> [] \<and> without '':'' (hdr_name h) \<and> expand_compact_header (hdr_name h) = hdr_name h
     \<and> trimmed (hdr_value h) \<and> no_break (hdr_value h) \<and> length (hdr_value h) \<le> MAX_HEADER_VALUE_LEN"

definition body_wf :: "sip_message \<Rightarrow> bool" where
  "body_wf m \<longleftrightarrow>
     (case content_length (msg_headers m) of
        None \<Rightarrow> True
      | Some cl \<Rightarrow> cl \<le> MAX_CONTENT_LENGTH \<and> (cl = 0 \<or> length (msg_body m) \<le> cl))"

definition message_wf :: "sip_message \<Rightarrow> bool" where
  "message_wf m \<longleftrightarrow> start_line_wf (msg_start_line m) \<and> list_all header_wf (msg_headers m)
     \<and> length (msg_headers m) \<le> MAX_HEADER_COUNT \<and> body_wf m"

lemma find_sub_skip:
  "c \<notin> set a \<Longrightarrow> find_sub (c # p) (a @ t) = map_option ((+) (length a)) (find_sub (c # p) t)"
proof (induction a)
  case Nil
  then show ?case by (simp add: option.map_ident)
next
  case (Cons x a)
  then have "\<not> starts_with (c # p) (x # a @ t)" by (auto simp: starts_with_def)
  with Cons show ?case by (simp add: option.map_comp comp_def)
qed

text \<open>The lines after the first one, each led by its line break.\<close>

primrec joined :: "string list \<Rightarrow> string" where
  "joined [] = []"
| "joined (x # ls) = crlf @ x @ joined ls"

lemma find_blank_line:
  assumes "\<forall>x \<in> set ls. x \<noteq> [] \<and> CHR 0x0D \<notin> set x" and "CHR 0x0D \<notin> set l"
  shows "find_sub (crlf @ crlf) ((l @ joined ls) @ crlf @ crlf @ b) =
    Some (length (l @ joined ls))"
  using assms
proof (induction ls arbitrary: l)
  case Nil
  then show ?case using find_sub_skip [of "CHR 0x0D" l "CHR 0x0A # crlf" "crlf @ crlf @ b"]
    by (simp add: crlf_def starts_with_def)
next
  case (Cons x ls)
  let ?rest = "(x @ joined ls) @ crlf @ crlf @ b"
  obtain y ys where x: "x = y # ys" "y \<noteq> CHR 0x0D" using Cons.prems(1) by (cases x) auto
  have "find_sub (crlf @ crlf) (crlf @ ?rest) = map_option (\<lambda>n. n + 2) (find_sub (crlf @ crlf) ?rest)"
    using x(2) by (simp add: crlf_def starts_with_def x(1) option.map_comp comp_def)
  moreover have "find_sub (crlf @ crlf) ?rest = Some (length (x @ joined ls))"
    using Cons.prems by (intro Cons.IH) simp_all
  moreover have "find_sub (crlf @ crlf) (l @ crlf @ ?rest) = map_option ((+) (length l)) (find_sub (crlf @ crlf) (crlf @ ?rest))"
    using find_sub_skip [OF Cons.prems(2), of "CHR 0x0A # crlf" "crlf @ ?rest"] by (simp add: crlf_def)
  ultimately show ?case by (simp add: crlf_def)
qed

lemma trim_cr_append [simp]: "trim_end_matches c (s @ [c]) = trim_end_matches c s"
  by (simp add: trim_end_matches_def)

lemma trim_cr_id: "CHR 0x0D \<notin> set s \<Longrightarrow> trim_end_matches CHR 0x0D s = s"
  by (cases s rule: rev_cases) (auto simp: trim_end_matches_def)

lemma trim_cr_idem [simp]: "trim_end_matches c (trim_end_matches c s) = trim_end_matches c s"
  by (simp add: trim_end_matches_def dropWhile_idem)

lemma split_lines:
  assumes "\<forall>x \<in> set (l # ls). no_break x"
  shows "map (trim_end_matches CHR 0x0D) (split_char CHR 0x0A (l @ joined ls)) = l # ls"
  using assms
proof (induction ls arbitrary: l)
  case Nil
  then show ?case by (simp add: no_break_def trim_cr_id)
next
  case (Cons x ls)
  have "split_char CHR 0x0A ((l @ [CHR 0x0D]) @ CHR 0x0A # x @ joined ls) =
    (l @ [CHR 0x0D]) # split_char CHR 0x0A (x @ joined ls)"
    using Cons.prems by (intro split_char_append) (simp add: no_break_def)
  moreover have "map (trim_end_matches CHR 0x0D) (split_char CHR 0x0A (x @ joined ls)) = x # ls"
    using Cons.prems by (intro Cons.IH) simp
  ultimately show ?case using Cons.prems by (simp add: crlf_def no_break_def trim_cr_id)
qed

lemma parse_header_lines_trim:
  "parse_header_lines hs (map (trim_end_matches CHR 0x0D) ls) = parse_header_lines hs ls"
  by (induction ls arbitrary: hs) (simp_all add: Let_def split: option.split prod.split)

lemma trim_space: "trim (CHR '' '' # s) = trim s"
  by (simp add: trim_def trim_start_def is_ws_def)

lemma header_display_line:
  assumes "header_wf h"
  shows "header_display h \<noteq> []" and "no_break (header_display h)"
    and "\<not> starts_with '' '' (header_display h)" and "\<not> starts_with [CHR 0x09] (header_display h)"
    and "split_once CHR '':'' (header_display h) = Some (hdr_name h, CHR '' '' # hdr_value h)"
proof -
  have "CHR 0x0D \<notin> set (hdr_name h)" "CHR 0x0A \<notin> set (hdr_name h)" "CHR '':'' \<notin> set (hdr_name h)"
    using assms by (auto simp: header_wf_def without_def is_ws_def)
  with assms show "no_break (header_display h)"
    "split_once CHR '':'' (header_display h) = Some (hdr_name h, CHR '' '' # hdr_value h)"
    by (simp_all add: no_break_def header_display_def header_wf_def)
  obtain c cs where c: "hdr_name h = c # cs" using assms by (cases "hdr_name h") (auto simp: header_wf_def)
  then have "\<not> is_ws c" using assms by (simp add: header_wf_def without_def)
  then have "c \<noteq> CHR '' ''" "c \<noteq> CHR 0x09" by (auto simp: is_ws_def)
  with c show "header_display h \<noteq> []" "\<not> starts_with '' '' (header_display h)"
    "\<not> starts_with [CHR 0x09] (header_display h)"
    by (simp_all add: header_display_def starts_with_def)
qed

lemma parse_header_lines_display:
  assumes "list_all header_wf gs" and "length (hs @ gs) \<le> MAX_HEADER_COUNT"
  shows "parse_header_lines hs (map header_display gs) = Inr (hs @ gs)"
  using assms
proof (induction gs arbitrary: hs)
  case (Cons g gs)
  then have g: "header_wf g" by simp
  note line = header_display_line [OF g]
  have "trim_end_matches CHR 0x0D (header_display g) = header_display g"
    using line(2) by (simp add: no_break_def trim_cr_id)
  moreover have "trim (hdr_name g) = hdr_name g"
    using g without_trimmed [of "'':''" "hdr_name g"] by (simp add: header_wf_def)
  moreover have "parse_header_lines (hs @ [g]) (map header_display gs) = Inr ((hs @ [g]) @ gs)"
    using Cons.prems by (intro Cons.IH) simp_all
  ultimately show ?case
    using g line Cons.prems(2) by (cases g) (simp add: Let_def trim_space header_wf_def)
qed simp

lemma method_roundtrip [simp]: "method_from_name (method_as_str m) = Some m"
  by (cases m) (simp_all add: method_from_name_def eq_ignore_ascii_case_def lower_char_def)

lemma method_text:
  "CHR '' '' \<notin> set (method_as_str m)" "no_break (method_as_str m)" "\<not> starts_with ''SIP/'' (method_as_str m @ t)"
  "method_as_str m \<noteq> []" "\<not> is_ws (hd (method_as_str m))"
  by (cases m; simp add: no_break_def starts_with_def is_ws_def)+

lemma no_break_append [simp]: "no_break (a @ b) \<longleftrightarrow> no_break a \<and> no_break b"
  by (auto simp: no_break_def)

lemma no_break_Cons [simp]: "no_break (c # s) \<longleftrightarrow> c \<noteq> CHR 0x0D \<and> c \<noteq> CHR 0x0A \<and> no_break s"
  by (auto simp: no_break_def)

lemma no_break_no_ws: "\<forall>c \<in> set s. \<not> is_ws c \<Longrightarrow> no_break s \<and> CHR '' '' \<notin> set s"
  by (auto simp: no_break_def is_ws_def)

lemma no_break_show_nat [simp]: "no_break (show_nat n)"
  by (rule no_break_no_ws [THEN conjunct1]) (auto dest: show_nat_chars)

lemma splitn_3:
  "d \<notin> set a \<Longrightarrow> d \<notin> set b \<Longrightarrow> splitn 3 d (a @ d # b @ d # c) = [a, b, c]"
  by (simp add: numeral_3_eq_3)

lemma start_line_display_ok:
  assumes "start_line_wf sl"
  shows "parse_start_line (start_line_display sl) = Inr sl"
    and "no_break (start_line_display sl)" and "trimmed (start_line_display sl)"
    and "start_line_display sl \<noteq> []"
proof -
  have "parse_start_line (start_line_display sl) = Inr sl \<and> no_break (start_line_display sl)
    \<and> trimmed (start_line_display sl) \<and> start_line_display sl \<noteq> []"
  proof (cases sl)
    case (Request r)
    with assms have r: "uri_wf (rl_uri r)" "rl_version r \<noteq> []" "\<not> is_ws (last (rl_version r))" "no_break (rl_version r)"
      by (simp_all add: start_line_wf_def)
    note u = no_break_no_ws [OF uri_display_no_ws [OF r(1)]]
    have "splitn 3 CHR '' '' (start_line_display sl) = [method_as_str (rl_method r), uri_display (rl_uri r), rl_version r]"
      using u splitn_3 [OF method_text(1)] by (simp add: Request start_line_display_def)
    then show ?thesis
      using u r method_text [of "rl_method r"] uri_roundtrip [OF r(1)]
      by (simp add: Request start_line_display_def parse_start_line_def bind_res_def trimmed_def)
  next
    case (Response r)
    with assms have r: "starts_with ''SIP/'' (sl_version r)" "\<forall>c \<in> set (sl_version r). \<not> is_ws c"
      "sl_reason_phrase r \<noteq> []" "\<not> is_ws (last (sl_reason_phrase r))" "no_break (sl_reason_phrase r)"
      by (simp_all add: start_line_wf_def without_def)
    note v = no_break_no_ws [OF r(2)]
    obtain w where w: "sl_version r = ''SIP/'' @ w" using r(1) by (auto simp: starts_with_iff)
    have "CHR '' '' \<notin> set (show_nat n)" for n by (rule show_nat_no_char) (simp add: is_digit_iff)
    then have "splitn 3 CHR '' '' (start_line_display sl) =
      [sl_version r, show_nat (unat (sl_status_code r)), sl_reason_phrase r]"
      using v splitn_3 by (simp add: Response start_line_display_def)
    moreover have "starts_with ''SIP/'' (start_line_display sl)"
      by (simp add: Response start_line_display_def w starts_with_def)
    moreover have "\<not> is_ws (hd (sl_version r))" by (simp add: w is_ws_def)
    ultimately show ?thesis
      using v r w by (simp add: Response parse_start_line_def unat_u16_le start_line_display_def trimmed_def)
  qed
  then show "parse_start_line (start_line_display sl) = Inr sl" "no_break (start_line_display sl)"
    "trimmed (start_line_display sl)" "start_line_display sl \<noteq> []" by simp_all
qed

lemma cut_body_ok: "body_wf m \<Longrightarrow> cut_body (msg_headers m) (msg_body m) = Inr (msg_body m)"
  by (auto simp: body_wf_def cut_body_def split: option.splits)

lemma message_display_joined:
  "message_display m =
     (start_line_display (msg_start_line m) @ joined (map header_display (msg_headers m))) @ crlf @ crlf @ msg_body m"
proof -
  have "crlf @ concat (map (\<lambda>h. header_display h @ crlf) hs) = joined (map header_display hs) @ crlf" for hs
    by (induction hs) simp_all
  then show ?thesis by (simp add: message_display_def)
qed

text \<open>(C5) Parsing a printed message gives the message back: start line, headers in their order and
  body, for every well-formed request or response.\<close>

theorem message_roundtrip:
  assumes "message_wf m"
  shows "parse_message (message_display m) = Inr m"
proof -
  let ?l = "start_line_display (msg_start_line m)"
  let ?ls = "map header_display (msg_headers m)"
  have wf: "start_line_wf (msg_start_line m)" "list_all header_wf (msg_headers m)"
    "length (msg_headers m) \<le> MAX_HEADER_COUNT" "body_wf m"
    using assms by (simp_all add: message_wf_def)
  note l = start_line_display_ok [OF wf(1)]
  have hs: "\<forall>x \<in> set ?ls. x \<noteq> [] \<and> no_break x"
    using wf(2) header_display_line by (auto simp: list_all_iff)
  have "find_sub (crlf @ crlf) (message_display m) = Some (length (?l @ joined ?ls))"
    unfolding message_display_joined using hs l(2) by (intro find_blank_line) (auto simp: no_break_def)
  then have sec: "split_sections (message_display m) = (?l @ joined ?ls, msg_body m)"
    by (simp add: split_sections_def message_display_joined crlf_def)
  have lines: "map (trim_end_matches CHR 0x0D) (split_char CHR 0x0A (?l @ joined ?ls)) = ?l # ?ls"
    using hs l(2) by (intro split_lines) simp
  then have "trim_end_matches CHR 0x0D (hd (split_char CHR 0x0A (?l @ joined ?ls))) = ?l"
    by (metis list.map_sel(1) list.sel(1) split_char_not_Nil)
  moreover have "parse_header_lines [] (tl (split_char CHR 0x0A (?l @ joined ?ls))) = Inr (msg_headers m)"
    using parse_header_lines_display [OF wf(2), of "[]"] wf(3) lines
    by (metis append_Nil list.sel(3) map_tl parse_header_lines_trim)
  ultimately show ?thesis
    using l cut_body_ok [OF wf(4)] by (simp add: parse_message_def sec bind_res_def)
qed

theorem message_roundtrip_witness:
  "parse_message (message_display
     \<lparr>msg_start_line = Request \<lparr>rl_method = Invite,
        rl_uri = \<lparr>uri_scheme = ''sip'', uri_user = Some ''bob'', uri_password = None, uri_host = ''10.0.0.1'',
                  uri_port = Some 5060, uri_parameters = [(''transport'', Some ''udp''), (''lr'', None)],
                  uri_headers = []\<rparr>, rl_version = ''SIP/2.0''\<rparr>,
      msg_headers = [\<lparr>hdr_name = ''Call-ID'', hdr_value = ''a1''\<rparr>, \<lparr>hdr_name = ''Content-Length'', hdr_value = ''3''\<rparr>],
      msg_body = ''v=0''\<rparr>) =
   Inr \<lparr>msg_start_line = Request \<lparr>rl_method = Invite,
        rl_uri = \<lparr>uri_scheme = ''sip'', uri_user = Some ''bob'', uri_password = None, uri_host = ''10.0.0.1'',
                  uri_port = Some 5060, uri_parameters = [(''transport'', Some ''udp''), (''lr'', None)],
                  uri_headers = []\<rparr>, rl_version = ''SIP/2.0''\<rparr>,
      msg_headers = [\<lparr>hdr_name = ''Call-ID'', hdr_value = ''a1''\<rparr>, \<lparr>hdr_name = ''Content-Length'', hdr_value = ''3''\<rparr>],
      msg_body = ''v=0''\<rparr>"
  by (rule message_roundtrip)
    (simp add: message_wf_def start_line_wf_def uri_wf_def header_wf_def body_wf_def content_length_def without_def
      param_ok_def hm_wf_def no_break_def expand_compact_header_def trimmed_def is_ws_def to_ascii_lowercase_def
      lower_char_def eq_ignore_ascii_case_def parse_unsigned_def parse_digits_def digits_val_def digit_val_def
      is_digit_def MAX_HEADER_COUNT_def MAX_HEADER_VALUE_LEN_def MAX_CONTENT_LENGTH_def)

definition headers_bounded :: "sip_header list \<Rightarrow> bool" where
  "headers_bounded hs \<longleftrightarrow> length hs \<le> MAX_HEADER_COUNT
     \<and> (\<forall>h \<in> set hs. length (hdr_value h) \<le> MAX_HEADER_VALUE_LEN)"

lemma headers_bounded_snoc:
  "headers_bounded hs \<Longrightarrow> length hs < MAX_HEADER_COUNT \<Longrightarrow> length (hdr_value h) \<le> MAX_HEADER_VALUE_LEN \<Longrightarrow>
     headers_bounded (hs @ [h])"
  by (auto simp: headers_bounded_def)

lemma headers_bounded_replace:
  "headers_bounded hs \<Longrightarrow> hs \<noteq> [] \<Longrightarrow> length (hdr_value h) \<le> MAX_HEADER_VALUE_LEN \<Longrightarrow>
     headers_bounded (butlast hs @ [h])"
  by (auto simp: headers_bounded_def dest: in_set_butlastD)

lemma parse_header_lines_bounded:
  "parse_header_lines hs ls = Inr gs \<Longrightarrow> headers_bounded hs \<Longrightarrow> headers_bounded gs"
proof (induction ls arbitrary: hs)
  case (Cons l ls)
  from Cons.prems show ?case
    by (auto simp: Let_def not_less not_le split: if_splits option.splits
        elim!: Cons.IH intro!: headers_bounded_snoc headers_bounded_replace)
qed simp

text \<open>An accepted message is bounded: it has at most 256 headers, and no header value, continuation
  lines included, is longer than 8192 bytes.\<close>

theorem parse_message_bounds:
  assumes "parse_message t = Inr m"
  shows "length (msg_headers m) \<le> 256 \<and> (\<forall>h \<in> set (msg_headers m). length (hdr_value h) \<le> 8192)"
proof -
  obtain ls hs where "parse_header_lines [] ls = Inr hs" "msg_headers m = hs"
    using assms by (auto simp: parse_message_def bind_res_def Let_def split: prod.splits if_splits sum.splits)
  with parse_header_lines_bounded [of "[]" ls hs] show ?thesis
    by (simp add: headers_bounded_def MAX_HEADER_COUNT_def MAX_HEADER_VALUE_LEN_def)
qed

theorem parse_message_bounds_witness:
  "parse_message ''SIP/2.0 200 OK'' =
     Inr \<lparr>msg_start_line = Response \<lparr>sl_version = ''SIP/2.0'', sl_status_code = 200, sl_reason_phrase = ''OK''\<rparr>,
          msg_headers = [], msg_body = []\<rparr>
   \<and> length (msg_headers \<lparr>msg_start_line = Response \<lparr>sl_version = ''SIP/2.0'', sl_status_code = 200,
        sl_reason_phrase = ''OK''\<rparr>, msg_headers = [], msg_body = []\<rparr>) \<le> 256"
proof -
  let ?m = "\<lparr>msg_start_line = Response \<lparr>sl_version = ''SIP/2.0'', sl_status_code = 200, sl_reason_phrase = ''OK''\<rparr>,
    msg_headers = [], msg_body = []\<rparr> :: sip_message"
  have "parse_message ''SIP/2.0 200 OK'' = Inr ?m"
    by (simp add: parse_message_def split_sections_def crlf_def starts_with_def trimmed_def is_ws_def bind_res_def
        trim_end_matches_def parse_start_line_def numeral_3_eq_3 parse_unsigned_def parse_digits_def digits_val_def
        digit_val_def is_digit_def cut_body_def content_length_def)
  from parse_message_bounds [OF this] this show ?thesis by blast
qed

text \<open>Headers copied under one name are found under it and no other.\<close>

lemma filter_copied:
  "filter (\<lambda>h. eq_ignore_ascii_case (hdr_name h) n) (map (\<lambda>v. \<lparr>hdr_name = k, hdr_value = v\<rparr>) vs) =
     (if eq_ignore_ascii_case k n then map (\<lambda>v. \<lparr>hdr_name = k, hdr_value = v\<rparr>) vs else [])"
  by (induction vs) auto

lemma find_copied:
  "\<not> eq_ignore_ascii_case k n \<Longrightarrow>
     find (\<lambda>h. eq_ignore_ascii_case (hdr_name h) n) (map (\<lambda>v. \<lparr>hdr_name = k, hdr_value = v\<rparr>) vs @ ys) =
     find (\<lambda>h. eq_ignore_ascii_case (hdr_name h) n) ys"
  by (induction vs) auto

text \<open>A response mirrors its request: it carries the given status, exactly the request's Via, From,
  To, Call-ID and CSeq values in their order, an empty body and a Content-Length of zero.\<close>

theorem create_response_mirrors:
  assumes "is_request m"
  shows "\<exists>r. create_response m code reason = Inr r \<and> status_code r = Some code \<and> is_response r
    \<and> (\<forall>n \<in> {''Via'', ''From'', ''To'', ''Call-ID'', ''CSeq''}. get_headers r n = get_headers m n)
    \<and> content_length (msg_headers r) = Some 0 \<and> msg_body r = []"
proof -
  define r where "r = projr (create_response m code reason)"
  have r: "create_response m code reason = Inr r"
    using assms by (simp add: r_def create_response_def)
  then have "\<forall>n \<in> {''Via'', ''From'', ''To'', ''Call-ID'', ''CSeq''}. get_headers r n = get_headers m n"
    by (auto simp: create_response_def get_headers_def [of r] filter_copied eq_ignore_ascii_case_def lower_char_def
        comp_def split: if_splits)
  moreover have "\<not> eq_ignore_ascii_case ''Via'' ''content-length''" "\<not> eq_ignore_ascii_case ''From'' ''content-length''"
    "\<not> eq_ignore_ascii_case ''To'' ''content-length''" "\<not> eq_ignore_ascii_case ''Call-ID'' ''content-length''"
    "\<not> eq_ignore_ascii_case ''CSeq'' ''content-length''" "eq_ignore_ascii_case ''Content-Length'' ''content-length''"
    "parse_usize (trim ''0'') = Some 0"
    by (code_simp, code_simp, code_simp, code_simp, code_simp, code_simp,
        simp add: trimmed_def is_ws_def parse_unsigned_def parse_digits_def digits_val_def digit_val_def is_digit_def)
  then have "content_length (msg_headers r) = Some 0"
    using r by (auto simp: create_response_def content_length_def find_copied split: if_splits)
  ultimately show ?thesis
    using r by (auto simp: create_response_def status_code_def is_response_def split: if_splits)
qed

theorem create_response_mirrors_witness:
  "\<exists>r. create_response (add_header ''Via'' ''x'' (new_request Options ''sip:h'')) 200 ''OK'' = Inr r
     \<and> get_headers r ''Via'' = get_headers (add_header ''Via'' ''x'' (new_request Options ''sip:h'')) ''Via''"
  using create_response_mirrors [of "add_header ''Via'' ''x'' (new_request Options ''sip:h'')" 200 "''OK''"]
  by (auto simp: is_request_def add_header_def new_request_def Let_def)

text \<open>A response with an empty reason phrase, which RFC 3261 allows and the constructor of responses
  accepts, is not read back: the printed status line is trimmed before it is split, so its third
  field is missing.\<close>

theorem empty_reason_rejected:
  "parse_message (message_display (new_response code [])) =
     Inl (''Invalid status line: SIP/2.0 '' @ show_nat (unat code))"
proof -
  let ?s = "''SIP/2.0 '' @ show_nat (unat code)"
  have nb: "no_break (?s @ '' '')" by (simp add: no_break_def [of "[]"])
  have d: "message_display (new_response code []) = ((?s @ '' '') @ joined []) @ crlf @ crlf @ []"
    by (simp add: message_display_joined new_response_def start_line_display_def)
  have "split_sections (message_display (new_response code [])) = (?s @ '' '', [])"
    using find_blank_line [of "[]" "?s @ '' ''" "[]"] nb unfolding d
    by (simp add: split_sections_def no_break_def crlf_def)
  moreover have "split_char CHR 0x0A (?s @ '' '') = [?s @ '' '']"
    using nb by (intro split_char_single) (simp add: no_break_def)
  moreover have "trim_end_matches CHR 0x0D (?s @ '' '') = ?s @ '' ''"
    using nb by (intro trim_cr_id) (simp add: no_break_def)
  moreover have "trim (?s @ '' '') = ?s"
  proof -
    have "trim_end (?s @ '' '') = trim_end ?s" by (simp add: trim_end_def is_ws_def)
    moreover have "\<not> is_ws (last ?s)" using trimmed_show_nat [of "unat code"] by (simp add: trimmed_def)
    ultimately show ?thesis by (simp add: trim_def trim_start_id trim_end_id is_ws_def)
  qed
  moreover have "splitn 3 CHR '' '' ?s = [''SIP/2.0'', show_nat (unat code)]"
    by (simp add: numeral_3_eq_3 show_nat_no_char is_digit_iff)
  ultimately show ?thesis
    by (simp add: parse_message_def parse_start_line_def bind_res_def starts_with_def)
qed

end
