(* ===== verification/Sip_Via.thy ===== *)
theory Sip_Via
  imports Sip_Roundtrip
begin

section \<open>Stamping the top Via\<close>

text \<open>
  The rewriting of the top Via entry with the source address of a request
  (\<^verbatim>\<open>stamp_via_received_rport\<close> of \<^verbatim>\<open>parser/mod.rs\<close>): splitting a printed entry gives
  its parts back, and stamping twice is stamping once.
\<close>

subsection \<open>Parts of an entry\<close>

definition via_param_ok :: "string \<times> string option \<Rightarrow> bool" where
  "via_param_ok kv \<longleftrightarrow> trimmed (fst kv) \<and> CHR '';'' \<notin> set (fst kv) \<and> CHR ''='' \<notin> set (fst kv)
     \<and> (case snd kv of Some v \<Rightarrow> trimmed v \<and> CHR '';'' \<notin> set v | None \<Rightarrow> fst kv \<noteq> [])"

lemma set_trim: "set (trim s) \<subseteq> set s"
  by (auto simp: trim_def trim_end_def trim_start_def dest!: set_dropWhileD)

lemma trimmed_trim_end: "s = [] \<or> \<not> is_ws (hd s) \<Longrightarrow> trimmed (trim_end s)"
proof -
  assume hd: "s = [] \<or> \<not> is_ws (hd s)"
  obtain w where s: "s = trim_end s @ w"
    unfolding trim_end_def by (metis rev_append rev_rev_ident takeWhile_dropWhile_id)
  show ?thesis
  proof (cases "trim_end s")
    case (Cons c cs)
    then have "\<not> is_ws c" using hd s by (cases s) auto
    moreover have "dropWhile is_ws (rev s) \<noteq> []" using Cons by (auto simp: trim_end_def)
    then have "\<not> is_ws (last (trim_end s))"
      using hd_dropWhile [of is_ws "rev s"] by (simp add: trim_end_def last_rev)
    ultimately show ?thesis using Cons by (simp add: trimmed_def)
  qed (simp add: trimmed_def)
qed

lemma trimmed_trim [simp]: "trimmed (trim s)"
proof -
  have "trim_start s = [] \<or> \<not> is_ws (hd (trim_start s))"
    unfolding trim_start_def by (metis hd_dropWhile)
  then show ?thesis unfolding trim_def by (rule trimmed_trim_end)
qed

lemma via_param_sound: "CHR '';'' \<notin> set p \<Longrightarrow> list_all via_param_ok (via_param p)"
  using set_trim [of p]
  by (auto simp: via_param_def Let_def via_param_ok_def split_once_None_iff split_once_Some_iff
      split: option.splits dest!: subsetD [OF set_trim])

lemma split_char_parts: "x \<in> set (split_char d s) \<Longrightarrow> d \<notin> set x"
  by (induction s arbitrary: x) (auto split: list.splits if_splits)

lemma via_split_sound:
  assumes "via_split e = (head, ps)"
  shows "trimmed head \<and> CHR '';'' \<notin> set head \<and> list_all via_param_ok ps"
proof -
  have "list_all via_param_ok (concat (map via_param (split_char CHR '';'' s)))" for s
    using split_char_parts [of _ "CHR '';''" s] via_param_sound by (fastforce simp: list_all_iff)
  moreover have "trimmed (trim_end (take i (trim e)))" for i
    by (rule trimmed_trim_end) (use trimmed_trim [of e] in \<open>auto simp: trimmed_def hd_take\<close>)
  moreover have "CHR '';'' \<notin> set (trim_end (take i (trim e)))" if "find_char CHR '';'' (trim e) = Some i" for i
    using that by (auto simp: find_char_Some_iff trim_end_def dest: set_dropWhileD)
  ultimately show ?thesis
    using assms by (auto simp: via_split_def Let_def find_char_None_iff via_param_def [of "[]"] trimmed_def [of "[]"]
        split: option.splits)
qed

lemma via_param_text:
  assumes "via_param_ok kv"
  shows "via_param (param_text kv) = [kv]"
proof -
  obtain k w where kv: "kv = (k, w)" by force
  show ?thesis
  proof (cases w)
    case None
    with assms show ?thesis by (simp add: kv via_param_ok_def param_text_def via_param_def)
  next
    case (Some v)
    with assms have "trimmed (k @ ''='' @ v)"
      by (cases k; cases v rule: rev_cases) (auto simp: kv via_param_ok_def trimmed_def)
    with assms Some show ?thesis by (simp add: kv via_param_ok_def param_text_def via_param_def)
  qed
qed

lemma via_param_text_no_sep: "via_param_ok kv \<Longrightarrow> CHR '';'' \<notin> set (param_text kv)"
  by (auto simp: via_param_ok_def param_text_def split: option.splits)

lemma via_params_parse:
  "list_all via_param_ok (p # ps) \<Longrightarrow>
     concat (map via_param (split_char CHR '';'' (param_text p @ concat (map show_param ps)))) = p # ps"
proof (induction ps arbitrary: p)
  case Nil
  then show ?case by (simp add: via_param_text via_param_text_no_sep)
next
  case (Cons q ps)
  then show ?case by (simp add: show_param_text via_param_text via_param_text_no_sep)
qed

text \<open>Splitting a printed via entry gives its parts back.\<close>

lemma param_text_trimmed_end: "via_param_ok kv \<Longrightarrow> param_text kv \<noteq> [] \<and> \<not> is_ws (last (param_text kv))"
  by (auto simp: via_param_ok_def param_text_def trimmed_def split: option.splits)

lemma params_last: "ps \<noteq> [] \<Longrightarrow> list_all via_param_ok ps \<Longrightarrow> \<not> is_ws (last (concat (map show_param ps)))"
  by (induction ps rule: rev_induct) (auto simp: show_param_text dest: param_text_trimmed_end)

lemma via_split_display:
  assumes "trimmed head" and "CHR '';'' \<notin> set head" and "list_all via_param_ok ps"
  shows "via_split (head @ concat (map show_param ps)) = (head, ps)"
proof (cases ps)
  case Nil
  have "find_char CHR '';'' head = None" using assms(2) by (simp add: find_char_None_iff)
  with assms Nil show ?thesis by (simp add: via_split_def via_param_def trimmed_def [of "[]"])
next
  case (Cons p qs)
  let ?t = "concat (map show_param ps)"
  have t: "?t = CHR '';'' # param_text p @ concat (map show_param qs)" by (simp add: Cons show_param_text)
  have "\<not> is_ws (last (head @ ?t))"
    using params_last [of ps] assms(3) Cons by (metis last_appendR list.distinct(1) t)
  moreover have "\<not> is_ws (hd (head @ ?t))" using assms(1) by (cases head) (auto simp: t trimmed_def)
  ultimately have "trim (head @ ?t) = head @ ?t" by (intro trim_id) (simp add: trimmed_def)
  moreover have "find_char CHR '';'' (head @ ?t) = Some (length head)"
    using assms(2) by (simp add: t find_char_append_eq)
  moreover have "trim_end head = head" by (rule trim_end_id) (use assms(1) in \<open>auto simp: trimmed_def\<close>)
  ultimately show ?thesis
    using assms via_params_parse [of p qs] by (simp add: via_split_def Cons [symmetric]) (simp add: t)
qed

lemma update_first_ex:
  "(\<And>x. q (f x) = q x) \<Longrightarrow> list_ex q (update_first p f xs) = list_ex q xs"
  by (induction xs) auto

lemma update_first_idem:
  "(\<And>x. p (f x) = p x) \<Longrightarrow> (\<And>x. f (f x) = f x) \<Longrightarrow> update_first p f (update_first p f xs) = update_first p f xs"
  by (induction xs) auto

lemma update_first_snoc: "\<not> p y \<Longrightarrow> update_first p f (xs @ [y]) = update_first p f xs @ [y]"
  by (induction xs) auto

lemma update_first_all: "list_all q xs \<Longrightarrow> (\<And>x. q x \<Longrightarrow> q (f x)) \<Longrightarrow> list_all q (update_first p f xs)"
  by (induction xs) auto

lemma fill_value_simps [simp]:
  "is_param n (fill_value x kv) = is_param n kv" "fill_value x (fill_value y kv) = fill_value y kv"
  by (auto simp: is_param_def fill_value_def split: option.splits)

lemma stamp_params_idem: "stamp_params src head (stamp_params src head ps) = stamp_params src head ps"
proof -
  have "\<not> is_param ''rport'' (''received'', v)" "is_param ''received'' (''received'', v)" for v
    by (simp_all add: is_param_def eq_ignore_ascii_case_def lower_char_def)
  then show ?thesis
    by (simp add: stamp_params_def Let_def update_first_ex update_first_idem update_first_snoc)
qed

lemma stamp_params_ok:
  assumes "list_all via_param_ok ps" and "without '';,'' (fst src)"
  shows "list_all via_param_ok (stamp_params src head ps)"
proof -
  have d: "trimmed (show_nat n)" "CHR '';'' \<notin> set (show_nat n)" for n
    by (simp_all add: show_nat_no_char is_digit_iff)
  then have "via_param_ok (fill_value (show_nat n) kv)" if "via_param_ok kv" for n kv
    using that by (auto simp: via_param_ok_def fill_value_def split: option.splits)
  moreover have "via_param_ok (''received'', Some (fst src))"
    using assms(2) without_trimmed without_notin [of "'';,''" "fst src" "CHR '';''"]
    by (simp add: via_param_ok_def trimmed_def [of "''received''"] is_ws_def)
  ultimately show ?thesis
    using assms(1) by (simp add: stamp_params_def Let_def update_first_all)
qed

lemma rewrite_idem:
  assumes "without '';,'' (fst src)"
  shows "rewrite_top_via_entry src (rewrite_top_via_entry src e) = rewrite_top_via_entry src e"
proof -
  obtain head ps where e: "via_split e = (head, ps)" by force
  from via_split_sound [OF e] stamp_params_ok [OF _ assms, of ps head]
  have "via_split (head @ concat (map show_param (stamp_params src head ps))) = (head, stamp_params src head ps)"
    by (intro via_split_display) simp_all
  then show ?thesis by (simp add: rewrite_top_via_entry_def e stamp_params_idem)
qed

text \<open>A comma in front of which the entry ends does not appear in the rewritten entry.\<close>

definition comma_free :: "string \<times> string option \<Rightarrow> bool" where
  "comma_free kv \<longleftrightarrow> CHR '','' \<notin> set (fst kv) \<and> (case snd kv of Some v \<Rightarrow> CHR '','' \<notin> set v | None \<Rightarrow> True)"

lemma set_trim_end: "set (trim_end s) \<subseteq> set s"
  by (auto simp: trim_end_def dest!: set_dropWhileD)

lemma via_param_comma_free: "CHR '','' \<notin> set p \<Longrightarrow> list_all comma_free (via_param p)"
  using set_trim [of p]
  by (auto simp: via_param_def Let_def comma_free_def split_once_Some_iff
      split: option.splits dest!: subsetD [OF set_trim])

lemma split_char_sub: "x \<in> set (split_char d s) \<Longrightarrow> c \<notin> set s \<Longrightarrow> c \<notin> set x"
  by (induction s arbitrary: x) (auto split: list.splits if_splits)

lemma via_split_comma_free:
  assumes "via_split e = (head, ps)" and "CHR '','' \<notin> set e"
  shows "CHR '','' \<notin> set head \<and> list_all comma_free ps"
proof -
  have e: "CHR '','' \<notin> set (trim e)" using assms(2) set_trim by blast
  have "list_all comma_free (concat (map via_param (split_char CHR '';'' s)))" if "CHR '','' \<notin> set s" for s
    using split_char_sub [of _ "CHR '';''" s "CHR '',''"] via_param_comma_free that
    by (fastforce simp: list_all_iff)
  moreover have "CHR '','' \<notin> set (drop i (trim e))" "CHR '','' \<notin> set (trim_end (take i (trim e)))" for i
    using e set_trim_end [of "take i (trim e)"] by (auto dest: in_set_dropD in_set_takeD)
  ultimately show ?thesis
    using assms(1) e by (auto simp: via_split_def Let_def via_param_def [of "[]"] trimmed_def [of "[]"]
        split: option.splits)
qed

lemma comma_free_params: "list_all comma_free ps \<Longrightarrow> CHR '','' \<notin> set (concat (map show_param ps))"
  by (induction ps) (auto simp: comma_free_def show_param_text param_text_def split: option.splits)

lemma rewrite_comma_free:
  assumes "CHR '','' \<notin> set e" and "without '';,'' (fst src)"
  shows "CHR '','' \<notin> set (rewrite_top_via_entry src e)"
proof -
  obtain head ps where e: "via_split e = (head, ps)" by force
  have "comma_free (fill_value (show_nat n) kv)" if "comma_free kv" for n kv
    using that show_nat_no_char [of "CHR '',''" n]
    by (auto simp: comma_free_def fill_value_def is_digit_iff split: option.splits)
  moreover have "comma_free (''received'', Some (fst src))"
    using assms(2) without_notin [of "'';,''" "fst src" "CHR '',''"] by (simp add: comma_free_def)
  ultimately have "list_all comma_free (stamp_params src head ps)"
    using via_split_comma_free [OF e assms(1)] by (simp add: stamp_params_def Let_def update_first_all)
  with via_split_comma_free [OF e assms(1)] comma_free_params show ?thesis
    by (simp add: rewrite_top_via_entry_def e)
qed

lemma stamp_value_idem:
  assumes "without '';,'' (fst src)"
  shows "stamp_value src (stamp_value src v) = stamp_value src v"
proof (cases "split_once CHR '','' v")
  case None
  then have "CHR '','' \<notin> set v" by (simp add: split_once_None_iff)
  with None assms show ?thesis by (simp add: stamp_value_def rewrite_comma_free rewrite_idem)
next
  case (Some p)
  obtain e rest where p: "p = (e, rest)" by force
  with Some have "CHR '','' \<notin> set e" by (simp add: split_once_Some_iff)
  with Some p assms show ?thesis by (simp add: stamp_value_def rewrite_comma_free rewrite_idem)
qed

text \<open>Stamping the top Via of a request is idempotent, as its documentation says: a second stamp
  for the same source changes nothing, whatever parameters and further entries the header has.\<close>

theorem stamp_via_idempotent:
  assumes "without '';,'' (fst src)"
  shows "stamp_via_received_rport src (stamp_via_received_rport src m) = stamp_via_received_rport src m"
proof -
  define f where "f = (\<lambda>h :: sip_header. h\<lparr>hdr_value := stamp_value src (hdr_value h)\<rparr>)"
  have "update_first (\<lambda>h. eq_ignore_ascii_case (hdr_name h) ''Via'') f
      (update_first (\<lambda>h. eq_ignore_ascii_case (hdr_name h) ''Via'') f xs) =
    update_first (\<lambda>h. eq_ignore_ascii_case (hdr_name h) ''Via'') f xs" for xs
    by (rule update_first_idem) (simp_all add: f_def stamp_value_idem [OF assms])
  then show ?thesis by (simp add: stamp_via_received_rport_def f_def [symmetric])
qed

theorem stamp_via_idempotent_witness:
  "stamp_via_received_rport (''10.0.0.9'', 5062) (stamp_via_received_rport (''10.0.0.9'', 5062)
     (add_header ''Via'' ''SIP/2.0/UDP h;rport;branch=z9'' (new_request Options ''sip:h''))) =
   stamp_via_received_rport (''10.0.0.9'', 5062)
     (add_header ''Via'' ''SIP/2.0/UDP h;rport;branch=z9'' (new_request Options ''sip:h''))"
  by (rule stamp_via_idempotent) (simp add: without_def is_ws_def)

end
