(* ===== verification/Sip_Dialog.thy ===== *)
theory Sip_Dialog
  imports Sip_Roundtrip
begin

section \<open>SIP dialogs\<close>

text \<open>
  The dialogs of \<^verbatim>\<open>asterisk-sip/src/dialog/mod.rs\<close>: their creation at either end of an INVITE,
  the validation of in-dialog requests and responses, and the sequence numbers, which are
  32-bit words. The increment of the local sequence number overflows where Rust does: a checked
  build panics there, so the operation returns an option.
\<close>

datatype dialog_validation_error = DE_CallId | DE_LocalTag | DE_RemoteTag | DE_RouteSet | DE_CSeq

datatype dialog_state = DS_Early | DS_Confirmed | DS_Terminated

record dialog =
  dlg_call_id :: string
  dlg_local_tag :: string
  dlg_remote_tag :: string
  dlg_local_seq :: u32
  dlg_remote_seq :: "u32 option"
  dlg_local_uri :: string
  dlg_remote_uri :: string
  dlg_remote_target :: string
  dlg_route_set :: "string list"
  dlg_state :: dialog_state
  dlg_is_uac :: bool

definition unwrap_or :: "'a \<Rightarrow> 'a option \<Rightarrow> 'a" where
  "unwrap_or d x = (case x of Some a \<Rightarrow> a | None \<Rightarrow> d)"

definition first_word :: "string \<Rightarrow> string option" where
  "first_word s = (case split_whitespace s of w # _ \<Rightarrow> Some w | [] \<Rightarrow> None)"

definition dlg_cseq_number :: "sip_message \<Rightarrow> u32 option" where
  "dlg_cseq_number m = Option.bind (cseq m) (\<lambda>cs. Option.bind (first_word cs) (\<lambda>n. parse_u32 n))"

definition normalize_route :: "string \<Rightarrow> string" where
  "normalize_route route = to_ascii_lowercase (concat (split_whitespace route))"

definition normalized_headers :: "sip_message \<Rightarrow> string \<Rightarrow> string list" where
  "normalized_headers m name = map normalize_route (get_headers m name)"

definition normalized_route_set :: "string list \<Rightarrow> string list" where
  "normalized_route_set routes = map normalize_route routes"

definition from_uac_response :: "sip_message \<Rightarrow> sip_message \<Rightarrow> dialog option" where
  "from_uac_response request response =
     Option.bind (call_id request) (\<lambda>cid.
     Option.bind (from_header request) (\<lambda>from_hdr.
     Option.bind (extract_tag from_hdr) (\<lambda>local_tag.
     Option.bind (to_header response) (\<lambda>to_hdr.
     Option.bind (extract_tag to_hdr) (\<lambda>remote_tag.
       let remote_target = unwrap_or [] (Option.bind (get_header response ''Contact'') extract_uri);
           local_uri = unwrap_or [] (Option.bind (get_header request ''Contact'') extract_uri);
           remote_uri = unwrap_or [] (extract_uri to_hdr);
           route_set = rev (get_headers response ''Record-Route'');
           local_seq = unwrap_or 1 (dlg_cseq_number request);
           code = (case status_code response of Some c \<Rightarrow> unat c | None \<Rightarrow> 0);
           mk = (\<lambda>st. Some \<lparr>dlg_call_id = cid, dlg_local_tag = local_tag, dlg_remote_tag = remote_tag,
                  dlg_local_seq = local_seq, dlg_remote_seq = None, dlg_local_uri = local_uri,
                  dlg_remote_uri = remote_uri, dlg_remote_target = remote_target,
                  dlg_route_set = route_set, dlg_state = st, dlg_is_uac = True\<rparr>)
       in if 200 \<le> code \<and> code < 300 then mk DS_Confirmed
          else if 100 \<le> code \<and> code < 200 then mk DS_Early
          else None)))))"

definition from_uas_request :: "sip_message \<Rightarrow> string \<Rightarrow> dialog option" where
  "from_uas_request request local_tag =
     Option.bind (call_id request) (\<lambda>cid.
     Option.bind (from_header request) (\<lambda>from_hdr.
       Some \<lparr>dlg_call_id = cid, dlg_local_tag = local_tag,
             dlg_remote_tag = unwrap_or [] (extract_tag from_hdr),
             dlg_local_seq = 0, dlg_remote_seq = dlg_cseq_number request, dlg_local_uri = [],
             dlg_remote_uri = unwrap_or [] (extract_uri from_hdr),
             dlg_remote_target = unwrap_or [] (Option.bind (get_header request ''Contact'') extract_uri),
             dlg_route_set = get_headers request ''Record-Route'',
             dlg_state = DS_Early, dlg_is_uac = False\<rparr>))"

definition next_cseq :: "dialog \<Rightarrow> (u32 \<times> dialog) option" where
  "next_cseq d =
     (if dlg_local_seq d = - 1 then None
      else let n = dlg_local_seq d + 1 in Some (n, d\<lparr>dlg_local_seq := n\<rparr>))"

definition dlg_matches :: "dialog \<Rightarrow> string \<Rightarrow> string \<Rightarrow> string \<Rightarrow> bool" where
  "dlg_matches d cid local_tag remote_tag \<longleftrightarrow>
     dlg_call_id d = cid \<and> dlg_local_tag d = local_tag \<and> dlg_remote_tag d = remote_tag"

definition request_identity_error :: "sip_message \<Rightarrow> dialog \<Rightarrow> dialog_validation_error option" where
  "request_identity_error request d =
     (if call_id request \<noteq> Some (dlg_call_id d) then Some DE_CallId
      else if Option.bind (to_header request) extract_tag \<noteq> Some (dlg_local_tag d) then Some DE_LocalTag
      else if Option.bind (from_header request) extract_tag \<noteq> Some (dlg_remote_tag d) then Some DE_RemoteTag
      else
        let routes = normalized_headers request ''Route''
        in if routes \<noteq> [] \<and> routes \<noteq> normalized_route_set (dlg_route_set d) then Some DE_RouteSet
           else None)"

definition accept_cseq ::
    "sip_method option \<Rightarrow> u32 \<Rightarrow> dialog \<Rightarrow> (dialog_validation_error + unit) \<times> dialog" where
  "accept_cseq meth n d =
     (if meth = Some Ack \<and> dlg_remote_seq d = Some n then (Inr (), d)
      else if meth = Some Ack then (Inl DE_CSeq, d)
      else if meth \<noteq> None \<and> (case dlg_remote_seq d of None \<Rightarrow> True | Some previous \<Rightarrow> previous < n)
        then (Inr (), d\<lparr>dlg_remote_seq := Some n\<rparr>)
      else (Inl DE_CSeq, d))"

definition validate_remote_request ::
    "sip_message \<Rightarrow> dialog \<Rightarrow> (dialog_validation_error + unit) \<times> dialog" where
  "validate_remote_request request d =
     (case request_identity_error request d of
        Some e \<Rightarrow> (Inl e, d)
      | None \<Rightarrow>
          (case dlg_cseq_number request of
             None \<Rightarrow> (Inl DE_CSeq, d)
           | Some n \<Rightarrow> accept_cseq (msg_method request) n d))"

definition validate_remote_response ::
    "sip_message \<Rightarrow> u32 \<Rightarrow> dialog \<Rightarrow> dialog_validation_error + unit" where
  "validate_remote_response response expected_cseq d =
     (if call_id response \<noteq> Some (dlg_call_id d) then Inl DE_CallId
      else if Option.bind (from_header response) extract_tag \<noteq> Some (dlg_local_tag d) then Inl DE_LocalTag
      else if Option.bind (to_header response) extract_tag \<noteq> Some (dlg_remote_tag d) then Inl DE_RemoteTag
      else if dlg_cseq_number response \<noteq> Some expected_cseq then Inl DE_CSeq
      else
        let record_routes = normalized_headers response ''Record-Route''
        in if record_routes \<noteq> []
              \<and> (if dlg_is_uac d then rev record_routes else record_routes)
                  \<noteq> normalized_route_set (dlg_route_set d)
           then Inl DE_RouteSet
           else Inr ())"

definition dlg_confirm :: "dialog \<Rightarrow> dialog" where
  "dlg_confirm d = d\<lparr>dlg_state := DS_Confirmed\<rparr>"

definition dlg_terminate :: "dialog \<Rightarrow> dialog" where
  "dlg_terminate d = d\<lparr>dlg_state := DS_Terminated\<rparr>"

definition dlg_is_confirmed :: "dialog \<Rightarrow> bool" where
  "dlg_is_confirmed d \<longleftrightarrow> dlg_state d = DS_Confirmed"

definition dlg_update_remote_target :: "string \<Rightarrow> dialog \<Rightarrow> dialog" where
  "dlg_update_remote_target contact_uri d = d\<lparr>dlg_remote_target := contact_uri\<rparr>"

subsection \<open>Sequence numbers\<close>

text \<open>The numbers of the requests other than ACK that a dialog accepts out of a sequence.\<close>

fun accepted_cseqs :: "dialog \<Rightarrow> sip_message list \<Rightarrow> u32 list" where
  "accepted_cseqs d [] = []"
| "accepted_cseqs d (r # rs) =
     (let (res, d') = validate_remote_request r d
      in (if res = Inr () \<and> msg_method r \<noteq> Some Ack then List.map_filter dlg_cseq_number [r] else [])
         @ accepted_cseqs d' rs)"

lemma accept_cseq_cases:
  obtains "accept_cseq meth n d = (Inl DE_CSeq, d)"
  | "accept_cseq meth n d = (Inr (), d)" "meth = Some Ack" "dlg_remote_seq d = Some n"
  | "accept_cseq meth n d = (Inr (), d\<lparr>dlg_remote_seq := Some n\<rparr>)" "meth \<noteq> Some Ack"
      "\<And>p. dlg_remote_seq d = Some p \<Longrightarrow> p < n"
proof -
  have "accept_cseq meth n d = (Inl DE_CSeq, d)
      \<or> accept_cseq meth n d = (Inr (), d) \<and> meth = Some Ack \<and> dlg_remote_seq d = Some n
      \<or> accept_cseq meth n d = (Inr (), d\<lparr>dlg_remote_seq := Some n\<rparr>) \<and> meth \<noteq> Some Ack
          \<and> (\<forall>p. dlg_remote_seq d = Some p \<longrightarrow> p < n)"
    by (cases "dlg_remote_seq d") (simp_all add: accept_cseq_def)
  with that show thesis by blast
qed

lemma validate_remote_request_cases:
  obtains (rejected) e where "validate_remote_request r d = (Inl e, d)"
  | (ack) "validate_remote_request r d = (Inr (), d)" "msg_method r = Some Ack"
      "dlg_cseq_number r = dlg_remote_seq d"
  | (request) n where "validate_remote_request r d = (Inr (), d\<lparr>dlg_remote_seq := Some n\<rparr>)"
      "msg_method r \<noteq> Some Ack" "dlg_cseq_number r = Some n" "\<And>p. dlg_remote_seq d = Some p \<Longrightarrow> p < n"
proof (cases "request_identity_error r d")
  case None
  show thesis
  proof (cases "dlg_cseq_number r")
    case None
    with \<open>request_identity_error r d = None\<close> rejected show thesis
      by (simp add: validate_remote_request_def)
  next
    case (Some n)
    with \<open>request_identity_error r d = None\<close>
    have v: "validate_remote_request r d = accept_cseq (msg_method r) n d"
      by (simp add: validate_remote_request_def)
    show thesis
      by (cases "msg_method r" n d rule: accept_cseq_cases) (use v Some that in auto)
  qed
next
  case (Some e)
  with rejected show thesis by (simp add: validate_remote_request_def)
qed

lemma accepted_cseqs_above:
  "dlg_remote_seq d = Some p \<Longrightarrow> n \<in> set (accepted_cseqs d rs) \<Longrightarrow> p < n"
proof (induction rs arbitrary: d p)
  case (Cons r rs)
  show ?case
  proof (cases r d rule: validate_remote_request_cases)
    case (rejected e)
    with Cons.prems Cons.IH [OF Cons.prems(1)] show ?thesis by simp
  next
    case ack
    with Cons.prems Cons.IH [OF Cons.prems(1)] show ?thesis by simp
  next
    case (request m)
    with Cons.prems have "p < m" and "n = m \<or> n \<in> set (accepted_cseqs (d\<lparr>dlg_remote_seq := Some m\<rparr>) rs)"
      by (simp_all add: map_filter_simps)
    moreover have "m < n" if "n \<in> set (accepted_cseqs (d\<lparr>dlg_remote_seq := Some m\<rparr>) rs)"
      using that by (rule Cons.IH [rotated]) simp
    ultimately show ?thesis by (blast intro: less_trans)
  qed
qed simp


end
