(* ===== verification/Rust_Net.thy ===== *)
theory Rust_Net
  imports Rust_Prelude
begin

section \<open>IP address literals\<close>

text \<open>
  What \<^verbatim>\<open>std::net\<close> does with the text of an address: the reader behind
  \<^verbatim>\<open>IpAddr::from_str\<close> and the printer behind \<^verbatim>\<open>Display\<close>. A socket address is
  elsewhere the pair of the printed address and the port; printing after reading gives the canonical
  text, so two texts of one address yield the same pair.
\<close>

text \<open>An address is its bits, most significant octet or segment first.\<close>

datatype ip_addr = V4 u32 | V6 "128 word"

type_synonym 'a reader = "string \<Rightarrow> ('a \<times> string) option"

definition radix_digit :: "nat \<Rightarrow> char \<Rightarrow> nat option" where
  "radix_digit radix c =
     (let l = lower_char c;
          d = (if is_digit c then Some (digit_val c)
               else if CHR ''a'' \<le> l \<and> l \<le> CHR ''z'' then Some (of_char l - 87) else None)
      in case d of Some v \<Rightarrow> if v < radix then Some v else None | None \<Rightarrow> None)"

definition read_number :: "nat \<Rightarrow> nat \<Rightarrow> nat \<Rightarrow> bool \<Rightarrow> nat reader" where
  "read_number radix max_digits max_value allow_zero_prefix s =
     (let ds = takeWhile (\<lambda>c. radix_digit radix c \<noteq> None) s;
          v = foldl (\<lambda>n c. radix * n + (case radix_digit radix c of Some d \<Rightarrow> d | None \<Rightarrow> 0)) 0 ds
      in if ds = [] \<or> max_digits < length ds \<or> max_value < v then None
         else if \<not> allow_zero_prefix \<and> hd ds = CHR ''0'' \<and> 1 < length ds then None
         else Some (v, drop (length ds) s))"

definition read_separator :: "char \<Rightarrow> nat \<Rightarrow> 'a reader \<Rightarrow> 'a reader" where
  "read_separator sep i inner s =
     (if i = 0 then inner s
      else case s of c # cs \<Rightarrow> if c = sep then inner cs else None | [] \<Rightarrow> None)"

fun read_octets :: "nat \<Rightarrow> nat \<Rightarrow> nat list reader" where
  "read_octets 0 i s = Some ([], s)"
| "read_octets (Suc k) i s =
     (case read_separator CHR ''.'' i (read_number 10 3 255 False) s of
        None \<Rightarrow> None
      | Some (g, s') \<Rightarrow> map_option (\<lambda>(gs, r). (g # gs, r)) (read_octets k (Suc i) s'))"

definition read_ipv4_addr :: "nat list reader" where
  "read_ipv4_addr = read_octets 4 0"

fun read_groups :: "nat \<Rightarrow> nat \<Rightarrow> string \<Rightarrow> nat list \<times> bool \<times> string" where
  "read_groups 0 i s = ([], False, s)"
| "read_groups (Suc k) i s =
     (case (if 0 < k then read_separator CHR '':'' i read_ipv4_addr s else None) of
        Some (os, s') \<Rightarrow> ([os ! 0 * 256 + os ! 1, os ! 2 * 256 + os ! 3], True, s')
      | None \<Rightarrow>
          (case read_separator CHR '':'' i (read_number 16 4 65535 True) s of
             None \<Rightarrow> ([], False, s)
           | Some (g, s') \<Rightarrow> (let (gs, v4, r) = read_groups k (Suc i) s' in (g # gs, v4, r))))"

definition read_ipv6_addr :: "nat list reader" where
  "read_ipv6_addr s =
     (let (head, head_ipv4, r) = read_groups 8 0 s
      in if length head = 8 then Some (head, r)
         else if head_ipv4 then None
         else case strip_prefix ''::'' r of
                None \<Rightarrow> None
              | Some r \<Rightarrow>
                  (let (tail, _, r') = read_groups (8 - (length head + 1)) 0 r
                   in Some (head @ replicate (8 - length head - length tail) 0 @ tail, r')))"

definition from_digits :: "nat \<Rightarrow> nat list \<Rightarrow> 'a::len word" where
  "from_digits base ds = foldl (\<lambda>w d. w * of_nat base + of_nat d) 0 ds"

definition parse_ip :: "string \<Rightarrow> ip_addr option" where
  "parse_ip s =
     (case read_ipv4_addr s of
        Some (os, r) \<Rightarrow> if r = [] then Some (V4 (from_digits 256 os)) else None
      | None \<Rightarrow> (case read_ipv6_addr s of
                  Some (gs, r) \<Rightarrow> if r = [] then Some (V6 (from_digits 65536 gs)) else None
                | None \<Rightarrow> None))"

definition hex_char :: "nat \<Rightarrow> char" where
  "hex_char n = (if n < 10 then digit_char n else char_of (n + 87))"

fun show_hex :: "nat \<Rightarrow> string" where
  "show_hex n = (if n < 16 then [hex_char n] else show_hex (n div 16) @ [hex_char (n mod 16)])"

declare show_hex.simps [simp del]

fun join_with :: "string \<Rightarrow> string list \<Rightarrow> string" where
  "join_with sep [] = []"
| "join_with sep [x] = x"
| "join_with sep (x # y # xs) = x @ sep @ join_with sep (y # xs)"

text \<open>The leftmost longest run of zero segments, as its start and length.\<close>

fun longest_zeroes :: "nat \<Rightarrow> nat \<times> nat \<Rightarrow> nat \<times> nat \<Rightarrow> nat list \<Rightarrow> nat \<times> nat" where
  "longest_zeroes i longest current [] = longest"
| "longest_zeroes i longest (start, len) (g # gs) =
     (if g = 0 then
        let current = (if len = 0 then i else start, len + 1)
        in longest_zeroes (Suc i) (if snd longest < len + 1 then current else longest) current gs
      else longest_zeroes (Suc i) longest (0, 0) gs)"

definition show_ipv4 :: "u32 \<Rightarrow> string" where
  "show_ipv4 ip =
     join_with ''.'' (map (\<lambda>k. show_nat (unat (drop_bit k ip AND 255))) [24, 16, 8, 0])"

definition segments :: "128 word \<Rightarrow> nat list" where
  "segments ip = map (\<lambda>k. unat (drop_bit k ip AND 65535)) [112, 96, 80, 64, 48, 32, 16, 0]"

definition show_ipv6 :: "128 word \<Rightarrow> string" where
  "show_ipv6 ip =
     (let gs = segments ip
      in if take 6 gs = [0, 0, 0, 0, 0, 65535] then ''::ffff:'' @ show_ipv4 (ucast ip)
      else let (start, len) = longest_zeroes 0 (0, 0) (0, 0) gs
           in if 1 < len
              then join_with '':'' (map show_hex (take start gs)) @ ''::''
                   @ join_with '':'' (map show_hex (drop (start + len) gs))
              else join_with '':'' (map show_hex gs))"

definition show_ip :: "ip_addr \<Rightarrow> string" where
  "show_ip ip = (case ip of V4 os \<Rightarrow> show_ipv4 os | V6 gs \<Rightarrow> show_ipv6 gs)"

definition canonical_ip :: "string \<Rightarrow> string option" where
  "canonical_ip s = map_option show_ip (parse_ip s)"

text \<open>\<^verbatim>\<open>Display\<close> of a socket address: an IPv6 address is put in brackets.\<close>

definition show_socket_addr :: "string \<times> u16 \<Rightarrow> string" where
  "show_socket_addr a =
     (if CHR '':'' \<in> set (fst a) then ''['' @ fst a @ '']:'' @ show_nat (unat (snd a))
      else fst a @ '':'' @ show_nat (unat (snd a)))"

end
