(* ===== verification/Sip_Sdp.thy ===== *)
theory Sip_Sdp
  imports Sip_Roundtrip Rust_Net
begin

section \<open>Session descriptions\<close>

text \<open>
  The SDP reader, printer and offer/answer of \<^verbatim>\<open>asterisk-sip/src/sdp/mod.rs\<close>, with the pieces
  it takes from \<^verbatim>\<open>ice.rs\<close> (candidates and options), \<^verbatim>\<open>dtls.rs\<close> (roles),
  \<^verbatim>\<open>crypto.rs\<close> (fingerprint names) and \<^verbatim>\<open>asterisk-codecs/src/lib.rs\<close> (codecs). The clock
  reading that becomes the session id is an argument. Slicing a line after its second byte cannot
  panic, since that byte is the ASCII equals sign.
\<close>

subsection \<open>Codecs, fingerprints, roles and candidates\<close>

record rtp_codec =
  codec_payload_type :: u8
  codec_name :: string
  codec_sample_rate :: u32
  codec_channels :: u8

definition codec_new :: "string \<Rightarrow> u8 \<Rightarrow> u32 \<Rightarrow> rtp_codec" where
  "codec_new name pt rate =
     \<lparr>codec_payload_type = pt, codec_name = name, codec_sample_rate = rate, codec_channels = 1\<rparr>"

datatype fingerprint_algorithm = Sha256 | Sha1

definition from_sdp_name :: "string \<Rightarrow> fingerprint_algorithm option" where
  "from_sdp_name name =
     (let n = to_ascii_lowercase name
      in if n = ''sha-256'' then Some Sha256 else if n = ''sha-1'' then Some Sha1 else None)"

primrec sdp_name :: "fingerprint_algorithm \<Rightarrow> string" where
  "sdp_name Sha256 = ''sha-256''"
| "sdp_name Sha1 = ''sha-1''"

datatype dtls_role = Role_Active | Role_Passive | Role_ActPass | Role_HoldConn

definition role_from_sdp :: "string \<Rightarrow> dtls_role option" where
  "role_from_sdp v =
     (let n = to_ascii_lowercase (trim v)
      in if n = ''active'' then Some Role_Active
         else if n = ''passive'' then Some Role_Passive
         else if n = ''actpass'' then Some Role_ActPass
         else if n = ''holdconn'' then Some Role_HoldConn
         else None)"

primrec role_sdp_value :: "dtls_role \<Rightarrow> string" where
  "role_sdp_value Role_Active = ''active''"
| "role_sdp_value Role_Passive = ''passive''"
| "role_sdp_value Role_ActPass = ''actpass''"
| "role_sdp_value Role_HoldConn = ''holdconn''"

datatype candidate_type = Cand_Host | Cand_ServerReflexive | Cand_PeerReflexive | Cand_Relay

primrec cand_sdp_str :: "candidate_type \<Rightarrow> string" where
  "cand_sdp_str Cand_Host = ''host''"
| "cand_sdp_str Cand_ServerReflexive = ''srflx''"
| "cand_sdp_str Cand_PeerReflexive = ''prflx''"
| "cand_sdp_str Cand_Relay = ''relay''"

definition cand_from_sdp_str :: "string \<Rightarrow> candidate_type option" where
  "cand_from_sdp_str s =
     (if s = ''host'' then Some Cand_Host
      else if s = ''srflx'' then Some Cand_ServerReflexive
      else if s = ''prflx'' then Some Cand_PeerReflexive
      else if s = ''relay'' then Some Cand_Relay
      else None)"

record ice_candidate =
  cand_foundation :: string
  cand_component_id :: u16
  cand_transport :: string
  cand_priority :: u32
  cand_address :: socket_addr
  cand_type :: candidate_type
  cand_related_address :: "string option"
  cand_related_port :: "u16 option"

definition to_sdp_attribute :: "ice_candidate \<Rightarrow> string" where
  "to_sdp_attribute c =
     cand_foundation c @ '' '' @ show_nat (unat (cand_component_id c)) @ '' '' @ cand_transport c @ '' ''
     @ show_nat (unat (cand_priority c)) @ '' '' @ fst (cand_address c) @ '' ''
     @ show_nat (unat (snd (cand_address c))) @ '' typ '' @ cand_sdp_str (cand_type c)
     @ (case (cand_related_address c, cand_related_port c) of
          (Some raddr, Some rport) \<Rightarrow> '' raddr '' @ raddr @ '' rport '' @ show_nat (unat rport)
        | _ \<Rightarrow> [])"

definition upper_char :: "char \<Rightarrow> char" where
  "upper_char c = (if CHR ''a'' \<le> c \<and> c \<le> CHR ''z'' then char_of (of_char c - (32 :: nat)) else c)"

fun parse_related :: "string list \<Rightarrow> string option \<times> u16 option \<Rightarrow> string option \<times> u16 option" where
  "parse_related (k # v # parts) (raddr, rport) =
     (if k = ''raddr'' then parse_related parts (canonical_ip v, rport)
      else if k = ''rport'' then parse_related parts (raddr, parse_u16 v)
      else parse_related (v # parts) (raddr, rport))"
| "parse_related [k] acc = acc"
| "parse_related [] acc = acc"

definition from_sdp_attribute :: "string \<Rightarrow> ice_candidate option" where
  "from_sdp_attribute value =
     (let parts = split_whitespace value
      in if length parts < 8 then None
         else
           Option.bind (parse_u16 (parts ! 1)) (\<lambda>component_id.
           Option.bind (parse_u32 (parts ! 3)) (\<lambda>priority.
           Option.bind (canonical_ip (parts ! 4)) (\<lambda>ip.
           Option.bind (parse_u16 (parts ! 5)) (\<lambda>port.
             if parts ! 6 \<noteq> ''typ'' then None
             else Option.bind (cand_from_sdp_str (parts ! 7)) (\<lambda>ctype.
               let (raddr, rport) = parse_related (drop 8 parts) (None, None)
               in Some \<lparr>cand_foundation = parts ! 0, cand_component_id = component_id,
                        cand_transport = map upper_char (parts ! 2), cand_priority = priority,
                        cand_address = (ip, port), cand_type = ctype,
                        cand_related_address = raddr, cand_related_port = rport\<rparr>))))))"

record ice_options =
  opt_trickle :: bool
  opt_renomination :: bool
  opt_tokens :: "string list"

definition ice_options_parse :: "string \<Rightarrow> ice_options" where
  "ice_options_parse value =
     (let tokens = split_whitespace value
      in \<lparr>opt_trickle = (''trickle'' \<in> set tokens), opt_renomination = (''renomination'' \<in> set tokens),
          opt_tokens = tokens\<rparr>)"

definition ice_options_value :: "ice_options \<Rightarrow> string" where
  "ice_options_value o' = join_with '' '' (opt_tokens o')"

subsection \<open>The description\<close>

record origin =
  org_username :: string
  org_session_id :: string
  org_session_version :: string
  org_net_type :: string
  org_addr_type :: string
  org_addr :: string

definition origin_default :: origin where
  "origin_default =
     \<lparr>org_username = ''-'', org_session_id = ''0'', org_session_version = ''0'', org_net_type = ''IN'',
      org_addr_type = ''IP4'', org_addr = ''0.0.0.0''\<rparr>"

record connection_data =
  conn_net_type :: string
  conn_addr_type :: string
  conn_addr :: string

definition connection_default :: connection_data where
  "connection_default = \<lparr>conn_net_type = ''IN'', conn_addr_type = ''IP4'', conn_addr = ''0.0.0.0''\<rparr>"

datatype bandwidth =
    ApplicationSpecific u32
  | TransportIndependent u64
  | ConferenceTotal u32

abbreviation parse_u8 :: "string \<Rightarrow> u8 option" where
  "parse_u8 s \<equiv> map_option of_nat (parse_unsigned 255 s)"

abbreviation parse_u64 :: "string \<Rightarrow> u64 option" where
  "parse_u64 s \<equiv> map_option of_nat (parse_unsigned 18446744073709551615 s)"

definition bandwidth_parse :: "string \<Rightarrow> bandwidth option" where
  "bandwidth_parse v =
     (case split_once CHR '':'' v of
        None \<Rightarrow> None
      | Some (bw_type, bw_value) \<Rightarrow>
          (let ty = trim bw_type; val = trim bw_value
           in if ty = ''AS'' then map_option ApplicationSpecific (parse_u32 val)
              else if ty = ''TIAS'' then map_option TransportIndependent (parse_u64 val)
              else if ty = ''CT'' then map_option ConferenceTotal (parse_u32 val)
              else None))"

primrec as_bps :: "bandwidth \<Rightarrow> u64" where
  "as_bps (ApplicationSpecific kbps) = ucast kbps * 1000"
| "as_bps (TransportIndependent bps) = bps"
| "as_bps (ConferenceTotal kbps) = ucast kbps * 1000"

primrec bandwidth_display :: "bandwidth \<Rightarrow> string" where
  "bandwidth_display (ApplicationSpecific kbps) = ''AS:'' @ show_nat (unat kbps)"
| "bandwidth_display (TransportIndependent bps) = ''TIAS:'' @ show_nat (unat bps)"
| "bandwidth_display (ConferenceTotal kbps) = ''CT:'' @ show_nat (unat kbps)"

datatype media_direction = SendRecv | SendOnly | RecvOnly | Inactive

type_synonym sdp_attribute = "string \<times> string option"

record media_description =
  md_media_type :: string
  md_port :: u16
  md_protocol :: string
  md_formats :: "u8 list"
  md_connection :: "connection_data option"
  md_attributes :: "sdp_attribute list"
  md_direction :: media_direction
  md_fingerprint :: "(fingerprint_algorithm \<times> string) option"
  md_setup :: "dtls_role option"
  md_rtcp_mux :: bool
  md_ice_candidates :: "ice_candidate list"
  md_bandwidth :: "bandwidth list"

definition new_audio :: "u16 \<Rightarrow> media_description" where
  "new_audio port =
     \<lparr>md_media_type = ''audio'', md_port = port, md_protocol = ''RTP/AVP'', md_formats = [0],
      md_connection = None, md_attributes = [], md_direction = SendRecv, md_fingerprint = None,
      md_setup = None, md_rtcp_mux = False, md_ice_candidates = [], md_bandwidth = []\<rparr>"

definition new_audio_dtls ::
    "u16 \<Rightarrow> fingerprint_algorithm \<Rightarrow> string \<Rightarrow> dtls_role \<Rightarrow> media_description" where
  "new_audio_dtls port alg fp role =
     (new_audio port)\<lparr>md_protocol := ''UDP/TLS/RTP/SAVPF'', md_fingerprint := Some (alg, fp),
        md_setup := Some role, md_rtcp_mux := True,
        md_attributes := [(''fingerprint'', Some (sdp_name alg @ '' '' @ fp)),
                          (''setup'', Some (role_sdp_value role)), (''rtcp-mux'', None)]\<rparr>"

definition get_rtpmap :: "media_description \<Rightarrow> u8 \<Rightarrow> string option" where
  "get_rtpmap md pt =
     (let pt_str = show_nat (unat pt)
      in case List.map_filter (\<lambda>(name, value). case value of
                  Some val \<Rightarrow> if name = ''rtpmap'' \<and> (starts_with (pt_str @ '' '') val \<or> starts_with (pt_str @ ''/'') val)
                              then Some val else None
                | None \<Rightarrow> None) (md_attributes md) of
           val # _ \<Rightarrow> Some val
         | [] \<Rightarrow> None)"

definition get_fmtp :: "media_description \<Rightarrow> u8 \<Rightarrow> string option" where
  "get_fmtp md pt =
     (case List.map_filter (\<lambda>(name, value). case value of
               Some val \<Rightarrow> if name = ''fmtp'' \<and> starts_with (show_nat (unat pt) @ '' '') val then Some val else None
             | None \<Rightarrow> None) (md_attributes md) of
        val # _ \<Rightarrow> Some val
      | [] \<Rightarrow> None)"

definition static_codec :: "u8 \<Rightarrow> rtp_codec" where
  "static_codec pt =
     (if pt = 0 then codec_new ''PCMU'' 0 8000
      else if pt = 3 then codec_new ''GSM'' 3 8000
      else if pt = 4 then codec_new ''G723'' 4 8000
      else if pt = 8 then codec_new ''PCMA'' 8 8000
      else if pt = 9 then codec_new ''G722'' 9 8000
      else if pt = 18 then codec_new ''G729'' 18 8000
      else codec_new (''unknown-'' @ show_nat (unat pt)) pt 8000)"

definition parse_rtpmap :: "u8 \<Rightarrow> string \<Rightarrow> rtp_codec option" where
  "parse_rtpmap pt rtpmap =
     (case splitn 2 CHR '' '' rtpmap of
        [_, info] \<Rightarrow>
          (let codec_info = split_char CHR ''/'' info
           in Some \<lparr>codec_payload_type = pt, codec_name = codec_info ! 0,
                    codec_sample_rate = (case (if 1 < length codec_info then parse_u32 (codec_info ! 1) else None) of
                                           Some r \<Rightarrow> r | None \<Rightarrow> 8000),
                    codec_channels = (case (if 2 < length codec_info then parse_u8 (codec_info ! 2) else None) of
                                        Some n \<Rightarrow> n | None \<Rightarrow> 1)\<rparr>)
      | _ \<Rightarrow> None)"

definition media_codecs :: "media_description \<Rightarrow> rtp_codec list" where
  "media_codecs md =
     List.map_filter (\<lambda>pt. case get_rtpmap md pt of
         Some rtpmap \<Rightarrow> parse_rtpmap pt rtpmap
       | None \<Rightarrow> Some (static_codec pt)) (md_formats md)"

record session_description =
  sd_version :: u32
  sd_origin :: origin
  sd_session_name :: string
  sd_connection :: "connection_data option"
  sd_time :: "u64 \<times> u64"
  sd_media :: "media_description list"
  sd_attributes :: "sdp_attribute list"

definition sd_default :: session_description where
  "sd_default =
     \<lparr>sd_version = 0, sd_origin = origin_default, sd_session_name = ''Asterisk'',
      sd_connection = Some connection_default, sd_time = (0, 0), sd_media = [], sd_attributes = []\<rparr>"

subsection \<open>Reading\<close>

type_synonym sdp_state = "session_description \<times> media_description option"

definition parse_or :: "'a \<Rightarrow> 'a option \<Rightarrow> 'a" where
  "parse_or d x = (case x of Some a \<Rightarrow> a | None \<Rightarrow> d)"

definition sdp_origin :: "string \<Rightarrow> origin option" where
  "sdp_origin v =
     (case splitn 6 CHR '' '' v of
        [a, b, c, d, e, f] \<Rightarrow>
          Some \<lparr>org_username = a, org_session_id = b, org_session_version = c, org_net_type = d,
                org_addr_type = e, org_addr = f\<rparr>
      | _ \<Rightarrow> None)"

definition sdp_connection :: "string \<Rightarrow> connection_data option" where
  "sdp_connection v =
     (case splitn 3 CHR '' '' v of
        [a, b, c] \<Rightarrow> Some \<lparr>conn_net_type = a, conn_addr_type = b, conn_addr = c\<rparr>
      | _ \<Rightarrow> None)"

definition sdp_time :: "string \<Rightarrow> u64 \<times> u64" where
  "sdp_time v =
     (case splitn 2 CHR '' '' v of
        [a, b] \<Rightarrow> (parse_or 0 (parse_u64 a), parse_or 0 (parse_u64 b))
      | a # _ \<Rightarrow> (parse_or 0 (parse_u64 a), 0)
      | [] \<Rightarrow> (0, 0))"

definition sdp_media :: "string \<Rightarrow> media_description option" where
  "sdp_media v =
     (case split_whitespace v of
        media_type # port # protocol # formats \<Rightarrow>
          Some \<lparr>md_media_type = media_type, md_port = parse_or 0 (parse_u16 port), md_protocol = protocol,
                md_formats = List.map_filter (\<lambda>s. parse_u8 s) formats, md_connection = None,
                md_attributes = [], md_direction = SendRecv, md_fingerprint = None, md_setup = None,
                md_rtcp_mux = False, md_ice_candidates = [], md_bandwidth = []\<rparr>
      | _ \<Rightarrow> None)"

definition direction_of :: "string \<Rightarrow> media_direction option" where
  "direction_of name =
     (if name = ''sendrecv'' then Some SendRecv
      else if name = ''sendonly'' then Some SendOnly
      else if name = ''recvonly'' then Some RecvOnly
      else if name = ''inactive'' then Some Inactive
      else None)"

definition security_attribute :: "sdp_attribute \<Rightarrow> media_description \<Rightarrow> media_description" where
  "security_attribute a md =
     (let (name, value) = a
      in if name = ''fingerprint'' then
           (case Option.bind value (\<lambda>val. Option.bind (split_once CHR '' '' val) (\<lambda>(alg_str, fp).
                   map_option (\<lambda>alg. (alg, fp)) (from_sdp_name alg_str))) of
              Some f \<Rightarrow> md\<lparr>md_fingerprint := Some f\<rparr>
            | None \<Rightarrow> md)
         else if name = ''setup'' then
           (case value of Some val \<Rightarrow> md\<lparr>md_setup := role_from_sdp val\<rparr> | None \<Rightarrow> md)
         else if name = ''rtcp-mux'' then md\<lparr>md_rtcp_mux := True\<rparr>
         else if name = ''candidate'' then
           (case Option.bind value from_sdp_attribute of
              Some candidate \<Rightarrow> md\<lparr>md_ice_candidates := md_ice_candidates md @ [candidate]\<rparr>
            | None \<Rightarrow> md)
         else md)"

definition media_attribute :: "sdp_attribute \<Rightarrow> media_description \<Rightarrow> media_description" where
  "media_attribute a md =
     (let md = (case direction_of (fst a) of Some dir \<Rightarrow> md\<lparr>md_direction := dir\<rparr> | None \<Rightarrow> md);
          md = security_attribute a md
      in md\<lparr>md_attributes := md_attributes md @ [a]\<rparr>)"

definition sdp_attribute_of :: "string \<Rightarrow> sdp_attribute" where
  "sdp_attribute_of v = (case split_once CHR '':'' v of Some (n, val) \<Rightarrow> (n, Some val) | None \<Rightarrow> (v, None))"

definition push_media :: "sdp_state \<Rightarrow> session_description" where
  "push_media st =
     (case snd st of Some md \<Rightarrow> (fst st)\<lparr>sd_media := sd_media (fst st) @ [md]\<rparr> | None \<Rightarrow> fst st)"

definition sdp_field :: "char \<Rightarrow> string \<Rightarrow> sdp_state \<Rightarrow> sdp_state" where
  "sdp_field field_type v st =
     (let (sdp, current_media) = st
      in if field_type = CHR ''v'' then (sdp\<lparr>sd_version := parse_or 0 (parse_u32 v)\<rparr>, current_media)
         else if field_type = CHR ''o'' then
           (case sdp_origin v of Some org \<Rightarrow> (sdp\<lparr>sd_origin := org\<rparr>, current_media) | None \<Rightarrow> st)
         else if field_type = CHR ''s'' then (sdp\<lparr>sd_session_name := v\<rparr>, current_media)
         else if field_type = CHR ''c'' then
           (case sdp_connection v of
              None \<Rightarrow> st
            | Some conn \<Rightarrow>
                (case current_media of
                   Some md \<Rightarrow> (sdp, Some (md\<lparr>md_connection := Some conn\<rparr>))
                 | None \<Rightarrow> (sdp\<lparr>sd_connection := Some conn\<rparr>, None)))
         else if field_type = CHR ''t'' then (sdp\<lparr>sd_time := sdp_time v\<rparr>, current_media)
         else if field_type = CHR ''m'' then (push_media st, sdp_media v)
         else if field_type = CHR ''a'' then
           (let a = sdp_attribute_of v
            in case current_media of
                 Some md \<Rightarrow> (sdp, Some (media_attribute a md))
               | None \<Rightarrow> (sdp\<lparr>sd_attributes := sd_attributes sdp @ [a]\<rparr>, None))
         else if field_type = CHR ''b'' then
           (case (bandwidth_parse v, current_media) of
              (Some bw, Some md) \<Rightarrow> (sdp, Some (md\<lparr>md_bandwidth := md_bandwidth md @ [bw]\<rparr>))
            | _ \<Rightarrow> st)
         else st)"

definition sdp_line :: "string \<Rightarrow> sdp_state \<Rightarrow> sdp_state" where
  "sdp_line line0 st =
     (let line = trim_end_matches CHR 0x0D line0
      in if length line < 2 \<or> line ! 1 \<noteq> CHR ''='' then st
         else sdp_field (hd line) (drop 2 line) st)"

definition sdp_parse :: "string \<Rightarrow> session_description" where
  "sdp_parse body = push_media (fold sdp_line (str_lines body) (sd_default, None))"

subsection \<open>Printing\<close>

definition show_connection :: "connection_data \<Rightarrow> string" where
  "show_connection c = ''c='' @ conn_net_type c @ '' '' @ conn_addr_type c @ '' '' @ conn_addr c @ crlf"

definition show_attribute :: "sdp_attribute \<Rightarrow> string" where
  "show_attribute a =
     (case snd a of Some v \<Rightarrow> ''a='' @ fst a @ '':'' @ v @ crlf | None \<Rightarrow> ''a='' @ fst a @ crlf)"

definition show_media :: "media_description \<Rightarrow> string" where
  "show_media md =
     ''m='' @ md_media_type md @ '' '' @ show_nat (unat (md_port md)) @ '' '' @ md_protocol md @ '' ''
     @ join_with '' '' (map (\<lambda>pt. show_nat (unat pt)) (md_formats md)) @ crlf
     @ (case md_connection md of Some c \<Rightarrow> show_connection c | None \<Rightarrow> [])
     @ concat (map (\<lambda>bw. ''b='' @ bandwidth_display bw @ crlf) (md_bandwidth md))
     @ concat (map show_attribute (md_attributes md))"

definition sdp_display :: "session_description \<Rightarrow> string" where
  "sdp_display s =
     ''v='' @ show_nat (unat (sd_version s)) @ crlf
     @ ''o='' @ org_username (sd_origin s) @ '' '' @ org_session_id (sd_origin s) @ '' ''
     @ org_session_version (sd_origin s) @ '' '' @ org_net_type (sd_origin s) @ '' ''
     @ org_addr_type (sd_origin s) @ '' '' @ org_addr (sd_origin s) @ crlf
     @ ''s='' @ sd_session_name s @ crlf
     @ (case sd_connection s of Some c \<Rightarrow> show_connection c | None \<Rightarrow> [])
     @ ''t='' @ show_nat (unat (fst (sd_time s))) @ '' '' @ show_nat (unat (snd (sd_time s))) @ crlf
     @ concat (map show_attribute (sd_attributes s))
     @ concat (map show_media (sd_media s))"

subsection \<open>Offer and answer\<close>

definition addr_type_for :: "string \<Rightarrow> string" where
  "addr_type_for addr = (if CHR '':'' \<in> set addr then ''IP6'' else ''IP4'')"

definition show_rtpmap :: "rtp_codec \<Rightarrow> string" where
  "show_rtpmap c =
     show_nat (unat (codec_payload_type c)) @ '' '' @ codec_name c @ ''/'' @ show_nat (unat (codec_sample_rate c))"

definition local_description :: "u64 \<Rightarrow> string \<Rightarrow> media_description list \<Rightarrow> session_description" where
  "local_description now_secs addr media =
     (let session_id = show_nat (unat now_secs)
      in \<lparr>sd_version = 0,
          sd_origin = \<lparr>org_username = ''-'', org_session_id = session_id, org_session_version = session_id,
                       org_net_type = ''IN'', org_addr_type = addr_type_for addr, org_addr = addr\<rparr>,
          sd_session_name = ''Asterisk'',
          sd_connection = Some \<lparr>conn_net_type = ''IN'', conn_addr_type = addr_type_for addr, conn_addr = addr\<rparr>,
          sd_time = (0, 0), sd_media = media, sd_attributes = []\<rparr>)"

definition create_offer :: "u64 \<Rightarrow> string \<Rightarrow> u16 \<Rightarrow> rtp_codec list \<Rightarrow> session_description" where
  "create_offer now_secs addr port codecs =
     local_description now_secs addr
       [(new_audio port)\<lparr>md_formats := map codec_payload_type codecs,
          md_attributes := map (\<lambda>c. (''rtpmap'', Some (show_rtpmap c))) codecs @ [(''sendrecv'', None)]\<rparr>]"

definition answer_direction :: "media_description \<Rightarrow> connection_data option \<Rightarrow> media_direction" where
  "answer_direction offer_media session_connection =
     (let is_zeroed = (\<lambda>c :: connection_data. conn_addr c = ''0.0.0.0'' \<or> conn_addr c = ''::'');
          held = (case md_connection offer_media of
                    Some conn \<Rightarrow> is_zeroed conn
                  | None \<Rightarrow> (case session_connection of Some c \<Rightarrow> is_zeroed c | None \<Rightarrow> False));
          effective = (if held then SendOnly else md_direction offer_media)
      in case effective of
           SendRecv \<Rightarrow> SendRecv | SendOnly \<Rightarrow> RecvOnly | RecvOnly \<Rightarrow> SendOnly | Inactive \<Rightarrow> Inactive)"

primrec direction_attr :: "media_direction \<Rightarrow> string" where
  "direction_attr SendRecv = ''sendrecv''"
| "direction_attr SendOnly = ''sendonly''"
| "direction_attr RecvOnly = ''recvonly''"
| "direction_attr Inactive = ''inactive''"

definition common_codecs :: "rtp_codec list \<Rightarrow> media_description \<Rightarrow> rtp_codec list" where
  "common_codecs supported md =
     filter (\<lambda>oc. list_ex (\<lambda>sc. eq_ignore_ascii_case (codec_name oc) (codec_name sc)
                              \<and> codec_sample_rate oc = codec_sample_rate sc) supported) (media_codecs md)"

primrec flip_role :: "dtls_role \<Rightarrow> dtls_role" where
  "flip_role Role_Active = Role_Passive"
| "flip_role Role_Passive = Role_Active"
| "flip_role Role_ActPass = Role_Active"
| "flip_role Role_HoldConn = Role_HoldConn"

definition reject_media :: "media_description \<Rightarrow> media_description" where
  "reject_media om =
     (new_audio 0)\<lparr>md_media_type := md_media_type om, md_protocol := md_protocol om,
        md_formats := md_formats om, md_direction := Inactive\<rparr>"

definition accept_media ::
    "u16 \<Rightarrow> connection_data option \<Rightarrow> rtp_codec list \<Rightarrow> media_description \<Rightarrow> media_description" where
  "accept_media port session_connection common om =
     (let dir = answer_direction om session_connection
      in (new_audio port)\<lparr>md_media_type := md_media_type om, md_protocol := md_protocol om,
           md_formats := map codec_payload_type common,
           md_attributes := map (\<lambda>c. (''rtpmap'', Some (show_rtpmap c))) common @ [(direction_attr dir, None)],
           md_direction := dir, md_fingerprint := md_fingerprint om,
           md_setup := map_option flip_role (md_setup om), md_rtcp_mux := md_rtcp_mux om\<rparr>)"

fun answer_media ::
    "u16 \<Rightarrow> connection_data option \<Rightarrow> rtp_codec list \<Rightarrow> bool \<Rightarrow> media_description list
     \<Rightarrow> media_description list" where
  "answer_media port conn supported audio_accepted [] = []"
| "answer_media port conn supported audio_accepted (om # oms) =
     (let common = common_codecs supported om
      in if eq_ignore_ascii_case (md_media_type om) ''audio'' \<and> \<not> audio_accepted \<and> common \<noteq> []
         then accept_media port conn common om # answer_media port conn supported True oms
         else reject_media om # answer_media port conn supported audio_accepted oms)"

definition create_answer ::
    "u64 \<Rightarrow> session_description \<Rightarrow> string \<Rightarrow> u16 \<Rightarrow> rtp_codec list \<Rightarrow> session_description" where
  "create_answer now_secs offer addr port supported =
     local_description now_secs addr
       (answer_media port (sd_connection offer) supported False (sd_media offer))"

subsection \<open>ICE attributes\<close>

definition attribute_value :: "string \<Rightarrow> sdp_attribute list \<Rightarrow> string option" where
  "attribute_value name as = Option.bind (find (\<lambda>a. fst a = name) as) snd"

definition ice_ufrag :: "session_description \<Rightarrow> string option" where
  "ice_ufrag s = attribute_value ''ice-ufrag'' (sd_attributes s)"

definition ice_pwd :: "session_description \<Rightarrow> string option" where
  "ice_pwd s = attribute_value ''ice-pwd'' (sd_attributes s)"

definition sd_ice_options :: "session_description \<Rightarrow> ice_options option" where
  "sd_ice_options s =
     map_option (\<lambda>a. ice_options_parse (the (snd a)))
       (find (\<lambda>a. fst a = ''ice-options'' \<and> snd a \<noteq> None) (sd_attributes s))"

definition is_ice_lite :: "session_description \<Rightarrow> bool" where
  "is_ice_lite s \<longleftrightarrow> list_ex (\<lambda>a. fst a = ''ice-lite'') (sd_attributes s)"

definition set_ice_credentials :: "string \<Rightarrow> string \<Rightarrow> session_description \<Rightarrow> session_description" where
  "set_ice_credentials ufrag pwd s =
     s\<lparr>sd_attributes := filter (\<lambda>a. fst a \<noteq> ''ice-ufrag'' \<and> fst a \<noteq> ''ice-pwd'') (sd_attributes s)
        @ [(''ice-ufrag'', Some ufrag), (''ice-pwd'', Some pwd)]\<rparr>"

definition set_ice_options :: "ice_options \<Rightarrow> session_description \<Rightarrow> session_description" where
  "set_ice_options opts s =
     s\<lparr>sd_attributes := filter (\<lambda>a. fst a \<noteq> ''ice-options'') (sd_attributes s)
        @ (if opt_tokens opts \<noteq> [] then [(''ice-options'', Some (ice_options_value opts))] else [])\<rparr>"

definition set_ice_lite :: "session_description \<Rightarrow> session_description" where
  "set_ice_lite s =
     (if is_ice_lite s then s else s\<lparr>sd_attributes := sd_attributes s @ [(''ice-lite'', None)]\<rparr>)"

definition add_ice_candidates_to_media ::
    "nat \<Rightarrow> ice_candidate list \<Rightarrow> session_description \<Rightarrow> session_description" where
  "add_ice_candidates_to_media idx cands s =
     (if length (sd_media s) \<le> idx then s
      else s\<lparr>sd_media := (sd_media s)[idx :=
             (let md = sd_media s ! idx
              in md\<lparr>md_ice_candidates := md_ice_candidates md @ cands,
                    md_attributes := md_attributes md @ map (\<lambda>c. (''candidate'', Some (to_sdp_attribute c))) cands\<rparr>)]\<rparr>)"

definition media_level_value :: "string \<Rightarrow> nat \<Rightarrow> session_description \<Rightarrow> string option option" where
  "media_level_value name idx s =
     (if idx < length (sd_media s)
      then map_option snd (find (\<lambda>a. fst a = name) (md_attributes (sd_media s ! idx))) else None)"

definition media_ice_ufrag :: "session_description \<Rightarrow> nat \<Rightarrow> string option" where
  "media_ice_ufrag s idx =
     (case media_level_value ''ice-ufrag'' idx s of Some v \<Rightarrow> v | None \<Rightarrow> ice_ufrag s)"

definition media_ice_pwd :: "session_description \<Rightarrow> nat \<Rightarrow> string option" where
  "media_ice_pwd s idx =
     (case media_level_value ''ice-pwd'' idx s of Some v \<Rightarrow> v | None \<Rightarrow> ice_pwd s)"

lemma find_filtered_append:
  "\<forall>a \<in> set as. \<not> P a \<Longrightarrow> find P (as @ bs) = find P bs"
  by (induction as) auto

lemma set_ice_credentials_read:
  "ice_ufrag (set_ice_credentials u p s) = Some u \<and> ice_pwd (set_ice_credentials u p s) = Some p"
  by (simp add: set_ice_credentials_def ice_ufrag_def ice_pwd_def attribute_value_def find_filtered_append)

end
