(* ===== verification/Sip_Offer.thy ===== *)
theory Sip_Offer
  imports Sip_Sdp
begin

section \<open>Session descriptions: round trip and offer/answer\<close>

text \<open>
  Reading back a printed description, the shape of an answer against its offer, and what is lost
  of the codecs of an offer.
\<close>

subsection \<open>Words and lines\<close>

definition token :: "string \<Rightarrow> bool" where
  "token s \<longleftrightarrow> s \<noteq> [] \<and> (\<forall>c \<in> set s. \<not> is_ws c)"

definition field_ok :: "string \<Rightarrow> bool" where
  "field_ok s \<longleftrightarrow> CHR '' '' \<notin> set s \<and> no_break s"

lemma token_no_space: "token s \<Longrightarrow> CHR '' '' \<notin> set s"
  by (auto simp: token_def is_ws_def)

lemma token_no_break: "token s \<Longrightarrow> no_break s"
  by (simp add: token_def no_break_no_ws)

lemma token_show_nat [simp]: "token (show_nat n)"
  by (auto simp: token_def dest: show_nat_chars)

lemma map_token: "token s \<Longrightarrow> map (\<lambda>c. if is_ws c then CHR '' '' else c) s = s"
  by (simp add: token_def map_idI)

lemma space_is_ws [simp]: "is_ws CHR '' ''"
  by (simp add: is_ws_def)

lemma split_whitespace_token: "token a \<Longrightarrow> split_whitespace a = [a]"
  using token_no_space [of a] map_token [of a] by (simp add: split_whitespace_def token_def)

lemma split_whitespace_Cons:
  "token a \<Longrightarrow> split_whitespace (a @ '' '' @ s) = a # split_whitespace s"
  using token_no_space [of a] map_token [of a] by (simp add: split_whitespace_def token_def)

lemma split_whitespace_Nil [simp]: "split_whitespace [] = []"
  by (simp add: split_whitespace_def)

lemma split_whitespace_join:
  "\<forall>w \<in> set ws. token w \<Longrightarrow> split_whitespace (join_with '' '' ws) = ws"
  by (induction "'' ''" ws rule: join_with.induct)
    (simp_all add: split_whitespace_token split_whitespace_Cons [simplified])

lemma str_lines_crlf:
  assumes "\<forall>l \<in> set ls. no_break l"
  shows "str_lines (concat (map (\<lambda>l. l @ crlf) ls)) = ls"
proof -
  have "split_char CHR 0x0A (concat (map (\<lambda>l. l @ crlf) ls)) = map (\<lambda>l. l @ [CHR 0x0D]) ls @ [[]]"
    using assms
  proof (induction ls)
    case (Cons l ls)
    then have "CHR 0x0A \<notin> set (l @ [CHR 0x0D])" by (auto simp: no_break_def)
    from split_char_append [OF this] Cons show ?case by (simp add: crlf_def)
  qed simp
  then show ?thesis by (simp add: str_lines_def strip_cr_def o_def)
qed

subsection \<open>The lines of a printed description\<close>

definition connection_line :: "connection_data \<Rightarrow> string" where
  "connection_line c = ''c='' @ conn_net_type c @ '' '' @ conn_addr_type c @ '' '' @ conn_addr c"

definition attribute_line :: "sdp_attribute \<Rightarrow> string" where
  "attribute_line a = ''a='' @ fst a @ (case snd a of Some v \<Rightarrow> '':'' @ v | None \<Rightarrow> [])"

definition media_line :: "media_description \<Rightarrow> string" where
  "media_line md =
     ''m='' @ md_media_type md @ '' '' @ show_nat (unat (md_port md)) @ '' '' @ md_protocol md @ '' ''
     @ join_with '' '' (map (\<lambda>pt. show_nat (unat pt)) (md_formats md))"

definition media_lines :: "media_description \<Rightarrow> string list" where
  "media_lines md =
     media_line md # (case md_connection md of Some c \<Rightarrow> [connection_line c] | None \<Rightarrow> [])
     @ map (\<lambda>bw. ''b='' @ bandwidth_display bw) (md_bandwidth md) @ map attribute_line (md_attributes md)"

definition session_lines :: "session_description \<Rightarrow> string list" where
  "session_lines s =
     [''v='' @ show_nat (unat (sd_version s)),
      ''o='' @ org_username (sd_origin s) @ '' '' @ org_session_id (sd_origin s) @ '' ''
        @ org_session_version (sd_origin s) @ '' '' @ org_net_type (sd_origin s) @ '' ''
        @ org_addr_type (sd_origin s) @ '' '' @ org_addr (sd_origin s),
      ''s='' @ sd_session_name s]
     @ (case sd_connection s of Some c \<Rightarrow> [connection_line c] | None \<Rightarrow> [])
     @ [''t='' @ show_nat (unat (fst (sd_time s))) @ '' '' @ show_nat (unat (snd (sd_time s)))]
     @ map attribute_line (sd_attributes s)"

lemma show_attribute_line: "show_attribute = (\<lambda>a. attribute_line a @ crlf)"
  by (rule ext) (simp add: show_attribute_def attribute_line_def split: option.split)

lemma show_connection_line: "show_connection c = connection_line c @ crlf"
  by (simp add: show_connection_def connection_line_def)

lemma show_media_lines: "show_media = (\<lambda>md. concat (map (\<lambda>l. l @ crlf) (media_lines md)))"
  by (rule ext) (simp add: show_media_def media_lines_def media_line_def show_connection_line
      show_attribute_line o_def split: option.split)

lemma concat_lines:
  "concat (map (\<lambda>x. concat (map g (f x))) xs) = concat (map g (concat (map f xs)))"
  by (induction xs) simp_all

lemma sdp_display_lines:
  "sdp_display s = concat (map (\<lambda>l. l @ crlf) (session_lines s @ concat (map media_lines (sd_media s))))"
  by (simp add: sdp_display_def session_lines_def show_connection_line show_attribute_line
      show_media_lines o_def concat_lines split: option.split)

subsection \<open>Well-formed descriptions\<close>

definition connection_ok :: "connection_data \<Rightarrow> bool" where
  "connection_ok c \<longleftrightarrow> field_ok (conn_net_type c) \<and> field_ok (conn_addr_type c) \<and> no_break (conn_addr c)"

definition attribute_ok :: "sdp_attribute \<Rightarrow> bool" where
  "attribute_ok a \<longleftrightarrow>
     CHR '':'' \<notin> set (fst a) \<and> no_break (fst a) \<and> (case snd a of Some v \<Rightarrow> no_break v | None \<Rightarrow> True)"

text \<open>What the reader derives from the attributes of a stream agrees with them.\<close>

definition bare_media :: "media_description \<Rightarrow> media_description" where
  "bare_media md =
     md\<lparr>md_attributes := [], md_direction := SendRecv, md_fingerprint := None, md_setup := None,
        md_rtcp_mux := False, md_ice_candidates := []\<rparr>"

definition media_ok :: "media_description \<Rightarrow> bool" where
  "media_ok md \<longleftrightarrow>
     token (md_media_type md) \<and> token (md_protocol md)
     \<and> (case md_connection md of Some c \<Rightarrow> connection_ok c | None \<Rightarrow> True)
     \<and> list_all attribute_ok (md_attributes md)
     \<and> fold media_attribute (md_attributes md) (bare_media md) = md"

definition sdp_wf :: "session_description \<Rightarrow> bool" where
  "sdp_wf s \<longleftrightarrow>
     field_ok (org_username (sd_origin s)) \<and> field_ok (org_session_id (sd_origin s))
     \<and> field_ok (org_session_version (sd_origin s)) \<and> field_ok (org_net_type (sd_origin s))
     \<and> field_ok (org_addr_type (sd_origin s)) \<and> no_break (org_addr (sd_origin s))
     \<and> no_break (sd_session_name s)
     \<and> (case sd_connection s of Some c \<Rightarrow> connection_ok c | None \<Rightarrow> False)
     \<and> list_all attribute_ok (sd_attributes s) \<and> list_all media_ok (sd_media s)"

subsection \<open>Reading one line\<close>

lemma sdp_line_field: "no_break v \<Longrightarrow> c \<noteq> CHR 0x0D \<Longrightarrow> sdp_line (c # CHR ''='' # v) st = sdp_field c v st"
  by (simp add: sdp_line_def trim_cr_id no_break_def)

lemma sdp_field_simps:
  "sdp_field CHR ''v'' v (sdp, cur) = (sdp\<lparr>sd_version := parse_or 0 (parse_u32 v)\<rparr>, cur)"
  "sdp_field CHR ''o'' v (sdp, cur) =
     (case sdp_origin v of Some org \<Rightarrow> (sdp\<lparr>sd_origin := org\<rparr>, cur) | None \<Rightarrow> (sdp, cur))"
  "sdp_field CHR ''s'' v (sdp, cur) = (sdp\<lparr>sd_session_name := v\<rparr>, cur)"
  "sdp_field CHR ''t'' v (sdp, cur) = (sdp\<lparr>sd_time := sdp_time v\<rparr>, cur)"
  "sdp_field CHR ''m'' v (sdp, cur) = (push_media (sdp, cur), sdp_media v)"
  "sdp_field CHR ''a'' v (sdp, None) = (sdp\<lparr>sd_attributes := sd_attributes sdp @ [sdp_attribute_of v]\<rparr>, None)"
  "sdp_field CHR ''a'' v (sdp, Some md) = (sdp, Some (media_attribute (sdp_attribute_of v) md))"
  by (simp_all add: sdp_field_def Let_def)

lemma parse_u32_show [simp]: "parse_u32 (show_nat (unat (w :: u32))) = Some w"
  using unsigned_less [of w, where 'a = nat] by simp

lemma parse_u64_show [simp]: "parse_u64 (show_nat (unat (w :: u64))) = Some w"
  using unsigned_less [of w, where 'a = nat] by simp

lemma parse_u8_show [simp]: "parse_u8 (show_nat (unat (w :: u8))) = Some w"
  using unsigned_less [of w, where 'a = nat] by simp

lemma splitn_skip:
  "d \<notin> set a \<Longrightarrow> splitn (Suc (Suc n)) d (a @ d # s) = a # splitn (Suc n) d s"
  by simp

lemma sdp_connection_line:
  "connection_ok c \<Longrightarrow> sdp_connection (conn_net_type c @ '' '' @ conn_addr_type c @ '' '' @ conn_addr c) = Some c"
  by (cases c) (simp add: sdp_connection_def connection_ok_def field_ok_def eval_nat_numeral)

lemma connection_line_no_break: "connection_ok c \<Longrightarrow> no_break (connection_line c)"
  by (simp add: connection_line_def connection_ok_def field_ok_def)

lemma sdp_line_connection:
  assumes "connection_ok c"
  shows "sdp_line (connection_line c) (sdp, None) = (sdp\<lparr>sd_connection := Some c\<rparr>, None)"
    and "sdp_line (connection_line c) (sdp, Some md) = (sdp, Some (md\<lparr>md_connection := Some c\<rparr>))"
  using connection_line_no_break [OF assms] sdp_connection_line [OF assms]
  by (simp_all add: connection_line_def sdp_line_field sdp_field_def Let_def)

lemma attribute_line_read:
  "attribute_ok a \<Longrightarrow> sdp_line (attribute_line a) st = sdp_field CHR ''a'' (drop 2 (attribute_line a)) st
     \<and> sdp_attribute_of (drop 2 (attribute_line a)) = a"
  by (cases a) (auto simp: attribute_line_def attribute_ok_def sdp_attribute_of_def sdp_line_field
      split: option.splits)

lemma fold_session_attributes:
  "list_all attribute_ok as \<Longrightarrow>
     fold sdp_line (map attribute_line as) (sdp, None) = (sdp\<lparr>sd_attributes := sd_attributes sdp @ as\<rparr>, None)"
  by (induction as arbitrary: sdp) (simp_all add: attribute_line_read sdp_field_simps)

lemma fold_media_attributes:
  "list_all attribute_ok as \<Longrightarrow>
     fold sdp_line (map attribute_line as) (sdp, Some md) = (sdp, Some (fold media_attribute as md))"
  by (induction as arbitrary: md) (simp_all add: attribute_line_read sdp_field_simps)

lemma trim_bandwidth_types: "trim ''AS'' = ''AS''" "trim ''TIAS'' = ''TIAS''" "trim ''CT'' = ''CT''"
  by (simp_all add: trimmed_def is_ws_def)

lemma bandwidth_roundtrip: "bandwidth_parse (bandwidth_display bw) = Some bw"
  using parse_u32_show parse_u64_show
  by (cases bw) (simp_all add: bandwidth_parse_def trim_bandwidth_types)

lemma no_break_bandwidth: "no_break (bandwidth_display bw)"
  by (cases bw) simp_all

lemma fold_bandwidth:
  "fold sdp_line (map (\<lambda>bw. ''b='' @ bandwidth_display bw) bws) (sdp, Some md)
     = (sdp, Some (md\<lparr>md_bandwidth := md_bandwidth md @ bws\<rparr>))"
  by (induction bws arbitrary: md)
    (simp_all add: sdp_line_field no_break_bandwidth sdp_field_def bandwidth_roundtrip Let_def)

subsection \<open>The round trip\<close>

lemma no_break_Nil [simp]: "no_break []"
  by (simp add: no_break_def)

lemma no_break_join: "\<forall>w \<in> set ws. no_break w \<Longrightarrow> no_break (join_with '' '' ws)"
  by (induction "'' ''" ws rule: join_with.induct) simp_all

lemma parse_or_Some [simp]: "parse_or d (Some x) = x"
  by (simp add: parse_or_def)

lemma formats_read: "List.map_filter (\<lambda>s. parse_u8 s) (map (\<lambda>pt. show_nat (unat pt)) fs) = fs"
  using parse_u8_show by (induction fs) (simp_all add: map_filter_simps)

lemma media_line_read:
  assumes "token (md_media_type md)" and "token (md_protocol md)"
  shows "sdp_line (media_line md) (sdp, cur) =
    (push_media (sdp, cur), Some ((bare_media md)\<lparr>md_connection := None, md_bandwidth := []\<rparr>))"
proof -
  let ?fs = "map (\<lambda>pt. show_nat (unat pt)) (md_formats md)"
  let ?v = "md_media_type md @ '' '' @ show_nat (unat (md_port md)) @ '' '' @ md_protocol md @ '' ''
     @ join_with '' '' ?fs"
  have "split_whitespace ?v = md_media_type md # show_nat (unat (md_port md)) # md_protocol md # ?fs"
    using assms split_whitespace_join [of ?fs]
    by (simp add: split_whitespace_Cons [simplified])
  then have "sdp_media ?v = Some ((bare_media md)\<lparr>md_connection := None, md_bandwidth := []\<rparr>)"
    using parse_u16_show [of "md_port md"]
    by (cases md) (simp add: sdp_media_def formats_read bare_media_def)
  moreover have "no_break (join_with '' '' ?fs)"
    by (rule no_break_join) simp
  then have "no_break ?v" using assms by (simp add: token_no_break)
  ultimately show ?thesis by (simp add: media_line_def sdp_line_field sdp_field_simps)
qed

lemma media_lines_read:
  assumes "media_ok md"
  shows "fold sdp_line (media_lines md) (sdp, cur) = (push_media (sdp, cur), Some md)"
proof -
  from assms have head: "sdp_line (media_line md) (sdp, cur) =
      (push_media (sdp, cur), Some ((bare_media md)\<lparr>md_connection := None, md_bandwidth := []\<rparr>))"
    by (simp add: media_ok_def media_line_read)
  let ?md1 = "(bare_media md)\<lparr>md_bandwidth := []\<rparr>"
  have conn: "fold sdp_line (case md_connection md of Some c \<Rightarrow> [connection_line c] | None \<Rightarrow> [])
      (push_media (sdp, cur), Some ((bare_media md)\<lparr>md_connection := None, md_bandwidth := []\<rparr>))
      = (push_media (sdp, cur), Some ?md1)"
    using assms
    by (cases "md_connection md"; cases md) (simp_all add: sdp_line_connection media_ok_def bare_media_def)
  have bw: "(bare_media md)\<lparr>md_bandwidth := md_bandwidth md\<rparr> = bare_media md"
    by (cases md) (simp add: bare_media_def)
  from assms have "fold media_attribute (md_attributes md) (bare_media md) = md"
    and "list_all attribute_ok (md_attributes md)"
    by (simp_all add: media_ok_def)
  then show ?thesis
    by (simp add: media_lines_def head conn fold_bandwidth [simplified] bw fold_media_attributes)
qed

lemma all_media_read:
  assumes "list_all media_ok mds"
  shows "push_media (fold sdp_line (concat (map media_lines mds)) (sdp, cur))
    = (push_media (sdp, cur))\<lparr>sd_media := sd_media (push_media (sdp, cur)) @ mds\<rparr>"
  using assms
proof (induction mds arbitrary: sdp cur)
  case (Cons md mds)
  then show ?case by (simp add: media_lines_read push_media_def)
qed simp

lemma sdp_origin_read:
  assumes "sdp_wf s"
  shows "sdp_origin (org_username (sd_origin s) @ '' '' @ org_session_id (sd_origin s) @ '' ''
        @ org_session_version (sd_origin s) @ '' '' @ org_net_type (sd_origin s) @ '' ''
        @ org_addr_type (sd_origin s) @ '' '' @ org_addr (sd_origin s)) = Some (sd_origin s)"
  using assms by (cases "sd_origin s") (simp add: sdp_origin_def sdp_wf_def field_ok_def eval_nat_numeral)

lemma sdp_time_read: "sdp_time (show_nat (unat a) @ '' '' @ show_nat (unat b)) = (a, b)"
proof -
  have "CHR '' '' \<notin> set (show_nat (unat a))" by (rule token_no_space) simp
  then show ?thesis using parse_u64_show [of a] parse_u64_show [of b]
    by (simp add: sdp_time_def numeral_2_eq_2)
qed

lemma session_lines_read:
  assumes "sdp_wf s"
  shows "fold sdp_line (session_lines s) (sd_default, None) = (s\<lparr>sd_media := []\<rparr>, None)"
proof -
  let ?org = "org_username (sd_origin s) @ '' '' @ org_session_id (sd_origin s) @ '' ''
        @ org_session_version (sd_origin s) @ '' '' @ org_net_type (sd_origin s) @ '' ''
        @ org_addr_type (sd_origin s) @ '' '' @ org_addr (sd_origin s)"
  have org: "no_break ?org" using assms by (simp add: sdp_wf_def field_ok_def)
  have v: "sdp_line (''v='' @ show_nat (unat (sd_version s))) (d, None) = (d\<lparr>sd_version := sd_version s\<rparr>, None)"
    and t: "sdp_line (''t='' @ show_nat (unat (fst (sd_time s))) @ '' '' @ show_nat (unat (snd (sd_time s)))) (d, None)
      = (d\<lparr>sd_time := sd_time s\<rparr>, None)"
    and o: "sdp_line (''o='' @ ?org) (d, None) = (d\<lparr>sd_origin := sd_origin s\<rparr>, None)"
    and n: "sdp_line (''s='' @ sd_session_name s) (d, None) = (d\<lparr>sd_session_name := sd_session_name s\<rparr>, None)"
    for d
    using assms org sdp_origin_read [OF assms] sdp_time_read [of "fst (sd_time s)" "snd (sd_time s)"]
      parse_u32_show [of "sd_version s"]
    by (simp_all add: sdp_line_field sdp_field_simps sdp_wf_def)
  obtain c where c: "sd_connection s = Some c" "connection_ok c"
    using assms by (auto simp: sdp_wf_def split: option.splits)
  have "list_all attribute_ok (sd_attributes s)" using assms by (simp add: sdp_wf_def)
  then show ?thesis
    using c by (simp add: session_lines_def v [simplified] o [simplified] n [simplified] t [simplified]
        sdp_line_connection fold_session_attributes sd_default_def)
qed

lemma sdp_lines_no_break:
  assumes "sdp_wf s"
  shows "\<forall>l \<in> set (session_lines s @ concat (map media_lines (sd_media s))). no_break l"
proof -
  have attr: "attribute_ok a \<Longrightarrow> no_break (attribute_line a)" for a
    by (auto simp: attribute_ok_def attribute_line_def split: option.splits)
  have media: "no_break l" if "media_ok md" and "l \<in> set (media_lines md)" for md l
    using that attr connection_line_no_break
    by (auto simp: media_lines_def media_ok_def media_line_def token_no_break no_break_join
        no_break_bandwidth list_all_iff split: option.splits)
  show ?thesis
    using assms attr media connection_line_no_break
    by (auto simp: sdp_wf_def session_lines_def field_ok_def list_all_iff split: option.splits)
qed

lemma sdp_roundtrip_aux:
  assumes "sdp_wf s"
  shows "sdp_parse (sdp_display s) = s"
proof -
  have "str_lines (sdp_display s) = session_lines s @ concat (map media_lines (sd_media s))"
    using str_lines_crlf [OF sdp_lines_no_break [OF assms]] by (simp only: sdp_display_lines)
  then have "sdp_parse (sdp_display s) =
      push_media (fold sdp_line (concat (map media_lines (sd_media s))) (s\<lparr>sd_media := []\<rparr>, None))"
    using session_lines_read [OF assms] by (simp add: sdp_parse_def)
  also have "\<dots> = s"
    using assms by (subst all_media_read) (simp_all add: sdp_wf_def push_media_def)
  finally show ?thesis .
qed


subsection \<open>Offers\<close>

lemma rtpmap_attribute: "media_attribute (''rtpmap'', v) md = md\<lparr>md_attributes := md_attributes md @ [(''rtpmap'', v)]\<rparr>"
  by (simp add: media_attribute_def security_attribute_def direction_of_def)

lemma fold_rtpmaps:
  "fold media_attribute (map (\<lambda>c. (''rtpmap'', Some (show_rtpmap c))) cs) md
     = md\<lparr>md_attributes := md_attributes md @ map (\<lambda>c. (''rtpmap'', Some (show_rtpmap c))) cs\<rparr>"
  by (induction cs arbitrary: md) (simp_all add: rtpmap_attribute)

lemma no_break_rtpmap: "no_break (codec_name c) \<Longrightarrow> no_break (show_rtpmap c)"
  by (simp add: show_rtpmap_def)

lemma direction_attribute:
  "media_attribute (direction_attr dir, None) md
     = md\<lparr>md_direction := dir, md_attributes := md_attributes md @ [(direction_attr dir, None)]\<rparr>"
  by (cases dir) (simp_all add: media_attribute_def security_attribute_def direction_of_def)

lemma stream_ok:
  assumes "token ty" and "token proto" and "\<forall>c \<in> set codecs. no_break (codec_name c)"
  shows "media_ok ((new_audio port)\<lparr>md_media_type := ty, md_protocol := proto, md_formats := fs,
     md_attributes := map (\<lambda>c. (''rtpmap'', Some (show_rtpmap c))) codecs @ [(direction_attr dir, None)],
     md_direction := dir\<rparr>)"
proof -
  have "no_break (direction_attr dir)" "CHR '':'' \<notin> set (direction_attr dir)"
    by (cases dir; simp)+
  with assms show ?thesis
    by (simp add: media_ok_def new_audio_def bare_media_def fold_rtpmaps direction_attribute
        list_all_iff attribute_ok_def no_break_rtpmap)
qed

lemma local_description_wf:
  assumes "no_break addr" and "list_all media_ok mds"
  shows "sdp_wf (local_description now_secs addr mds)"
proof -
  have "field_ok (addr_type_for addr)" "field_ok (show_nat (unat now_secs))"
    using token_show_nat [of "unat now_secs"]
    by (simp_all add: addr_type_for_def field_ok_def token_no_space)
  with assms show ?thesis
    by (simp add: local_description_def sdp_wf_def Let_def field_ok_def connection_ok_def)
qed

lemma create_offer_wf:
  assumes "no_break addr" and "\<forall>c \<in> set codecs. no_break (codec_name c)"
  shows "sdp_wf (create_offer now_secs addr port codecs)"
proof -
  have "token ''audio''" "token ''RTP/AVP''" by (simp_all add: token_def is_ws_def)
  from stream_ok [OF this assms(2), where port = port and fs = "map codec_payload_type codecs" and dir = SendRecv]
  show ?thesis
    unfolding create_offer_def
    by (intro local_description_wf assms(1)) (simp add: new_audio_def)
qed


lemma splitn_rtpmap:
  "splitn 2 CHR '' '' (show_rtpmap c)
     = [show_nat (unat (codec_payload_type c)), codec_name c @ ''/'' @ show_nat (unat (codec_sample_rate c))]"
proof -
  have "CHR '' '' \<notin> set (show_nat (unat (codec_payload_type c)))" by (rule token_no_space) simp
  then show ?thesis by (simp add: show_rtpmap_def numeral_2_eq_2)
qed

lemma parse_rtpmap_show:
  assumes "CHR ''/'' \<notin> set (codec_name c)"
  shows "parse_rtpmap (codec_payload_type c) (show_rtpmap c) = Some (c\<lparr>codec_channels := 1\<rparr>)"
proof -
  have "CHR ''/'' \<notin> set (show_nat n)" for n by (rule show_nat_no_char) (simp add: is_digit_iff)
  then have "split_char CHR ''/'' (codec_name c @ ''/'' @ show_nat (unat (codec_sample_rate c)))
      = [codec_name c, show_nat (unat (codec_sample_rate c))]"
    using assms by simp
  then show ?thesis
    using splitn_rtpmap [of c] parse_u32_show [of "codec_sample_rate c"]
    by (cases c) (simp add: parse_rtpmap_def)
qed

lemma starts_with_number:
  assumes d: "\<not> is_digit d" and e: "\<not> is_digit e"
  shows "starts_with (show_nat m @ [d]) (show_nat n @ e # s) \<longleftrightarrow> m = n \<and> d = e"
proof
  assume "starts_with (show_nat m @ [d]) (show_nat n @ e # s)"
  then obtain t where eq: "show_nat n @ e # s = show_nat m @ d # t" by (auto simp: starts_with_iff)
  have split: "takeWhile is_digit (show_nat k @ x # r) = show_nat k"
    "dropWhile is_digit (show_nat k @ x # r) = x # r" if "\<not> is_digit x" for k x r
    using that show_nat_chars [of _ k] by (simp_all add: takeWhile_append dropWhile_append)
  from eq have "show_nat m = show_nat n" and "d = e"
    using split [OF d, of m t] split [OF e, of n s] by simp_all
  then show "m = n \<and> d = e" using digits_val_show_nat by metis
qed (simp add: starts_with_def)

lemma filter_distinct_key: "c \<in> set cs \<Longrightarrow> distinct (map f cs) \<Longrightarrow> filter (\<lambda>d. f c = f d) cs = [c]"
proof (induction cs)
  case (Cons d cs)
  then show ?case
    by (cases "c = d") (auto simp: filter_empty_conv image_iff)
qed simp

lemma get_rtpmap_show:
  assumes "c \<in> set codecs" and "distinct (map codec_payload_type codecs)"
    and "md_attributes md = map (\<lambda>c. (''rtpmap'', Some (show_rtpmap c))) codecs @ [(direction_attr dir, None)]"
  shows "get_rtpmap md (codec_payload_type c) = Some (show_rtpmap c)"
proof -
  define pt where "pt = codec_payload_type c"
  have digits: "\<not> is_digit CHR '' ''" "\<not> is_digit CHR ''/''" by (simp_all add: is_digit_iff)
  have here: "starts_with (show_nat (unat pt) @ '' '') (show_rtpmap d)
        \<or> starts_with (show_nat (unat pt) @ ''/'') (show_rtpmap d) \<longleftrightarrow> pt = codec_payload_type d" for d
    using starts_with_number [OF digits(1) digits(1), of "unat pt" "unat (codec_payload_type d)"]
      starts_with_number [OF digits(2) digits(1), of "unat pt" "unat (codec_payload_type d)"]
    by (auto simp: show_rtpmap_def word_unat_eq_iff)
  let ?P = "\<lambda>(name, value). case value of
      Some val \<Rightarrow> if name = ''rtpmap'' \<and> (starts_with (show_nat (unat pt) @ '' '') val
          \<or> starts_with (show_nat (unat pt) @ ''/'') val) then Some val else None
    | None \<Rightarrow> None"
  have "List.map_filter ?P (map (\<lambda>c. (''rtpmap'', Some (show_rtpmap c))) cs @ [(direction_attr dir, None)])
      = map show_rtpmap (filter (\<lambda>d. pt = codec_payload_type d) cs)" for cs
    by (induction cs) (auto simp: map_filter_simps here)
  moreover have "filter (\<lambda>d. pt = codec_payload_type d) codecs = [c]"
    unfolding pt_def using assms(1,2) by (rule filter_distinct_key)
  ultimately show ?thesis
    unfolding get_rtpmap_def Let_def assms(3) pt_def [symmetric] by simp
qed

text \<open>
  The peer that reads an offer recovers every codec it lists, in order, with payload type,
  name and sample rate, but always as a one-channel codec: the printer leaves the channel count out
  of the rtpmap attribute. The two-channel opus codec of the PBX is therefore offered as mono.
\<close>
theorem offer_codecs_lose_channels:
  assumes "no_break addr" and "distinct (map codec_payload_type codecs)"
    and "\<forall>c \<in> set codecs. no_break (codec_name c) \<and> CHR ''/'' \<notin> set (codec_name c)"
  shows "map media_codecs (sd_media (sdp_parse (sdp_display (create_offer now_secs addr port codecs))))
    = [map (\<lambda>c. c\<lparr>codec_channels := 1\<rparr>) codecs]"
proof -
  have parsed: "sdp_parse (sdp_display (create_offer now_secs addr port codecs)) = create_offer now_secs addr port codecs"
    using assms by (intro sdp_roundtrip_aux create_offer_wf) auto
  let ?md = "(new_audio port)\<lparr>md_formats := map codec_payload_type codecs,
    md_attributes := map (\<lambda>c. (''rtpmap'', Some (show_rtpmap c))) codecs @ [(direction_attr SendRecv, None)]\<rparr>"
  have "List.map_filter (\<lambda>pt. case get_rtpmap ?md pt of Some rtpmap \<Rightarrow> parse_rtpmap pt rtpmap
        | None \<Rightarrow> Some (static_codec pt)) (map codec_payload_type cs) = map (\<lambda>c. c\<lparr>codec_channels := 1\<rparr>) cs"
    if "set cs \<subseteq> set codecs" for cs
    using that
  proof (induction cs)
    case (Cons c cs)
    then have "get_rtpmap ?md (codec_payload_type c) = Some (show_rtpmap c)"
      using assms(2) by (intro get_rtpmap_show [where dir = SendRecv]) auto
    moreover have "parse_rtpmap (codec_payload_type c) (show_rtpmap c) = Some (c\<lparr>codec_channels := 1\<rparr>)"
      using Cons.prems assms(3) by (intro parse_rtpmap_show) auto
    ultimately show ?case using Cons by (simp add: map_filter_simps)
  qed (simp add: map_filter_simps)
  from this [of codecs] show ?thesis
    unfolding parsed by (simp add: create_offer_def local_description_def Let_def media_codecs_def)
qed

theorem offer_codecs_lose_channels_witness:
  "map media_codecs (sd_media (sdp_parse (sdp_display (create_offer 1700000000 ''10.0.0.7'' 4000
      [\<lparr>codec_payload_type = 111, codec_name = ''opus'', codec_sample_rate = 48000, codec_channels = 2\<rparr>]))))
    = [[\<lparr>codec_payload_type = 111, codec_name = ''opus'', codec_sample_rate = 48000, codec_channels = 1\<rparr>]]"
  by (subst offer_codecs_lose_channels) simp_all

subsection \<open>Answers\<close>

definition acceptable :: "rtp_codec list \<Rightarrow> media_description \<Rightarrow> bool" where
  "acceptable supported om \<longleftrightarrow>
     eq_ignore_ascii_case (md_media_type om) ''audio''
     \<and> list_ex (\<lambda>oc. list_ex (\<lambda>sc. eq_ignore_ascii_case (codec_name oc) (codec_name sc)
           \<and> codec_sample_rate oc = codec_sample_rate sc) supported) (media_codecs om)"

text \<open>The streams before the first acceptable one, that one if there is any, and the streams after it.\<close>

definition answer_spec ::
    "u16 \<Rightarrow> connection_data option \<Rightarrow> rtp_codec list \<Rightarrow> media_description list \<Rightarrow> media_description list" where
  "answer_spec port conn supported oms =
     (let before = takeWhile (\<lambda>om. \<not> acceptable supported om) oms
      in map reject_media before
         @ (case dropWhile (\<lambda>om. \<not> acceptable supported om) oms of
              [] \<Rightarrow> []
            | om # after \<Rightarrow>
                accept_media port conn (common_codecs supported om) om # map reject_media after))"

lemma common_codecs_Nil: "common_codecs supported om \<noteq> []
    \<longleftrightarrow> list_ex (\<lambda>oc. list_ex (\<lambda>sc. eq_ignore_ascii_case (codec_name oc) (codec_name sc)
           \<and> codec_sample_rate oc = codec_sample_rate sc) supported) (media_codecs om)"
  by (auto simp: common_codecs_def filter_empty_conv list_ex_iff)

lemma answer_media_done: "answer_media port conn supported True oms = map reject_media oms"
  by (induction oms) simp_all

lemma answer_media_spec: "answer_media port conn supported False oms = answer_spec port conn supported oms"
  by (induction oms)
    (simp_all add: answer_spec_def acceptable_def answer_media_done common_codecs_Nil [symmetric] Let_def)

lemma media_codecs_payload: "codec_payload_type ` set (media_codecs md) \<subseteq> set (md_formats md)"
proof -
  have "codec_payload_type c = pt"
    if "(case get_rtpmap md pt of Some rtpmap \<Rightarrow> parse_rtpmap pt rtpmap | None \<Rightarrow> Some (static_codec pt)) = Some c"
    for c pt
    using that
    by (auto simp: parse_rtpmap_def static_codec_def codec_new_def Let_def split: option.splits list.splits if_splits)
  then show ?thesis
    by (fastforce simp: media_codecs_def map_filter_def)
qed

text \<open>
  (C25) An answer keeps the streams of the offer, in order, with their media type and protocol, and
  accepts exactly the first audio stream that shares a codec with the PBX, if there is one: that
  stream alone gets the local port, and the direction mirrored from the offer; every other stream
  is refused with port 0. Every payload type of the answer occurs in the same stream of the offer.
\<close>
theorem answer_mirrors_offer:
  "let oms = sd_media offer;
       ans = sd_media (create_answer now_secs offer addr port supported);
       n = length (takeWhile (\<lambda>om. \<not> acceptable supported om) oms)
   in map (\<lambda>m. (md_media_type m, md_protocol m)) ans = map (\<lambda>m. (md_media_type m, md_protocol m)) oms
      \<and> map md_port ans = (replicate (length oms) 0)[n := port]
      \<and> map md_direction ans =
          (replicate (length oms) Inactive)[n := answer_direction (oms ! n) (sd_connection offer)]
      \<and> list_all2 (\<lambda>a om. set (md_formats a) \<subseteq> set (md_formats om)) ans oms"
proof -
  have reject: "map (\<lambda>m. (md_media_type m, md_protocol m)) (map reject_media ms) = map (\<lambda>m. (md_media_type m, md_protocol m)) ms"
    "map md_port (map reject_media ms) = replicate (length ms) 0"
    "map md_direction (map reject_media ms) = replicate (length ms) Inactive"
    "list_all2 (\<lambda>a om. set (md_formats a) \<subseteq> set (md_formats om)) (map reject_media ms) ms" for ms
    by (induction ms) (simp_all add: reject_media_def new_audio_def)
  have accept: "set (md_formats (accept_media port conn (common_codecs supported om) om)) \<subseteq> set (md_formats om)"
    for conn om
    using media_codecs_payload [of om]
    by (auto simp: accept_media_def new_audio_def common_codecs_def Let_def)
  define oms where "oms = sd_media offer"
  define before where "before = takeWhile (\<lambda>om. \<not> acceptable supported om) oms"
  have ans: "sd_media (create_answer now_secs offer addr port supported)
      = answer_spec port (sd_connection offer) supported oms"
    by (simp add: create_answer_def local_description_def Let_def answer_media_spec oms_def)
  show ?thesis
  proof (cases "dropWhile (\<lambda>om. \<not> acceptable supported om) oms")
    case Nil
    then have "before = oms" by (simp add: before_def takeWhile_eq_all_conv dropWhile_eq_Nil_conv)
    moreover have "answer_spec port (sd_connection offer) supported oms = map reject_media oms"
      unfolding answer_spec_def Let_def Nil before_def [symmetric] \<open>before = oms\<close> by simp
    ultimately show ?thesis
      using reject [of oms]
      by (simp add: Let_def ans oms_def [symmetric] before_def [symmetric] list_update_beyond)
  next
    case (Cons om after)
    then have oms: "oms = before @ om # after"
      unfolding before_def by (metis takeWhile_dropWhile_id)
    then have nth: "oms ! length before = om" by simp
    have "length oms = length before + Suc (length after)" by (simp add: oms)
    then have upd: "(replicate (length oms) x)[length before := y]
        = replicate (length before) x @ y # replicate (length after) x" for x y
      by (simp only: replicate_add replicate_Suc) (simp add: list_update_append)
    have "answer_spec port (sd_connection offer) supported oms = map reject_media before
        @ accept_media port (sd_connection offer) (common_codecs supported om) om # map reject_media after"
      by (simp add: answer_spec_def Let_def Cons before_def)
    then show ?thesis
      using reject [of before] reject [of after] accept [of "sd_connection offer" om]
      by (simp add: Let_def ans oms_def [symmetric] before_def [symmetric] upd nth)
        (simp add: oms accept_media_def new_audio_def Let_def list_all2_append)
  qed
qed

end
