(* ===== verification/Sip_Acl.thy ===== *)
theory Sip_Acl
  imports Sip_Parser Rust_Net
begin

section \<open>Access control lists and NAT addresses\<close>

text \<open>
  The access control lists of \<^verbatim>\<open>asterisk-sip/src/acl.rs\<close>, and the selection of the addresses
  that \<^verbatim>\<open>asterisk-sip/src/sdp/mod.rs\<close> advertises to a peer, which uses the same CIDR rules.
  The resolver and the routing table of the host are parameters: \<open>dns\<close> gives the addresses of a name
  or \<^const>\<open>None\<close> when the lookup fails or takes longer than its limit, \<open>route\<close> the local address
  from which the kernel would reach a peer, if it has a route.
\<close>

datatype acl_action = Permit | Deny

record acl_rule =
  rule_action :: acl_action
  rule_address :: ip_addr
  rule_prefix_len :: u8

definition leading_ones :: "u32 \<Rightarrow> nat" where
  "leading_ones w = length (takeWhile (bit w) (rev [0..<32]))"

definition netmask_to_prefix :: "string \<Rightarrow> u8 option" where
  "netmask_to_prefix netmask =
     (case parse_ip netmask of
        Some (V4 bits) \<Rightarrow>
          (let leading = leading_ones bits;
               expected = (if leading = 32 then - 1 else if leading = 0 then 0
                           else push_bit (32 - leading) (- 1 :: u32))
           in if bits \<noteq> expected then None else Some (of_nat leading))
      | _ \<Rightarrow> None)"

definition rule_parse :: "acl_action \<Rightarrow> string \<Rightarrow> acl_rule option" where
  "rule_parse action cidr0 =
     (let cidr = trim cidr0;
          (addr_str, mask_str) = (case split_once CHR ''/'' cidr of
              Some (a, m) \<Rightarrow> (a, Some m) | None \<Rightarrow> (cidr, None))
      in case parse_ip addr_str of
           None \<Rightarrow> None
         | Some address \<Rightarrow>
             (let prefix_len = (case mask_str of
                    Some m \<Rightarrow> (case map_option of_nat (parse_unsigned 255 m) of
                                Some p \<Rightarrow> Some p | None \<Rightarrow> netmask_to_prefix m)
                  | None \<Rightarrow> Some (case address of V4 _ \<Rightarrow> 32 | V6 _ \<Rightarrow> 128))
              in map_option (\<lambda>p. \<lparr>rule_action = action, rule_address = address, rule_prefix_len = p\<rparr>)
                   prefix_len))"

definition bits_match :: "'a::len word \<Rightarrow> 'a word \<Rightarrow> nat \<Rightarrow> bool" where
  "bits_match net check prefix_len \<longleftrightarrow>
     (if prefix_len = 0 then True
      else if LENGTH('a) \<le> prefix_len then net = check
      else let bm = push_bit (LENGTH('a) - prefix_len) (- 1 :: 'a word)
           in net AND bm = check AND bm)"

definition rule_matches :: "acl_rule \<Rightarrow> ip_addr \<Rightarrow> bool" where
  "rule_matches r addr =
     (case (rule_address r, addr) of
        (V4 net, V4 check) \<Rightarrow> bits_match net check (unat (rule_prefix_len r))
      | (V6 net, V6 check) \<Rightarrow> bits_match net check (unat (rule_prefix_len r))
      | _ \<Rightarrow> False)"

record acl =
  acl_name :: string
  acl_rules :: "acl_rule list"

definition acl_new :: "string \<Rightarrow> acl" where
  "acl_new name = \<lparr>acl_name = name, acl_rules = []\<rparr>"

definition acl_permit :: "string \<Rightarrow> acl \<Rightarrow> acl" where
  "acl_permit cidr a =
     (case rule_parse Permit cidr of Some r \<Rightarrow> a\<lparr>acl_rules := acl_rules a @ [r]\<rparr> | None \<Rightarrow> a)"

definition acl_deny :: "string \<Rightarrow> acl \<Rightarrow> acl" where
  "acl_deny cidr a =
     (case rule_parse Deny cidr of Some r \<Rightarrow> a\<lparr>acl_rules := acl_rules a @ [r]\<rparr> | None \<Rightarrow> a)"

fun check_rules :: "acl_rule list \<Rightarrow> ip_addr \<Rightarrow> bool" where
  "check_rules [] addr \<longleftrightarrow> True"
| "check_rules (r # rs) addr \<longleftrightarrow>
     (if rule_matches r addr then rule_action r = Permit else check_rules rs addr)"

definition acl_check :: "acl \<Rightarrow> ip_addr \<Rightarrow> bool" where
  "acl_check a addr = check_rules (acl_rules a) addr"

definition acl_is_empty :: "acl \<Rightarrow> bool" where
  "acl_is_empty a \<longleftrightarrow> acl_rules a = []"

record sip_acl =
  ip_acl :: acl
  contact_acl :: acl

definition sip_acl_new :: "string \<Rightarrow> sip_acl" where
  "sip_acl_new name = \<lparr>ip_acl = acl_new (name @ ''-ip''), contact_acl = acl_new (name @ ''-contact'')\<rparr>"

definition extract_ip_from_uri :: "string \<Rightarrow> ip_addr option" where
  "extract_ip_from_uri uri_str =
     (case uri_parse uri_str of Inr u \<Rightarrow> parse_ip (uri_host u) | Inl _ \<Rightarrow> None)"

definition contact_allowed :: "acl \<Rightarrow> string \<Rightarrow> bool" where
  "contact_allowed a contact_hdr \<longleftrightarrow>
     (if trim contact_hdr = ''*'' then True
      else case Option.bind (extract_uri contact_hdr) extract_ip_from_uri of
             Some ip \<Rightarrow> acl_check a ip
           | None \<Rightarrow> True)"

definition check_message :: "sip_acl \<Rightarrow> ip_addr \<Rightarrow> sip_message \<Rightarrow> bool" where
  "check_message a source msg \<longleftrightarrow>
     (if \<not> acl_is_empty (ip_acl a) \<and> \<not> acl_check (ip_acl a) source then False
      else if \<not> acl_is_empty (contact_acl a)
        then list_all (contact_allowed (contact_acl a)) (get_headers msg ''Contact'')
      else True)"

subsection \<open>Addresses to advertise\<close>

record transport_config =
  tc_name :: string
  tc_protocol :: string
  tc_bind :: socket_addr
  tc_external_media_address :: "string option"
  tc_external_signaling_address :: "string option"
  tc_external_signaling_port :: "u16 option"
  tc_cert_file :: "string option"
  tc_priv_key_file :: "string option"
  tc_local_net :: "string list"

definition is_unspecified :: "socket_addr \<Rightarrow> bool" where
  "is_unspecified a \<longleftrightarrow> fst a = ''0.0.0.0'' \<or> fst a = ''::''"

definition covering_transport :: "transport_config list \<Rightarrow> socket_addr \<Rightarrow> transport_config option" where
  "covering_transport ts local =
     (case find (\<lambda>t. tc_bind t = local) ts of
        Some t \<Rightarrow> Some t
      | None \<Rightarrow> (case find (\<lambda>t. fst (tc_bind t) = fst local) ts of
                  Some t \<Rightarrow> Some t
                | None \<Rightarrow> find (\<lambda>t. is_unspecified (tc_bind t)) ts))"

definition peer_is_local :: "string list \<Rightarrow> socket_addr \<Rightarrow> bool" where
  "peer_is_local local_net remote \<longleftrightarrow>
     list_ex (\<lambda>cidr. case (rule_parse Permit cidr, parse_ip (fst remote)) of
         (Some rule, Some ip) \<Rightarrow> rule_matches rule ip
       | _ \<Rightarrow> False) local_net"

definition format_hostport :: "string \<Rightarrow> u16 \<Rightarrow> string" where
  "format_hostport host port =
     (if CHR '':'' \<in> set host \<and> \<not> starts_with ''['' host
      then ''['' @ host @ '']:'' @ show_nat (unat port)
      else host @ '':'' @ show_nat (unat port))"

definition nonempty_option :: "string option \<Rightarrow> string option" where
  "nonempty_option e = (case e of Some x \<Rightarrow> if x = [] then None else Some x | None \<Rightarrow> None)"

definition advertised_signaling_hostport_with ::
    "string option \<Rightarrow> u16 option \<Rightarrow> string list \<Rightarrow> socket_addr \<Rightarrow> socket_addr \<Rightarrow> string" where
  "advertised_signaling_hostport_with external external_port local_net local remote =
     (case nonempty_option external of
        Some ext \<Rightarrow>
          if \<not> peer_is_local local_net remote
          then format_hostport ext (case external_port of Some p \<Rightarrow> p | None \<Rightarrow> snd local)
          else show_socket_addr local
      | None \<Rightarrow> show_socket_addr local)"

definition advertised_signaling_hostport ::
    "transport_config list option \<Rightarrow> socket_addr \<Rightarrow> socket_addr \<Rightarrow> string" where
  "advertised_signaling_hostport cfg local remote =
     (case Option.bind cfg (\<lambda>ts. covering_transport ts local) of
        Some t \<Rightarrow> advertised_signaling_hostport_with (tc_external_signaling_address t)
                    (tc_external_signaling_port t) (tc_local_net t) local remote
      | None \<Rightarrow> advertised_signaling_hostport_with None None [] local remote)"

definition is_ipv4 :: "ip_addr \<Rightarrow> bool" where
  "is_ipv4 ip = (case ip of V4 _ \<Rightarrow> True | V6 _ \<Rightarrow> False)"

definition resolve_external_media_addr ::
    "(string \<Rightarrow> ip_addr list option) \<Rightarrow> string \<Rightarrow> socket_addr \<Rightarrow> string option" where
  "resolve_external_media_addr dns ext remote =
     (case parse_ip ext of
        Some ip \<Rightarrow> Some (show_ip ip)
      | None \<Rightarrow>
          (case dns ext of
             None \<Rightarrow> None
           | Some resolved \<Rightarrow>
               (case find (\<lambda>ip. is_ipv4 ip = (CHR '':'' \<notin> set (fst remote))) resolved of
                  Some ip \<Rightarrow> Some (show_ip ip)
                | None \<Rightarrow> (case resolved of ip # _ \<Rightarrow> Some (show_ip ip) | [] \<Rightarrow> None))))"

definition advertised_media_ip_with ::
    "(string \<Rightarrow> ip_addr list option) \<Rightarrow> (socket_addr \<Rightarrow> socket_addr option) \<Rightarrow> string option
     \<Rightarrow> string list \<Rightarrow> socket_addr \<Rightarrow> socket_addr \<Rightarrow> string option" where
  "advertised_media_ip_with dns route external local_net local remote =
     (case (case nonempty_option external of
              Some ext \<Rightarrow> if \<not> peer_is_local local_net remote then Some ext else None
            | None \<Rightarrow> None) of
        Some ext \<Rightarrow> resolve_external_media_addr dns ext remote
      | None \<Rightarrow>
          if \<not> is_unspecified local then Some (fst local)
          else case route remote of
                 Some resolved \<Rightarrow> if \<not> is_unspecified resolved then Some (fst resolved) else Some (fst local)
               | None \<Rightarrow> Some (fst local))"

definition advertised_media_ip ::
    "(string \<Rightarrow> ip_addr list option) \<Rightarrow> (socket_addr \<Rightarrow> socket_addr option)
     \<Rightarrow> transport_config list option \<Rightarrow> socket_addr \<Rightarrow> socket_addr \<Rightarrow> string option" where
  "advertised_media_ip dns route cfg local remote =
     (case Option.bind cfg (\<lambda>ts. covering_transport ts local) of
        Some t \<Rightarrow> advertised_media_ip_with dns route (tc_external_media_address t) (tc_local_net t) local remote
      | None \<Rightarrow> advertised_media_ip_with dns route None [] local remote)"

subsection \<open>What a CIDR rule matches\<close>

lemma bits_match_iff:
  fixes net check :: "'a::len word"
  shows "bits_match net check p \<longleftrightarrow> drop_bit (LENGTH('a) - p) net = drop_bit (LENGTH('a) - p) check"
proof -
  have bm: "x AND NOT (mask n) = push_bit n (drop_bit n x)" for x :: "'a word" and n
    by (rule bit_word_eqI) (auto simp: bit_simps)
  have inj: "push_bit n (drop_bit n x) = push_bit n (drop_bit n y) \<longleftrightarrow> drop_bit n x = drop_bit n y"
    for x y :: "'a word" and n
  proof
    assume eq: "push_bit n (drop_bit n x) = push_bit n (drop_bit n y)"
    have "drop_bit n (push_bit n (drop_bit n z)) = drop_bit n z" for z :: "'a word"
      by (rule bit_word_eqI) (auto simp: bit_simps dest: bit_imp_le_length)
    with eq show "drop_bit n x = drop_bit n y" by metis
  qed simp
  have all: "drop_bit LENGTH('a) z = 0" for z :: "'a word"
    by (rule bit_word_eqI) (auto simp: bit_simps dest: bit_imp_le_length)
  show ?thesis
    by (simp add: bits_match_def bm inj all Let_def)
qed

text \<open>
  The reference notion: the bits of an address, most significant first; a network of length \<open>n\<close>
  holds the addresses of the same family that share its first \<open>n\<close> bits.
\<close>

primrec ip_bits :: "ip_addr \<Rightarrow> bool list" where
  "ip_bits (V4 w) = map (bit w) (rev [0..<32])"
| "ip_bits (V6 w) = map (bit w) (rev [0..<128])"

definition in_network :: "ip_addr \<Rightarrow> nat \<Rightarrow> ip_addr \<Rightarrow> bool" where
  "in_network net n ip \<longleftrightarrow>
     length (ip_bits net) = length (ip_bits ip) \<and> take n (ip_bits net) = take n (ip_bits ip)"

lemma take_bits_iff:
  fixes net check :: "'a::len word"
  shows "take p (map (bit net) (rev [0..<LENGTH('a)])) = take p (map (bit check) (rev [0..<LENGTH('a)]))
    \<longleftrightarrow> bits_match net check p"
proof -
  have "take p (rev [0..<LENGTH('a)]) = rev [LENGTH('a) - p..<LENGTH('a)]"
    by (simp add: take_rev)
  then have "take p (map (bit net) (rev [0..<LENGTH('a)])) = take p (map (bit check) (rev [0..<LENGTH('a)]))
      \<longleftrightarrow> (\<forall>i \<in> {LENGTH('a) - p..<LENGTH('a)}. bit net i = bit check i)"
    by (simp add: take_map)
  also have "\<dots> \<longleftrightarrow> drop_bit (LENGTH('a) - p) net = drop_bit (LENGTH('a) - p) check"
  proof
    assume *: "\<forall>i \<in> {LENGTH('a) - p..<LENGTH('a)}. bit net i = bit check i"
    show "drop_bit (LENGTH('a) - p) net = drop_bit (LENGTH('a) - p) check"
    proof (rule bit_word_eqI)
      fix n
      show "bit (drop_bit (LENGTH('a) - p) net) n = bit (drop_bit (LENGTH('a) - p) check) n"
        using * bit_imp_le_length [of net] bit_imp_le_length [of check]
        by (cases "LENGTH('a) - p + n < LENGTH('a)") (auto simp: bit_simps)
    qed
  next
    assume eq: "drop_bit (LENGTH('a) - p) net = drop_bit (LENGTH('a) - p) check"
    show "\<forall>i \<in> {LENGTH('a) - p..<LENGTH('a)}. bit net i = bit check i"
    proof
      fix i assume "i \<in> {LENGTH('a) - p..<LENGTH('a)}"
      then have "i = LENGTH('a) - p + (i - (LENGTH('a) - p))" by auto
      then show "bit net i = bit check i"
        using eq by (metis bit_drop_bit_eq comp_apply)
    qed
  qed
  finally show ?thesis by (simp add: bits_match_iff)
qed

lemma rule_matches_in_network:
  "rule_matches r ip \<longleftrightarrow> in_network (rule_address r) (unat (rule_prefix_len r)) ip"
  using take_bits_iff [where 'a = 32] take_bits_iff [where 'a = 128]
  by (auto simp: rule_matches_def in_network_def split: ip_addr.splits)

text \<open>
  (C30) An access control list answers by its first rule whose network holds the address: the
  network of a rule is the set of addresses of its family that agree with it in the first
  \<open>prefix_len\<close> bits, for every prefix length and both families, and an address in no network is
  allowed.
\<close>
theorem acl_check_first_match:
  "acl_check a ip =
     (case find (\<lambda>r. in_network (rule_address r) (unat (rule_prefix_len r)) ip) (acl_rules a) of
        Some r \<Rightarrow> rule_action r = Permit
      | None \<Rightarrow> True)"
proof -
  have "check_rules rs ip =
      (case find (\<lambda>r. in_network (rule_address r) (unat (rule_prefix_len r)) ip) rs of
         Some r \<Rightarrow> rule_action r = Permit | None \<Rightarrow> True)" for rs
    by (induction rs) (simp_all add: rule_matches_in_network)
  then show ?thesis by (simp add: acl_check_def)
qed

text \<open>
  The Contact list only sees the first address of a header: whatever follows the first
  bracketed URI, further contacts included, has no influence on the verdict. A REGISTER that lists
  a forbidden address second in one comma-separated Contact header passes the list.
\<close>
theorem contact_acl_sees_first_only:
  assumes "CHR ''>'' \<notin> set u" and "CHR ''<'' \<notin> set u"
  shows "contact_allowed a (''<'' @ u @ ''>'' @ rest) = contact_allowed a (''<'' @ u @ ''>'')"
proof -
  have "find_char CHR ''>'' (u @ CHR ''>'' # r) = Some (length u)" for r
    using assms(1) by (simp add: find_char_Some_iff)
  then have uri: "extract_uri (''<'' @ u @ ''>'' @ r) = Some u" for r
    by (simp add: extract_uri_def)
  have star: "trim (CHR ''<'' # s) \<noteq> ''*''" for s
    by (auto simp: trim_def trim_start_def trim_end_def is_ws_def dropWhile_eq_Cons_conv rev_eq_Cons_iff)
  show ?thesis using star uri [of rest] uri [of "[]"] by (simp add: contact_allowed_def)
qed

theorem contact_acl_sees_first_only_witness:
  "contact_allowed (acl_new ''c'') (''<'' @ ''sip:a@10.0.0.1'' @ ''>'' @ '', <sip:b@192.0.2.66>'')
     = contact_allowed (acl_new ''c'') (''<'' @ ''sip:a@10.0.0.1'' @ ''>'')"
  by (rule contact_acl_sees_first_only) simp_all

end
