(* ===== verification/Sip_Auth.thy ===== *)
theory Sip_Auth
  imports Sip_Roundtrip
begin

section \<open>Digest authentication\<close>

text \<open>
  Digest challenges and responses of \<^verbatim>\<open>asterisk-sip/src/auth/mod.rs\<close> and the inbound and
  outbound authenticators of \<^verbatim>\<open>asterisk-sip/src/authenticator.rs\<close>. The hash functions come
  from third-party crates: \<open>h\<close> is the pair of the hexadecimal MD5 and SHA-256 digests of a text. The
  random nonces and branches are arguments. Both source files hold the same parameter splitter and
  the same \<^verbatim>\<open>unquote\<close>, which are modelled once. Incrementing the largest sequence number
  overflows, and a checked build panics: the outer option of the outbound request.
\<close>

type_synonym hasher = "(string \<Rightarrow> string) \<times> (string \<Rightarrow> string)"

datatype digest_algorithm = Alg_Md5 | Alg_Md5Sess | Alg_Sha256 | Alg_Sha256Sess

definition alg_from_name :: "string \<Rightarrow> digest_algorithm" where
  "alg_from_name s =
     (let n = to_ascii_lowercase s
      in if n = ''md5'' \<or> n = [] then Alg_Md5
         else if n = ''md5-sess'' then Alg_Md5Sess
         else if n = ''sha-256'' \<or> n = ''sha256'' then Alg_Sha256
         else if n = ''sha-256-sess'' \<or> n = ''sha256-sess'' then Alg_Sha256Sess
         else Alg_Md5)"

primrec alg_as_str :: "digest_algorithm \<Rightarrow> string" where
  "alg_as_str Alg_Md5 = ''MD5''"
| "alg_as_str Alg_Md5Sess = ''MD5-sess''"
| "alg_as_str Alg_Sha256 = ''SHA-256''"
| "alg_as_str Alg_Sha256Sess = ''SHA-256-sess''"

record digest_challenge =
  ch_realm :: string
  ch_nonce :: string
  ch_algorithm :: digest_algorithm
  ch_qop :: "string option"
  ch_opaque :: "string option"
  ch_stale :: bool
  ch_domain :: "string option"

record digest_credentials =
  dc_username :: string
  dc_password :: string
  dc_realm :: string

definition unquote :: "string \<Rightarrow> string" where
  "unquote s0 =
     (let s = trim s0
      in if starts_with [CHR 0x22] s \<and> ends_with [CHR 0x22] s \<and> 2 \<le> length s
         then take (length s - 2) (drop 1 s) else s)"

definition push_param :: "string \<Rightarrow> string list" where
  "push_param current = (let trimmed = trim current in if trimmed \<noteq> [] then [trimmed] else [])"

fun split_quoted :: "bool \<Rightarrow> string \<Rightarrow> string \<Rightarrow> string list" where
  "split_quoted in_quotes current [] = push_param current"
| "split_quoted in_quotes current (ch # rest) =
     (if ch = CHR 0x22 then split_quoted (\<not> in_quotes) (current @ [ch]) rest
      else if ch = CHR '','' \<and> \<not> in_quotes then push_param current @ split_quoted in_quotes [] rest
      else split_quoted in_quotes (current @ [ch]) rest)"

definition split_digest_params :: "string \<Rightarrow> string list" where
  "split_digest_params input = split_quoted False [] input"

definition digest_param :: "string \<Rightarrow> (string \<times> string) option" where
  "digest_param param =
     (case split_once CHR ''='' param of
        Some (k, v) \<Rightarrow> Some (to_ascii_lowercase (trim k), unquote (trim v))
      | None \<Rightarrow> None)"

definition challenge_param :: "string \<Rightarrow> digest_challenge \<Rightarrow> digest_challenge" where
  "challenge_param param c =
     (case digest_param param of
        None \<Rightarrow> c
      | Some (key, val) \<Rightarrow>
          if key = ''realm'' then c\<lparr>ch_realm := val\<rparr>
          else if key = ''nonce'' then c\<lparr>ch_nonce := val\<rparr>
          else if key = ''algorithm'' then c\<lparr>ch_algorithm := alg_from_name val\<rparr>
          else if key = ''qop'' then c\<lparr>ch_qop := Some val\<rparr>
          else if key = ''opaque'' then c\<lparr>ch_opaque := Some val\<rparr>
          else if key = ''stale'' then c\<lparr>ch_stale := eq_ignore_ascii_case val ''true''\<rparr>
          else if key = ''domain'' then c\<lparr>ch_domain := Some val\<rparr>
          else c)"

definition challenge_parse :: "string \<Rightarrow> digest_challenge option" where
  "challenge_parse header_value =
     (case strip_prefix ''Digest'' (trim header_value) of
        None \<Rightarrow> None
      | Some rest \<Rightarrow>
          (let c = fold challenge_param (split_digest_params (trim rest))
                 \<lparr>ch_realm = [], ch_nonce = [], ch_algorithm = Alg_Md5, ch_qop = None, ch_opaque = None,
                  ch_stale = False, ch_domain = None\<rparr>
           in if ch_realm c = [] \<or> ch_nonce c = [] then None else Some c))"

definition compute_hash :: "hasher \<Rightarrow> string \<Rightarrow> digest_algorithm \<Rightarrow> string" where
  "compute_hash h input alg =
     (case alg of Alg_Md5 \<Rightarrow> fst h input | Alg_Md5Sess \<Rightarrow> fst h input
      | Alg_Sha256 \<Rightarrow> snd h input | Alg_Sha256Sess \<Rightarrow> snd h input)"

definition qop_auth :: "string option \<Rightarrow> bool" where
  "qop_auth qop \<longleftrightarrow> (case qop of Some q \<Rightarrow> contains_sub ''auth'' q | None \<Rightarrow> False)"

definition compute_digest_response_hash ::
    "hasher \<Rightarrow> digest_challenge \<Rightarrow> digest_credentials \<Rightarrow> string \<Rightarrow> string \<Rightarrow> string \<Rightarrow> string \<Rightarrow> string" where
  "compute_digest_response_hash h challenge credentials meth uri cnonce nc =
     (let alg = ch_algorithm challenge;
          ha1 = compute_hash h (dc_username credentials @ '':'' @ ch_realm challenge @ '':'' @ dc_password credentials) alg;
          ha1 = (if alg = Alg_Md5Sess \<or> alg = Alg_Sha256Sess
                 then compute_hash h (ha1 @ '':'' @ ch_nonce challenge @ '':'' @ cnonce) alg else ha1);
          ha2 = compute_hash h (meth @ '':'' @ uri) alg
      in if qop_auth (ch_qop challenge)
         then compute_hash h (ha1 @ '':'' @ ch_nonce challenge @ '':'' @ nc @ '':'' @ cnonce @ '':auth:'' @ ha2) alg
         else compute_hash h (ha1 @ '':'' @ ch_nonce challenge @ '':'' @ ha2) alg)"

definition quoted :: "string \<Rightarrow> string" where
  "quoted s = [CHR 0x22] @ s @ [CHR 0x22]"

definition create_digest_response ::
    "hasher \<Rightarrow> string \<Rightarrow> digest_challenge \<Rightarrow> digest_credentials \<Rightarrow> string \<Rightarrow> string \<Rightarrow> string" where
  "create_digest_response h cnonce challenge credentials meth uri =
     (let nc = ''00000001'';
          response = compute_digest_response_hash h challenge credentials meth uri cnonce nc
      in ''Digest username='' @ quoted (dc_username credentials) @ '', realm='' @ quoted (ch_realm challenge)
         @ '', nonce='' @ quoted (ch_nonce challenge) @ '', uri='' @ quoted uri
         @ '', response='' @ quoted response @ '', algorithm='' @ alg_as_str (ch_algorithm challenge)
         @ (if qop_auth (ch_qop challenge) then '', qop=auth, nc='' @ nc @ '', cnonce='' @ quoted cnonce else [])
         @ (case ch_opaque challenge of Some opaque \<Rightarrow> '', opaque='' @ quoted opaque | None \<Rightarrow> []))"

subsection \<open>The inbound authenticator\<close>

record auth_credentials =
  ac_username :: string
  ac_password :: string
  ac_realm :: string
  ac_is_ha1 :: bool

definition credentials_new :: "string \<Rightarrow> string \<Rightarrow> string \<Rightarrow> auth_credentials" where
  "credentials_new username password realm =
     \<lparr>ac_username = username, ac_password = password, ac_realm = realm, ac_is_ha1 = False\<rparr>"

definition credentials_with_ha1 :: "string \<Rightarrow> string \<Rightarrow> string \<Rightarrow> auth_credentials" where
  "credentials_with_ha1 username ha1 realm =
     \<lparr>ac_username = username, ac_password = ha1, ac_realm = realm, ac_is_ha1 = True\<rparr>"

record inbound_authenticator =
  ia_default_realm :: string
  ia_supported_algorithms :: "digest_algorithm list"

definition inbound_new :: inbound_authenticator where
  "inbound_new = \<lparr>ia_default_realm = ''asterisk'', ia_supported_algorithms = [Alg_Md5, Alg_Sha256]\<rparr>"

record parsed_auth =
  pa_username :: string
  pa_realm :: string
  pa_nonce :: string
  pa_uri :: string
  pa_response :: string
  pa_algorithm :: digest_algorithm
  pa_qop :: "string option"
  pa_opaque :: "string option"
  pa_cnonce :: "string option"
  pa_nc :: "string option"

definition auth_field :: "string \<times> string \<Rightarrow> parsed_auth \<Rightarrow> parsed_auth" where
  "auth_field kv p =
     (let (key, val) = kv
      in if key = ''username'' then p\<lparr>pa_username := val\<rparr>
         else if key = ''realm'' then p\<lparr>pa_realm := val\<rparr>
         else if key = ''nonce'' then p\<lparr>pa_nonce := val\<rparr>
         else if key = ''uri'' then p\<lparr>pa_uri := val\<rparr>
         else if key = ''response'' then p\<lparr>pa_response := val\<rparr>
         else if key = ''algorithm'' then p\<lparr>pa_algorithm := alg_from_name val\<rparr>
         else if key = ''qop'' then p\<lparr>pa_qop := Some val\<rparr>
         else if key = ''opaque'' then p\<lparr>pa_opaque := Some val\<rparr>
         else if key = ''cnonce'' then p\<lparr>pa_cnonce := Some val\<rparr>
         else if key = ''nc'' then p\<lparr>pa_nc := Some val\<rparr>
         else p)"

definition auth_default :: parsed_auth where
  "auth_default =
     \<lparr>pa_username = [], pa_realm = [], pa_nonce = [], pa_uri = [], pa_response = [], pa_algorithm = Alg_Md5,
      pa_qop = None, pa_opaque = None, pa_cnonce = None, pa_nc = None\<rparr>"

definition parse_authorization :: "string \<Rightarrow> parsed_auth option" where
  "parse_authorization value =
     (case strip_prefix ''Digest'' (trim value) of
        None \<Rightarrow> None
      | Some rest \<Rightarrow>
          (let p = fold auth_field (List.map_filter digest_param (split_digest_params (trim rest))) auth_default
           in if pa_username p = [] \<or> pa_nonce p = [] \<or> pa_response p = [] then None else Some p))"

definition wildcard_realm :: "auth_credentials \<Rightarrow> bool" where
  "wildcard_realm c \<longleftrightarrow> ac_realm c = [] \<or> ac_realm c = ''*''"

definition build_challenge ::
    "inbound_authenticator \<Rightarrow> string \<Rightarrow> sip_message \<Rightarrow> auth_credentials list \<Rightarrow> bool \<Rightarrow> sip_message" where
  "build_challenge ia nonce request creds use_proxy =
     (let (code, reason, header_name) =
            (if use_proxy then (407, ''Proxy Authentication Required'', ''Proxy-Authenticate'')
             else (401, ''Unauthorized'', ''WWW-Authenticate''));
          response = (case create_response request code reason of
              Inr r \<Rightarrow> r
            | Inl _ \<Rightarrow> \<lparr>msg_start_line = Response \<lparr>sl_version = ''SIP/2.0'', sl_status_code = code,
                                                   sl_reason_phrase = reason\<rparr>,
                       msg_headers = [], msg_body = []\<rparr>);
          realm = (case find (\<lambda>c. \<not> wildcard_realm c) creds of
              Some c \<Rightarrow> ac_realm c | None \<Rightarrow> ia_default_realm ia)
      in case ia_supported_algorithms ia of
           alg # _ \<Rightarrow>
             response\<lparr>msg_headers := msg_headers response @
               [\<lparr>hdr_name = header_name,
                 hdr_value = ''Digest realm='' @ quoted realm @ '', nonce='' @ quoted nonce
                   @ '', algorithm='' @ alg_as_str alg @ '', qop='' @ quoted ''auth''\<rparr>]\<rparr>
         | [] \<Rightarrow> response)"

definition auth_header_name :: "bool \<Rightarrow> string" where
  "auth_header_name use_proxy = (if use_proxy then ''Proxy-Authorization'' else ''Authorization'')"

definition expected_response ::
    "hasher \<Rightarrow> inbound_authenticator \<Rightarrow> sip_method option \<Rightarrow> auth_credentials \<Rightarrow> parsed_auth \<Rightarrow> string option" where
  "expected_response h ia meth cred p =
     (let m = (case meth of Some m \<Rightarrow> method_as_str m | None \<Rightarrow> ''UNKNOWN'');
          realm = (if wildcard_realm cred then ia_default_realm ia else ac_realm cred);
          challenge = \<lparr>ch_realm = realm, ch_nonce = pa_nonce p, ch_algorithm = pa_algorithm p, ch_qop = pa_qop p,
                       ch_opaque = pa_opaque p, ch_stale = False, ch_domain = None\<rparr>;
          creds = \<lparr>dc_username = ac_username cred, dc_password = ac_password cred, dc_realm = realm\<rparr>
      in if qop_auth (pa_qop p)
         then (case (pa_cnonce p, pa_nc p) of
                 (Some cnonce, Some nc) \<Rightarrow>
                   Some (compute_digest_response_hash h challenge creds m (pa_uri p) cnonce nc)
               | _ \<Rightarrow> None)
         else Some (compute_digest_response_hash h challenge creds m (pa_uri p) [] []))"

definition verify ::
    "hasher \<Rightarrow> inbound_authenticator \<Rightarrow> string \<Rightarrow> sip_message \<Rightarrow> auth_credentials list \<Rightarrow> bool
     \<Rightarrow> sip_message + unit" where
  "verify h ia nonce request creds use_proxy =
     (let challenge = Inl (build_challenge ia nonce request creds use_proxy)
      in case get_header request (auth_header_name use_proxy) of
           None \<Rightarrow> challenge
         | Some auth_value \<Rightarrow>
             (case parse_authorization auth_value of
                None \<Rightarrow> challenge
              | Some p \<Rightarrow>
                  (case find (\<lambda>c. ac_username c = pa_username p
                                  \<and> (wildcard_realm c \<or> ac_realm c = pa_realm p)) creds of
                     None \<Rightarrow> challenge
                   | Some cred \<Rightarrow>
                       (case expected_response h ia (msg_method request) cred p of
                          None \<Rightarrow> challenge
                        | Some expected \<Rightarrow> if expected = pa_response p then Inr () else challenge))))"

subsection \<open>The outbound authenticator\<close>

fun join_semi :: "string list \<Rightarrow> string" where
  "join_semi [] = []"
| "join_semi [x] = x"
| "join_semi (x # y # xs) = x @ '';'' @ join_semi (y # xs)"

definition is_branch_param :: "string \<Rightarrow> bool" where
  "is_branch_param t \<longleftrightarrow>
     eq_ignore_ascii_case t ''branch''
     \<or> (case split_once CHR ''='' t of Some (k, _) \<Rightarrow> eq_ignore_ascii_case (trim k) ''branch'' | None \<Rightarrow> False)"

definition replace_via_branch :: "string \<Rightarrow> string \<Rightarrow> string" where
  "replace_via_branch via_value new_branch =
     (case split_char CHR '';'' via_value of
        [] \<Rightarrow> []
      | sent_by # params \<Rightarrow>
          (let ts = map trim params;
               out = trim_end sent_by # map (\<lambda>t. if is_branch_param t then ''branch='' @ new_branch else t) ts
           in join_semi (if list_ex is_branch_param ts then out else out @ [''branch='' @ new_branch])))"

definition bump_cseq :: "string \<Rightarrow> string option" where
  "bump_cseq v =
     (case split_once CHR '' '' v of
        Some (num_str, method_str) \<Rightarrow>
          (case parse_unsigned 4294967295 (trim num_str) of
             Some num \<Rightarrow> if num = 4294967295 then None else Some (show_nat (num + 1) @ '' '' @ method_str)
           | None \<Rightarrow> Some v)
      | None \<Rightarrow> Some v)"

fun retry_headers :: "string \<Rightarrow> bool \<Rightarrow> sip_header list \<Rightarrow> sip_header list option" where
  "retry_headers new_branch via_rewritten [] = Some []"
| "retry_headers new_branch via_rewritten (g # hs) =
     (if eq_ignore_ascii_case (hdr_name g) ''CSeq'' then
        Option.bind (bump_cseq (hdr_value g)) (\<lambda>v.
          map_option ((#) (g\<lparr>hdr_value := v\<rparr>)) (retry_headers new_branch via_rewritten hs))
      else if \<not> via_rewritten \<and> eq_ignore_ascii_case (hdr_name g) ''Via'' then
        map_option ((#) (g\<lparr>hdr_value := replace_via_branch (hdr_value g) new_branch\<rparr>))
          (retry_headers new_branch True hs)
      else map_option ((#) g) (retry_headers new_branch via_rewritten hs))"

definition create_authenticated_request ::
    "hasher \<Rightarrow> string \<Rightarrow> string \<Rightarrow> sip_message \<Rightarrow> sip_message \<Rightarrow> auth_credentials list
     \<Rightarrow> sip_message option option" where
  "create_authenticated_request h cnonce new_branch original challenge_response creds =
     (case (case status_code challenge_response of
              Some c \<Rightarrow> if c = 401 then Some (''WWW-Authenticate'', ''Authorization'')
                        else if c = 407 then Some (''Proxy-Authenticate'', ''Proxy-Authorization'')
                        else None
            | None \<Rightarrow> None) of
        None \<Rightarrow> Some None
      | Some (challenge_name, response_name) \<Rightarrow>
          (case Option.bind (get_header challenge_response challenge_name) challenge_parse of
             None \<Rightarrow> Some None
           | Some challenge \<Rightarrow>
               (case (find (\<lambda>c. wildcard_realm c \<or> ac_realm c = ch_realm challenge) creds, msg_start_line original) of
                  (Some cred, Request r) \<Rightarrow>
                    (let digest_creds = \<lparr>dc_username = ac_username cred, dc_password = ac_password cred,
                                         dc_realm = ch_realm challenge\<rparr>;
                         auth_value = create_digest_response h cnonce challenge digest_creds
                                        (method_as_str (rl_method r)) (uri_display (rl_uri r))
                     in map_option (\<lambda>hs. Some (original\<lparr>msg_headers :=
                              filter (\<lambda>g. \<not> eq_ignore_ascii_case (hdr_name g) response_name) hs
                              @ [\<lparr>hdr_name = response_name, hdr_value = auth_value\<rparr>]\<rparr>))
                          (retry_headers new_branch False (msg_headers original)))
                | _ \<Rightarrow> Some None)))"

subsection \<open>Reading back a list of parameters\<close>

text \<open>A parameter is a key, its value, and whether the value is written in quotes.\<close>

type_synonym digest_item = "string \<times> string \<times> bool"

definition item_text :: "digest_item \<Rightarrow> string" where
  "item_text x = fst x @ ''='' @ (if snd (snd x) then quoted (fst (snd x)) else fst (snd x))"

definition plain :: "string \<Rightarrow> bool" where
  "plain s \<longleftrightarrow> s \<noteq> [] \<and> (\<forall>c \<in> set s. \<not> is_ws c \<and> c \<noteq> CHR 0x22 \<and> c \<noteq> CHR '','' \<and> c \<noteq> CHR ''='')"

definition item_ok :: "digest_item \<Rightarrow> bool" where
  "item_ok x \<longleftrightarrow>
     plain (fst x) \<and> to_ascii_lowercase (fst x) = fst x
     \<and> (if snd (snd x) then CHR 0x22 \<notin> set (fst (snd x)) else plain (fst (snd x)))"

lemma plain_facts:
  assumes "plain s"
  shows "\<forall>c \<in> set s. c \<noteq> CHR 0x22 \<and> c \<noteq> CHR '',''" and "CHR ''='' \<notin> set s" and "trimmed s"
    and "s \<noteq> []" and "hd s \<noteq> CHR 0x22"
  using assms trimmed_no_ws [of s] hd_in_set [of s] unfolding plain_def by blast+

lemma item_ok_cases:
  assumes "item_ok x"
  obtains (quotes) k v where "x = (k, v, True)" "plain k" "to_ascii_lowercase k = k" "CHR 0x22 \<notin> set v"
      "item_text x = k @ ''='' @ quoted v"
  | (bare) k v where "x = (k, v, False)" "plain k" "to_ascii_lowercase k = k" "plain v"
      "item_text x = k @ ''='' @ v"
proof -
  obtain k v q where x: "x = (k, v, q)" by (cases x)
  with assms quotes [of k v] bare [of k v] show thesis
    by (cases q) (simp_all add: item_ok_def item_text_def)
qed

fun join_items :: "digest_item list \<Rightarrow> string" where
  "join_items [] = []"
| "join_items [x] = item_text x"
| "join_items (x # y # xs) = item_text x @ '', '' @ join_items (y # xs)"

lemma split_quoted_plain:
  "\<forall>c \<in> set t. c \<noteq> CHR 0x22 \<and> c \<noteq> CHR '','' \<Longrightarrow> split_quoted q cur (t @ rest) = split_quoted q (cur @ t) rest"
  by (induction t arbitrary: cur) auto

lemma split_quoted_inside:
  "CHR 0x22 \<notin> set t \<Longrightarrow> split_quoted True cur (t @ rest) = split_quoted True (cur @ t) rest"
  by (induction t arbitrary: cur) auto

lemma split_quoted_item:
  assumes "item_ok x"
  shows "split_quoted False cur (item_text x @ rest) = split_quoted False (cur @ item_text x) rest"
  using assms
proof (cases rule: item_ok_cases)
  case (quotes k v)
  then show ?thesis
    using split_quoted_plain [OF plain_facts(1) [OF quotes(2)], of False cur "''='' @ quoted v @ rest"]
      split_quoted_inside [of v "cur @ k @ ''='' @ [CHR 0x22]" "CHR 0x22 # rest"]
    by (simp add: quoted_def)
next
  case (bare k v)
  then show ?thesis
    using split_quoted_plain [OF plain_facts(1) [OF bare(2)], of False cur "''='' @ v @ rest"]
      split_quoted_plain [OF plain_facts(1) [OF bare(4)], of False "cur @ k @ ''=''" rest]
    by simp
qed

lemma quoted_trimmed [simp]: "trimmed (quoted v)"
  by (simp add: trimmed_def quoted_def is_ws_def)

lemma quoted_not_Nil [simp]: "quoted v \<noteq> []"
  by (simp add: quoted_def)

lemma trimmed_eq_append: "trimmed a \<Longrightarrow> trimmed b \<Longrightarrow> a \<noteq> [] \<Longrightarrow> b \<noteq> [] \<Longrightarrow> trimmed (a @ s @ b)"
  by (simp add: trimmed_def)

lemma item_text_trimmed:
  assumes "item_ok x"
  shows "trimmed (item_text x)" and "item_text x \<noteq> []"
proof -
  from assms show "trimmed (item_text x)"
  proof (cases rule: item_ok_cases)
    case (quotes k v)
    then show ?thesis
      using trimmed_eq_append [of k "quoted v" "''=''"] plain_facts [OF quotes(2)] by simp
  next
    case (bare k v)
    then show ?thesis
      using trimmed_eq_append [of k v "''=''"] plain_facts [OF bare(2)] plain_facts [OF bare(4)] by simp
  qed
  show "item_text x \<noteq> []" by (simp add: item_text_def)
qed

lemma split_join_items:
  assumes "list_all item_ok xs" and "xs \<noteq> []"
  shows "split_quoted False [] (join_items xs) = map item_text xs
      \<and> split_quoted False '' '' (join_items xs) = map item_text xs"
proof -
  have push: "push_param (item_text x) = [item_text x]" "push_param ('' '' @ item_text x) = [item_text x]"
    if "item_ok x" for x
    using item_text_trimmed [OF that] by (simp_all add: push_param_def Let_def trim_space)
  show ?thesis
    using assms
  proof (induction xs rule: join_items.induct)
    case (2 x)
    then show ?case
      using split_quoted_item [of x "[]" "[]"] split_quoted_item [of x "'' ''" "[]"] push [of x] by simp
  next
    case (3 x y xs)
    then show ?case
      using split_quoted_item [of x "[]" "'', '' @ join_items (y # xs)"]
        split_quoted_item [of x "'' ''" "'', '' @ join_items (y # xs)"] push [of x] by simp
  qed simp
qed

lemma unquote_quoted [simp]: "unquote (quoted v) = v"
proof -
  have "trim (quoted v) = quoted v" by simp
  then show ?thesis by (simp add: unquote_def quoted_def starts_with_def ends_with_def)
qed

lemma unquote_plain: "plain v \<Longrightarrow> unquote v = v"
  using plain_facts [of v] by (cases v) (auto simp: unquote_def starts_with_def)

lemma digest_param_item:
  assumes "item_ok x"
  shows "digest_param (item_text x) = Some (fst x, fst (snd x))"
  using assms
proof (cases rule: item_ok_cases)
  case (quotes k v)
  then show ?thesis
    using plain_facts [OF quotes(2)] by (simp add: digest_param_def)
next
  case (bare k v)
  then show ?thesis
    using plain_facts [OF bare(2)] plain_facts [OF bare(4)] by (simp add: digest_param_def unquote_plain)
qed

lemma join_items_not_Nil: "xs \<noteq> [] \<Longrightarrow> join_items xs \<noteq> []"
  by (cases xs rule: join_items.cases) (simp_all add: item_text_def)

lemma join_items_trimmed:
  assumes "list_all item_ok xs"
  shows "trimmed (join_items xs)"
  using assms
proof (induction xs rule: join_items.induct)
  case (3 x y xs)
  then show ?case
    using item_text_trimmed [of x] join_items_not_Nil [of "y # xs"]
      trimmed_eq_append [of "item_text x" "join_items (y # xs)" "'', ''"] by simp
qed (simp_all add: trimmed_def [of "[]"] item_text_trimmed)

lemma digest_items:
  assumes "list_all item_ok xs" and "xs \<noteq> []"
  shows "strip_prefix ''Digest'' (trim (''Digest '' @ join_items xs)) = Some ('' '' @ join_items xs)"
    and "split_digest_params (trim ('' '' @ join_items xs)) = map item_text xs"
    and "List.map_filter digest_param (map item_text xs) = map (\<lambda>x. (fst x, fst (snd x))) xs"
proof -
  note t = join_items_trimmed [OF assms(1)]
  have "trimmed (''Digest'' @ '' '' @ join_items xs)"
    using t join_items_not_Nil [OF assms(2)] by (simp add: trimmed_def is_ws_def)
  then have "trim (''Digest '' @ join_items xs) = ''Digest'' @ ('' '' @ join_items xs)" by simp
  then show "strip_prefix ''Digest'' (trim (''Digest '' @ join_items xs)) = Some ('' '' @ join_items xs)"
    by (simp only: strip_prefix_append)
  show "split_digest_params (trim ('' '' @ join_items xs)) = map item_text xs"
    using t split_join_items [OF assms] by (simp add: trim_space split_digest_params_def)
  show "List.map_filter digest_param (map item_text xs) = map (\<lambda>x. (fst x, fst (snd x))) xs"
    using assms(1) by (induction xs) (simp_all add: map_filter_simps digest_param_item)
qed

subsection \<open>A full exchange\<close>

definition quotable :: "string \<Rightarrow> bool" where
  "quotable s \<longleftrightarrow> s \<noteq> [] \<and> CHR 0x22 \<notin> set s"

definition response_items :: "digest_challenge \<Rightarrow> string \<Rightarrow> string \<Rightarrow> string \<Rightarrow> string \<Rightarrow> digest_item list" where
  "response_items ch user uri response cnonce =
     [(''username'', user, True), (''realm'', ch_realm ch, True), (''nonce'', ch_nonce ch, True),
      (''uri'', uri, True), (''response'', response, True),
      (''algorithm'', alg_as_str (ch_algorithm ch), False),
      (''qop'', ''auth'', False), (''nc'', ''00000001'', False), (''cnonce'', cnonce, True)]"

lemma plain_keys:
  "list_all (\<lambda>k. plain k \<and> to_ascii_lowercase k = k)
     [''username'', ''realm'', ''nonce'', ''uri'', ''response'', ''algorithm'', ''qop'', ''nc'', ''cnonce'']"
  by code_simp

lemma all_algorithms:
  "list_all (\<lambda>a. plain (alg_as_str a) \<and> alg_from_name (alg_as_str a) = a)
     [Alg_Md5, Alg_Md5Sess, Alg_Sha256, Alg_Sha256Sess]"
  by code_simp

lemma plain_values: "plain (alg_as_str a)" "plain ''auth''" "plain ''00000001''"
proof -
  show "plain (alg_as_str a)" using all_algorithms by (cases a) simp_all
qed code_simp+

lemma alg_roundtrip: "alg_from_name (alg_as_str a) = a"
  using all_algorithms by (cases a) simp_all

lemma response_items_ok:
  assumes "quotable user" and "quotable (ch_realm ch)" and "quotable (ch_nonce ch)" and "CHR 0x22 \<notin> set uri"
    and "quotable response" and "CHR 0x22 \<notin> set cnonce"
  shows "list_all item_ok (response_items ch user uri response cnonce)"
  using assms plain_keys plain_values by (simp add: response_items_def item_ok_def quotable_def)

lemma create_digest_response_items:
  assumes "qop_auth (ch_qop ch)" and "ch_opaque ch = None"
  shows "create_digest_response h cnonce ch creds meth uri = ''Digest '' @ join_items
    (response_items ch (dc_username creds) uri
       (compute_digest_response_hash h ch creds meth uri cnonce ''00000001'') cnonce)"
  using assms by (simp add: create_digest_response_def response_items_def item_text_def Let_def)

lemma parse_response:
  assumes "list_all item_ok (response_items ch user uri response cnonce)"
    and "user \<noteq> []" and "ch_nonce ch \<noteq> []" and "response \<noteq> []"
  shows "parse_authorization (''Digest '' @ join_items (response_items ch user uri response cnonce)) =
    Some \<lparr>pa_username = user, pa_realm = ch_realm ch, pa_nonce = ch_nonce ch, pa_uri = uri,
          pa_response = response, pa_algorithm = ch_algorithm ch, pa_qop = Some ''auth'', pa_opaque = None,
          pa_cnonce = Some cnonce, pa_nc = Some ''00000001''\<rparr>"
proof -
  have "response_items ch user uri response cnonce \<noteq> []" by (simp add: response_items_def)
  note d = digest_items [OF assms(1) this]
  show ?thesis
    using assms(2-)
    by (simp only: parse_authorization_def d option.case Let_def)
      (simp add: response_items_def auth_field_def auth_default_def alg_roundtrip)
qed

definition challenge_items :: "string \<Rightarrow> string \<Rightarrow> digest_algorithm \<Rightarrow> digest_item list" where
  "challenge_items realm nonce alg =
     [(''realm'', realm, True), (''nonce'', nonce, True), (''algorithm'', alg_as_str alg, False),
      (''qop'', ''auth'', True)]"

lemma parse_challenge:
  assumes "quotable realm" and "quotable nonce"
  shows "challenge_parse (''Digest '' @ join_items (challenge_items realm nonce alg)) =
    Some \<lparr>ch_realm = realm, ch_nonce = nonce, ch_algorithm = alg, ch_qop = Some ''auth'', ch_opaque = None,
          ch_stale = False, ch_domain = None\<rparr>"
proof -
  have ok: "list_all item_ok (challenge_items realm nonce alg)"
    using assms plain_keys plain_values by (simp add: challenge_items_def item_ok_def quotable_def)
  have "challenge_items realm nonce alg \<noteq> []" by (simp add: challenge_items_def)
  note d = digest_items [OF ok this]
  show ?thesis
    using assms ok
    by (simp only: challenge_parse_def d option.case Let_def)
      (simp add: challenge_items_def challenge_param_def digest_param_item alg_roundtrip quotable_def)
qed

definition server_realm :: "inbound_authenticator \<Rightarrow> auth_credentials \<Rightarrow> string" where
  "server_realm ia c = (if wildcard_realm c then ia_default_realm ia else ac_realm c)"

lemma get_header_last:
  assumes "\<forall>g \<in> set hs. \<not> eq_ignore_ascii_case (hdr_name g) name"
  shows "get_header (m\<lparr>msg_headers := hs @ [\<lparr>hdr_name = name, hdr_value = v\<rparr>]\<rparr>) name = Some v"
proof -
  have "find (\<lambda>g. eq_ignore_ascii_case (hdr_name g) name) (hs @ gs) = find (\<lambda>g. eq_ignore_ascii_case (hdr_name g) name) gs"
    for gs
    using assms by (induction hs) auto
  then show ?thesis by (simp add: get_header_def)
qed

lemma challenge_names:
  "list_all (\<lambda>n. \<not> eq_ignore_ascii_case n ''WWW-Authenticate'' \<and> \<not> eq_ignore_ascii_case n ''Proxy-Authenticate'')
     [''Via'', ''From'', ''To'', ''Call-ID'', ''CSeq'', ''Content-Length'']"
  by code_simp

lemma create_response_shape:
  assumes "msg_start_line request = Request r"
  obtains resp where "create_response request code reason = Inr resp" "status_code resp = Some code"
    "\<forall>g \<in> set (msg_headers resp). hdr_name g \<in> set [''Via'', ''From'', ''To'', ''Call-ID'', ''CSeq'', ''Content-Length'']"
proof -
  have "is_request request" using assms by (simp add: is_request_def)
  then obtain resp where resp: "create_response request code reason = Inr resp"
    by (simp add: create_response_def)
  then have "resp = projr (create_response request code reason)" by simp
  then have "status_code resp = Some code"
    and "\<forall>g \<in> set (msg_headers resp). hdr_name g \<in> set [''Via'', ''From'', ''To'', ''Call-ID'', ''CSeq'', ''Content-Length'']"
    using \<open>is_request request\<close> by (auto simp: create_response_def status_code_def)
  with resp that show thesis by blast
qed

lemma build_challenge_header:
  assumes "msg_start_line request = Request r" and "ia_supported_algorithms ia = alg # algs"
  shows "get_header (build_challenge ia nonce request [c] px)
      (if px then ''Proxy-Authenticate'' else ''WWW-Authenticate'')
    = Some (''Digest '' @ join_items (challenge_items (server_realm ia c) nonce alg))"
    and "status_code (build_challenge ia nonce request [c] px) = Some (if px then 407 else 401)"
proof -
  let ?n = "if px then ''Proxy-Authenticate'' else ''WWW-Authenticate''"
  obtain resp where resp: "create_response request (if px then 407 else 401)
      (if px then ''Proxy Authentication Required'' else ''Unauthorized'') = Inr resp"
    and code: "status_code resp = Some (if px then 407 else 401)"
    and names: "\<forall>g \<in> set (msg_headers resp). hdr_name g \<in> set [''Via'', ''From'', ''To'', ''Call-ID'', ''CSeq'', ''Content-Length'']"
    using assms(1) by (rule create_response_shape)
  have "\<forall>g \<in> set (msg_headers resp). \<not> eq_ignore_ascii_case (hdr_name g) ?n"
    using names challenge_names unfolding list_all_iff by (cases px) fastforce+
  note last = get_header_last [OF this]
  have shown: "''Digest realm='' @ quoted (server_realm ia c) @ '', nonce='' @ quoted nonce
      @ '', algorithm='' @ alg_as_str alg @ '', qop='' @ quoted ''auth''
      = ''Digest '' @ join_items (challenge_items (server_realm ia c) nonce alg)"
    by (simp add: challenge_items_def item_text_def)
  have realm: "(case find (\<lambda>c. \<not> wildcard_realm c) [c] of Some c \<Rightarrow> ac_realm c | None \<Rightarrow> ia_default_realm ia)
      = server_realm ia c"
    by (simp add: server_realm_def)
  have "build_challenge ia nonce request [c] px = resp\<lparr>msg_headers := msg_headers resp @
      [\<lparr>hdr_name = ?n, hdr_value = ''Digest '' @ join_items (challenge_items (server_realm ia c) nonce alg)\<rparr>]\<rparr>"
    unfolding build_challenge_def realm shown [symmetric] using resp assms(2) by (cases px) simp_all
  then show "get_header (build_challenge ia nonce request [c] px) ?n
      = Some (''Digest '' @ join_items (challenge_items (server_realm ia c) nonce alg))"
    and "status_code (build_challenge ia nonce request [c] px) = Some (if px then 407 else 401)"
    using last code by (simp_all add: status_code_def)
qed

lemma digest_exchange_aux:
  assumes "msg_start_line request = Request r" and "get_header request (auth_header_name px) = None"
    and "ia_supported_algorithms ia = alg # algs"
    and "retry_headers new_branch False (msg_headers request) = Some hs"
    and "quotable (ac_username c)" and "quotable (server_realm ia c)" and "quotable nonce"
    and "CHR 0x22 \<notin> set cnonce" and "CHR 0x22 \<notin> set (uri_display (rl_uri r))"
    and "\<forall>s. quotable (fst h s) \<and> quotable (snd h s)"
  shows "\<exists>challenge retry. verify h ia nonce request [c] px = Inl challenge
    \<and> create_authenticated_request h cnonce new_branch request challenge [c] = Some (Some retry)
    \<and> verify h ia nonce' retry [c] px = Inr ()"
proof -
  define ch where "ch = \<lparr>ch_realm = server_realm ia c, ch_nonce = nonce, ch_algorithm = alg,
    ch_qop = Some ''auth'', ch_opaque = None, ch_stale = False, ch_domain = None\<rparr>"
  define uri where "uri = uri_display (rl_uri r)"
  define creds where "creds = \<lparr>dc_username = ac_username c, dc_password = ac_password c, dc_realm = server_realm ia c\<rparr>"
  define resp where "resp = compute_digest_response_hash h ch creds (method_as_str (rl_method r)) uri cnonce ''00000001''"
  define auth where "auth = ''Digest '' @ join_items (response_items ch (ac_username c) uri resp cnonce)"
  define retry where "retry = request\<lparr>msg_headers :=
    filter (\<lambda>g. \<not> eq_ignore_ascii_case (hdr_name g) (auth_header_name px)) hs
      @ [\<lparr>hdr_name = auth_header_name px, hdr_value = auth\<rparr>]\<rparr>"
  have qop: "qop_auth (Some ''auth'')" by code_simp
  have "quotable resp"
    using assms(10) by (simp add: resp_def compute_digest_response_hash_def Let_def compute_hash_def
        split: digest_algorithm.split)
  then have ok: "list_all item_ok (response_items ch (ac_username c) uri resp cnonce)"
    using assms by (intro response_items_ok) (simp_all add: ch_def uri_def)
  have "verify h ia nonce request [c] px = Inl (build_challenge ia nonce request [c] px)"
    using assms(2) by (simp add: verify_def)
  moreover have "create_authenticated_request h cnonce new_branch request
      (build_challenge ia nonce request [c] px) [c] = Some (Some retry)"
  proof -
    have "find (\<lambda>x. wildcard_realm x \<or> ac_realm x = server_realm ia c) [c] = Some c"
      by (simp add: server_realm_def)
    moreover have "auth = create_digest_response h cnonce ch creds (method_as_str (rl_method r)) uri"
      using create_digest_response_items [of ch h cnonce creds "method_as_str (rl_method r)" uri] qop
      by (simp add: auth_def resp_def ch_def creds_def)
    ultimately show ?thesis
      using assms(1,4) build_challenge_header [OF assms(1,3), of nonce c px]
        parse_challenge [OF assms(6,7), of alg]
      by (cases px) (simp_all add: create_authenticated_request_def retry_def auth_header_name_def
          ch_def creds_def uri_def)
  qed
  moreover have "verify h ia nonce' retry [c] px = Inr ()"
  proof -
    have "get_header retry (auth_header_name px) = Some auth"
      unfolding retry_def by (rule get_header_last) simp
    moreover have "msg_method retry = Some (rl_method r)"
      using assms(1) by (simp add: retry_def msg_method_def)
    moreover have "parse_authorization auth = Some \<lparr>pa_username = ac_username c, pa_realm = server_realm ia c,
        pa_nonce = nonce, pa_uri = uri, pa_response = resp, pa_algorithm = alg, pa_qop = Some ''auth'',
        pa_opaque = None, pa_cnonce = Some cnonce, pa_nc = Some ''00000001''\<rparr>"
      using parse_response [OF ok] assms(5,7) \<open>quotable resp\<close> by (simp add: auth_def quotable_def ch_def)
    ultimately show ?thesis
      using qop by (simp add: verify_def expected_response_def Let_def server_realm_def resp_def ch_def creds_def)
  qed
  ultimately show ?thesis by blast
qed

text \<open>
  (C16) A client with the right password gets in: when a request without credentials is challenged
  by the inbound authenticator, the retry that the outbound authenticator builds from the
  challenge is accepted, whatever the hash functions compute, for every supported algorithm, for
  401 and 407, and for wildcard realms; it needs only user name, realm, nonces and URI without
  quotation marks.
\<close>
theorem digest_exchange:
  assumes "msg_start_line request = Request r" and "get_header request (auth_header_name px) = None"
    and "ia_supported_algorithms ia = alg # algs"
    and "retry_headers new_branch False (msg_headers request) = Some hs"
    and "quotable (ac_username c)" and "quotable (server_realm ia c)" and "quotable nonce"
    and "CHR 0x22 \<notin> set cnonce" and "CHR 0x22 \<notin> set (uri_display (rl_uri r))"
    and "\<forall>s. quotable (fst h s) \<and> quotable (snd h s)"
  shows "\<exists>challenge retry. verify h ia nonce request [c] px = Inl challenge
    \<and> create_authenticated_request h cnonce new_branch request challenge [c] = Some (Some retry)
    \<and> verify h ia nonce' retry [c] px = Inr ()"
  using assms by (rule digest_exchange_aux)

definition sample_request :: sip_message where
  "sample_request =
     \<lparr>msg_start_line = Request \<lparr>rl_method = Register,
        rl_uri = \<lparr>uri_scheme = ''sip'', uri_user = None, uri_password = None, uri_host = ''pbx'',
                  uri_port = None, uri_parameters = [], uri_headers = []\<rparr>, rl_version = ''SIP/2.0''\<rparr>,
      msg_headers = [], msg_body = []\<rparr>"

definition sample_hash :: hasher where
  "sample_hash = (\<lambda>s. CHR ''m'' # filter (\<lambda>c. c \<noteq> CHR 0x22) s, \<lambda>s. CHR ''s'' # filter (\<lambda>c. c \<noteq> CHR 0x22) s)"

lemma sample_exchange:
  "\<exists>challenge retry.
     verify sample_hash inbound_new ''n1'' sample_request [credentials_new ''alice'' ''secret'' []] False = Inl challenge
     \<and> create_authenticated_request sample_hash ''c1'' ''z9hG4bKb'' sample_request challenge
          [credentials_new ''alice'' ''secret'' []] = Some (Some retry)
     \<and> verify sample_hash inbound_new ''n2'' retry [credentials_new ''alice'' ''secret'' []] False = Inr ()"
  by (rule digest_exchange_aux [where alg = Alg_Md5 and algs = "[Alg_Sha256]" and hs = "[]"
        and r = "\<lparr>rl_method = Register,
          rl_uri = \<lparr>uri_scheme = ''sip'', uri_user = None, uri_password = None, uri_host = ''pbx'',
                    uri_port = None, uri_parameters = [], uri_headers = []\<rparr>, rl_version = ''SIP/2.0''\<rparr>"])
    (simp_all add: sample_request_def sample_hash_def inbound_new_def credentials_new_def quotable_def
      server_realm_def wildcard_realm_def get_header_def uri_display_def show_userinfo_def host_display_def
      is_ipv6_host_def show_port_def)

theorem digest_exchange_witness:
  "\<exists>challenge retry.
     verify sample_hash inbound_new ''n1'' sample_request [credentials_new ''alice'' ''secret'' []] False = Inl challenge
     \<and> create_authenticated_request sample_hash ''c1'' ''z9hG4bKb'' sample_request challenge
          [credentials_new ''alice'' ''secret'' []] = Some (Some retry)
     \<and> verify sample_hash inbound_new ''n2'' retry [credentials_new ''alice'' ''secret'' []] False = Inr ()"
  by (rule digest_exchange [where alg = Alg_Md5 and algs = "[Alg_Sha256]" and hs = "[]"
        and r = "\<lparr>rl_method = Register,
          rl_uri = \<lparr>uri_scheme = ''sip'', uri_user = None, uri_password = None, uri_host = ''pbx'',
                    uri_port = None, uri_parameters = [], uri_headers = []\<rparr>, rl_version = ''SIP/2.0''\<rparr>"])
    (simp_all add: sample_request_def sample_hash_def inbound_new_def credentials_new_def quotable_def
      server_realm_def wildcard_realm_def get_header_def uri_display_def show_userinfo_def host_display_def
      is_ipv6_host_def show_port_def)

text \<open>
  (C39) Acceptance depends only on the method and the Authorization header: neither the nonce that
  the server issued last nor the URI, the sequence number or the body of the request plays a role.
  An eavesdropper can therefore replay the Authorization header of an accepted request on any later
  request of the same method.
\<close>
theorem digest_replay:
  assumes "verify h ia nonce request creds px = Inr ()"
    and "get_header forged (auth_header_name px) = get_header request (auth_header_name px)"
    and "msg_method forged = msg_method request"
  shows "verify h ia nonce' forged creds px = Inr ()"
  using assms by (auto simp: verify_def Let_def split: option.splits if_splits)

theorem digest_replay_witness:
  "\<exists>retry. verify sample_hash inbound_new ''n2'' retry [credentials_new ''alice'' ''secret'' []] False = Inr ()
     \<and> verify sample_hash inbound_new ''n3'' (retry\<lparr>msg_body := ''other''\<rparr>)
         [credentials_new ''alice'' ''secret'' []] False = Inr ()"
proof -
  obtain retry where retry: "verify sample_hash inbound_new ''n2'' retry [credentials_new ''alice'' ''secret'' []] False = Inr ()"
    using sample_exchange by blast
  have "verify sample_hash inbound_new ''n3'' (retry\<lparr>msg_body := ''other''\<rparr>) [credentials_new ''alice'' ''secret'' []] False = Inr ()"
    by (rule digest_replay [OF retry]) (simp_all add: get_header_def msg_method_def)
  with retry show ?thesis by blast
qed

end
