(* ===== verification/Sip_Session.thy ===== *)
theory Sip_Session
  imports Sip_Dialog Sip_Offer Sip_Acl Sip_Auth
begin

section \<open>SIP sessions\<close>

text \<open>
  The INVITE sessions of \<^verbatim>\<open>asterisk-sip/src/session/mod.rs\<close>: their creation, the handling of
  responses, and the requests and responses they build. Random UUIDs and the transport
  configuration, which the code reads from a global, are arguments. The RTP socket of a session is
  left out: nothing in this module touches it. Where an operation increments a counter of fixed
  width, the outer option is \<^const>\<open>None\<close> on overflow, where a checked build panics.
\<close>

datatype session_state = SS_Initiated | SS_Early | SS_Established | SS_Terminating | SS_Terminated

record early_media_config =
  follow_early_media_fork :: bool
  accept_multiple_sdp_answers :: bool

definition early_media_config_default :: early_media_config where
  "early_media_config_default = \<lparr>follow_early_media_fork = True, accept_multiple_sdp_answers = False\<rparr>"

record early_media_state =
  em_forked :: bool
  em_forked_from :: "sip_uri list"
  em_selected_fork :: "nat option"
  em_fork_tags :: "string list"

definition early_media_default :: early_media_state where
  "early_media_default = \<lparr>em_forked = False, em_forked_from = [], em_selected_fork = None, em_fork_tags = []\<rparr>"

definition on_provisional :: "string \<Rightarrow> sip_uri option \<Rightarrow> early_media_state \<Rightarrow> bool \<times> early_media_state" where
  "on_provisional to_tag contact_uri em =
     (if to_tag \<in> set (em_fork_tags em) then (False, em)
      else
        let em = em\<lparr>em_fork_tags := em_fork_tags em @ [to_tag]\<rparr>;
            em = (case contact_uri of Some u \<Rightarrow> em\<lparr>em_forked_from := em_forked_from em @ [u]\<rparr> | None \<Rightarrow> em);
            em = (if 1 < length (em_fork_tags em) then em\<lparr>em_forked := True\<rparr> else em);
            em = (if em_selected_fork em = None then em\<lparr>em_selected_fork := Some 0\<rparr> else em)
        in (True, em))"

definition select_fork :: "nat \<Rightarrow> early_media_state \<Rightarrow> early_media_state" where
  "select_fork i em = (if i < length (em_fork_tags em) then em\<lparr>em_selected_fork := Some i\<rparr> else em)"

definition is_selected_fork :: "early_media_state \<Rightarrow> string \<Rightarrow> bool" where
  "is_selected_fork em to_tag \<longleftrightarrow>
     (case em_selected_fork em of
        Some i \<Rightarrow> i < length (em_fork_tags em) \<and> em_fork_tags em ! i = to_tag
      | None \<Rightarrow> False)"

definition fork_count :: "early_media_state \<Rightarrow> nat" where
  "fork_count em = length (em_fork_tags em)"

record sip_session =
  ss_id :: string
  ss_state :: session_state
  ss_dialog :: "dialog option"
  ss_local_sdp :: "session_description option"
  ss_initial_local_sdp :: "session_description option"
  ss_remote_sdp :: "session_description option"
  ss_local_addr :: socket_addr
  ss_remote_addr :: socket_addr
  ss_invite :: "sip_message option"
  ss_is_outbound :: bool
  ss_call_id :: string
  ss_local_tag :: string
  ss_early_media :: early_media_state
  ss_early_media_config :: early_media_config
  ss_outbound_auth :: "auth_credentials option"
  ss_auth_attempts :: u32
  ss_from_user :: "string option"
  ss_from_domain :: "string option"

definition new_outbound :: "string \<Rightarrow> string \<Rightarrow> string \<Rightarrow> socket_addr \<Rightarrow> socket_addr \<Rightarrow> sip_session" where
  "new_outbound uuid_id uuid_call uuid_tag local_addr remote_addr =
     \<lparr>ss_id = uuid_id, ss_state = SS_Initiated, ss_dialog = None, ss_local_sdp = None,
      ss_initial_local_sdp = None, ss_remote_sdp = None, ss_local_addr = local_addr,
      ss_remote_addr = remote_addr, ss_invite = None, ss_is_outbound = True,
      ss_call_id = uuid_call @ ''@'' @ fst local_addr, ss_local_tag = take 8 uuid_tag,
      ss_early_media = early_media_default, ss_early_media_config = early_media_config_default,
      ss_outbound_auth = None, ss_auth_attempts = 0, ss_from_user = None, ss_from_domain = None\<rparr>"

definition new_inbound ::
    "string \<Rightarrow> string \<Rightarrow> sip_message \<Rightarrow> socket_addr \<Rightarrow> socket_addr \<Rightarrow> sip_session option" where
  "new_inbound uuid_tag uuid_id invite local_addr remote_addr =
     Option.bind (call_id invite) (\<lambda>cid.
       let local_tag = take 8 uuid_tag
       in Some \<lparr>ss_id = uuid_id, ss_state = SS_Initiated, ss_dialog = from_uas_request invite local_tag,
                ss_local_sdp = None, ss_initial_local_sdp = None,
                ss_remote_sdp = (if msg_body invite \<noteq> [] then Some (sdp_parse (msg_body invite)) else None),
                ss_local_addr = local_addr, ss_remote_addr = remote_addr, ss_invite = Some invite,
                ss_is_outbound = False, ss_call_id = cid, ss_local_tag = local_tag,
                ss_early_media = early_media_default, ss_early_media_config = early_media_config_default,
                ss_outbound_auth = None, ss_auth_attempts = 0, ss_from_user = None, ss_from_domain = None\<rparr>)"

definition signaling_hostport :: "transport_config list option \<Rightarrow> sip_session \<Rightarrow> string" where
  "signaling_hostport cfg s = advertised_signaling_hostport cfg (ss_local_addr s) (ss_remote_addr s)"

definition from_uri :: "transport_config list option \<Rightarrow> sip_session \<Rightarrow> string" where
  "from_uri cfg s =
     (let user = unwrap_or ''asterisk'' (ss_from_user s)
      in case ss_from_domain s of
           Some domain \<Rightarrow> ''sip:'' @ user @ ''@'' @ domain
         | None \<Rightarrow> ''sip:'' @ user @ ''@'' @ signaling_hostport cfg s)"

definition mk_branch :: "string \<Rightarrow> string" where
  "mk_branch uuid = ''z9hG4bK'' @ take 16 (filter (\<lambda>c. c \<noteq> CHR ''-'') uuid)"

definition fallback_uri :: "sip_session \<Rightarrow> sip_uri" where
  "fallback_uri s =
     \<lparr>uri_scheme = ''sip'', uri_user = None, uri_password = None, uri_host = fst (ss_remote_addr s),
      uri_port = Some (snd (ss_remote_addr s)), uri_parameters = [], uri_headers = []\<rparr>"

definition parse_uri_or :: "sip_uri \<Rightarrow> string \<Rightarrow> sip_uri" where
  "parse_uri_or d u = (case uri_parse u of Inr v \<Rightarrow> v | Inl _ \<Rightarrow> d)"

definition mk_request :: "sip_method \<Rightarrow> sip_uri \<Rightarrow> (string \<times> string) list \<Rightarrow> string \<Rightarrow> sip_message" where
  "mk_request meth uri hs body =
     \<lparr>msg_start_line = Request \<lparr>rl_method = meth, rl_uri = uri, rl_version = ''SIP/2.0''\<rparr>,
      msg_headers = map (\<lambda>(n, v). \<lparr>hdr_name = n, hdr_value = v\<rparr>) hs, msg_body = body\<rparr>"

definition via_value :: "string \<Rightarrow> string \<Rightarrow> string" where
  "via_value sig uuid = ''SIP/2.0/UDP '' @ sig @ '';branch='' @ mk_branch uuid"

definition tagged :: "string \<Rightarrow> string \<Rightarrow> string" where
  "tagged uri tag = ''<'' @ uri @ ''>;tag='' @ tag"

definition build_invite_with_uri ::
    "transport_config list option \<Rightarrow> string \<Rightarrow> string \<Rightarrow> string \<Rightarrow> sip_session \<Rightarrow> sip_message \<times> sip_session" where
  "build_invite_with_uri cfg uuid request_uri to_uri s =
     (let sig = signaling_hostport cfg s;
          uri = parse_uri_or (fallback_uri s) request_uri;
          body = (case ss_local_sdp s of Some sdp \<Rightarrow> sdp_display sdp | None \<Rightarrow> []);
          msg = mk_request Invite uri
            ([(''Via'', via_value sig uuid), (''Max-Forwards'', ''70''),
              (''From'', tagged (from_uri cfg s) (ss_local_tag s)), (''To'', ''<'' @ to_uri @ ''>''),
              (''Call-ID'', ss_call_id s), (''CSeq'', ''1 INVITE''),
              (''Contact'', ''<sip:asterisk@'' @ sig @ ''>''), (''User-Agent'', ''Rustisk/0.1.0''),
              (''Allow'', ''INVITE, ACK, CANCEL, BYE, OPTIONS, REFER, NOTIFY'')]
             @ (if body \<noteq> [] then [(''Content-Type'', ''application/sdp'')] else [])
             @ [(''Content-Length'', show_nat (length body))]) body
      in (msg, s\<lparr>ss_invite := Some msg\<rparr>))"

definition build_invite ::
    "transport_config list option \<Rightarrow> string \<Rightarrow> string \<Rightarrow> sip_session \<Rightarrow> sip_message \<times> sip_session" where
  "build_invite cfg uuid to_uri s = build_invite_with_uri cfg uuid to_uri to_uri s"

subsection \<open>Responses to our INVITE\<close>

definition on_early_media :: "sip_message \<Rightarrow> sip_session \<Rightarrow> sip_session" where
  "on_early_media response s =
     (case Option.bind (to_header response) extract_tag of
        None \<Rightarrow> s
      | Some to_tag \<Rightarrow>
          (let contact_uri = Option.bind (get_header response ''Contact'') (\<lambda>c.
                 Option.bind (extract_uri c) (\<lambda>u. case uri_parse u of Inr v \<Rightarrow> Some v | Inl _ \<Rightarrow> None));
               em = snd (on_provisional to_tag contact_uri (ss_early_media s));
               s = s\<lparr>ss_early_media := em\<rparr>
           in if (follow_early_media_fork (ss_early_media_config s) \<or> is_selected_fork em to_tag)
                 \<and> msg_body response \<noteq> []
                 \<and> (accept_multiple_sdp_answers (ss_early_media_config s) \<or> ss_remote_sdp s = None)
              then s\<lparr>ss_remote_sdp := Some (sdp_parse (msg_body response))\<rparr> else s))"

definition session_on_response :: "sip_message \<Rightarrow> sip_session \<Rightarrow> sip_session" where
  "session_on_response response s =
     (let status = (case status_code response of Some c \<Rightarrow> unat c | None \<Rightarrow> 0)
      in if 100 \<le> status \<and> status \<le> 199 then
           (let s = on_early_media response (s\<lparr>ss_state := SS_Early\<rparr>)
            in case (ss_invite s, ss_dialog s) of
                 (Some invite, None) \<Rightarrow> s\<lparr>ss_dialog := from_uac_response invite response\<rparr>
               | _ \<Rightarrow> s)
         else if 200 \<le> status \<and> status \<le> 299 then
           (let s = s\<lparr>ss_state := SS_Established\<rparr>;
                s = (case ss_invite s of
                       Some invite \<Rightarrow>
                         (case ss_dialog s of
                            Some d \<Rightarrow> s\<lparr>ss_dialog := Some (dlg_confirm d)\<rparr>
                          | None \<Rightarrow> s\<lparr>ss_dialog := from_uac_response invite response\<rparr>)
                     | None \<Rightarrow> s)
            in if msg_body response \<noteq> []
               then s\<lparr>ss_remote_sdp := Some (sdp_parse (msg_body response))\<rparr> else s)
         else if 300 \<le> status \<and> status \<le> 699 then
           s\<lparr>ss_state := SS_Terminated, ss_dialog := map_option dlg_terminate (ss_dialog s)\<rparr>
         else s)"

subsection \<open>Answering\<close>

definition SUPPORTED_METHODS :: string where
  "SUPPORTED_METHODS = ''INVITE, ACK, CANCEL, BYE, OPTIONS, REFER, NOTIFY, UPDATE''"

definition dialog_headers :: "string \<Rightarrow> sip_message \<Rightarrow> sip_header list" where
  "dialog_headers sig invite =
     map (\<lambda>rr. \<lparr>hdr_name = ''Record-Route'', hdr_value = rr\<rparr>) (get_headers invite ''Record-Route'')
     @ [\<lparr>hdr_name = ''Contact'', hdr_value = ''<sip:asterisk@'' @ sig @ ''>''\<rparr>,
        \<lparr>hdr_name = ''Allow'', hdr_value = SUPPORTED_METHODS\<rparr>]"

definition add_to_tag :: "string \<Rightarrow> sip_header \<Rightarrow> sip_header" where
  "add_to_tag tag h =
     (if eq_ignore_ascii_case (hdr_name h) ''To'' \<and> \<not> contains_sub ''tag='' (hdr_value h)
      then h\<lparr>hdr_value := hdr_value h @ '';tag='' @ tag\<rparr> else h)"

definition set_content_length :: "nat \<Rightarrow> sip_header \<Rightarrow> sip_header" where
  "set_content_length n h =
     (if eq_ignore_ascii_case (hdr_name h) ''Content-Length'' then h\<lparr>hdr_value := show_nat n\<rparr> else h)"

definition build_200_ok_with_signaling_hostport :: "string \<Rightarrow> sip_session \<Rightarrow> sip_message option" where
  "build_200_ok_with_signaling_hostport sig s =
     Option.bind (ss_invite s) (\<lambda>invite.
       case create_response invite 200 ''OK'' of
         Inl _ \<Rightarrow> None
       | Inr response \<Rightarrow>
           (let hs = map (add_to_tag (ss_local_tag s)) (msg_headers response @ dialog_headers sig invite)
            in case ss_local_sdp s of
                 None \<Rightarrow> Some (response\<lparr>msg_headers := hs\<rparr>)
               | Some sdp \<Rightarrow>
                   (let body = sdp_display sdp
                    in Some (response\<lparr>msg_headers := map (set_content_length (length body)) hs
                                        @ [\<lparr>hdr_name = ''Content-Type'', hdr_value = ''application/sdp''\<rparr>],
                                      msg_body := body\<rparr>))))"

definition build_200_ok :: "transport_config list option \<Rightarrow> sip_session \<Rightarrow> sip_message option" where
  "build_200_ok cfg s = build_200_ok_with_signaling_hostport (signaling_hostport cfg s) s"

definition session_update_remote_target :: "string \<Rightarrow> sip_session \<Rightarrow> sip_session" where
  "session_update_remote_target contact_uri s =
     s\<lparr>ss_dialog := map_option (dlg_update_remote_target contact_uri) (ss_dialog s)\<rparr>"

definition uri_socket_addr :: "string \<Rightarrow> socket_addr option" where
  "uri_socket_addr u =
     (case uri_parse u of
        Inr v \<Rightarrow> map_option (\<lambda>ip. (ip, unwrap_or 5060 (uri_port v))) (canonical_ip (uri_host v))
      | Inl _ \<Rightarrow> None)"

definition remote_target_addr :: "sip_session \<Rightarrow> socket_addr option" where
  "remote_target_addr s = Option.bind (ss_dialog s) (\<lambda>d. uri_socket_addr (dlg_remote_target d))"

definition invite_cseq_num :: "sip_session \<Rightarrow> u32" where
  "invite_cseq_num s = unwrap_or 1 (Option.bind (ss_invite s) dlg_cseq_number)"

subsection \<open>Requests inside the dialog\<close>

definition in_dialog_routing :: "sip_session \<Rightarrow> (string \<times> string list) option" where
  "in_dialog_routing s =
     Option.bind (ss_dialog s) (\<lambda>d.
       let target = (if dlg_remote_target d = [] then dlg_remote_uri d else dlg_remote_target d)
       in if target = [] then None
          else case dlg_route_set d of
                 [] \<Rightarrow> Some (target, [])
               | first # rest \<Rightarrow>
                   (let first_uri = unwrap_or first (extract_uri first);
                        loose = (case uri_parse first_uri of
                                   Inr u \<Rightarrow> hget (uri_parameters u) ''lr'' \<noteq> None | Inl _ \<Rightarrow> True)
                    in if loose then Some (target, first # rest)
                       else Some (first_uri, rest @ [''<'' @ target @ ''>''])))"

definition in_dialog_next_hop :: "sip_session \<Rightarrow> socket_addr option" where
  "in_dialog_next_hop s =
     Option.bind (ss_dialog s) (\<lambda>d.
       Option.bind (case dlg_route_set d of
                      first # _ \<Rightarrow> extract_uri first
                    | [] \<Rightarrow> if dlg_remote_target d \<noteq> [] then Some (dlg_remote_target d) else None)
         uri_socket_addr)"

definition before_sub :: "string \<Rightarrow> string \<Rightarrow> string" where
  "before_sub p s = (case find_sub p s of Some i \<Rightarrow> take i s | None \<Rightarrow> s)"

definition request_uri_of :: "sip_message \<Rightarrow> sip_uri option" where
  "request_uri_of m = (case msg_start_line m of Request r \<Rightarrow> Some (rl_uri r) | Response _ \<Rightarrow> None)"

definition route_headers :: "string list \<Rightarrow> (string \<times> string) list" where
  "route_headers routes = map (\<lambda>r. (''Route'', r)) routes"

definition build_ack :: "transport_config list option \<Rightarrow> string \<Rightarrow> sip_session \<Rightarrow> sip_message option" where
  "build_ack cfg uuid s =
     Option.bind (ss_invite s) (\<lambda>invite.
     Option.bind (ss_dialog s) (\<lambda>d.
     Option.bind (case in_dialog_routing s of
                    Some x \<Rightarrow> Some x
                  | None \<Rightarrow> map_option (\<lambda>u. (uri_display u, [])) (request_uri_of invite)) (\<lambda>(request_uri, routes).
     Option.bind (case uri_parse request_uri of Inr u \<Rightarrow> Some u | Inl _ \<Rightarrow> request_uri_of invite) (\<lambda>uri.
     Option.bind (from_header invite) (\<lambda>from_hdr.
     Option.bind (to_header invite) (\<lambda>to_hdr.
       Some (mk_request Ack uri
         ([(''Via'', via_value (signaling_hostport cfg s) uuid), (''Max-Forwards'', ''70''), (''From'', from_hdr),
           (''To'', before_sub '';tag='' to_hdr @ '';tag='' @ dlg_remote_tag d), (''Call-ID'', ss_call_id s),
           (''CSeq'', show_nat (unat (invite_cseq_num s)) @ '' ACK'')]
          @ route_headers routes @ [(''Content-Length'', ''0'')]) [])))))))"

definition build_auth_retry_invite ::
    "hasher \<Rightarrow> string \<Rightarrow> string \<Rightarrow> sip_message \<Rightarrow> sip_session \<Rightarrow> (sip_message option \<times> sip_session) option" where
  "build_auth_retry_invite h cnonce branch challenge s =
     (case (ss_outbound_auth s, ss_invite s) of
        (Some creds, Some invite) \<Rightarrow>
          (case create_authenticated_request h cnonce branch invite challenge [creds] of
             None \<Rightarrow> None
           | Some None \<Rightarrow> Some (None, s)
           | Some (Some retry) \<Rightarrow>
               if ss_auth_attempts s = - 1 then None
               else Some (Some retry, s\<lparr>ss_auth_attempts := ss_auth_attempts s + 1, ss_invite := Some retry,
                                         ss_state := SS_Initiated\<rparr>))
      | _ \<Rightarrow> Some (None, s))"

definition in_dialog_headers ::
    "transport_config list option \<Rightarrow> string \<Rightarrow> sip_session \<Rightarrow> dialog \<Rightarrow> string \<Rightarrow> (string \<times> string) list" where
  "in_dialog_headers cfg uuid s d cseq_value =
     [(''Via'', via_value (signaling_hostport cfg s) uuid), (''Max-Forwards'', ''70''),
      (''From'', tagged (from_uri cfg s) (dlg_local_tag d)), (''To'', tagged (dlg_remote_uri d) (dlg_remote_tag d)),
      (''Call-ID'', ss_call_id s), (''CSeq'', cseq_value)]"

definition build_bye ::
    "transport_config list option \<Rightarrow> string \<Rightarrow> sip_session \<Rightarrow> (sip_message option \<times> sip_session) option" where
  "build_bye cfg uuid s =
     (let (request_uri, routes) = unwrap_or (''sip:'' @ show_socket_addr (ss_remote_addr s), []) (in_dialog_routing s)
      in case ss_dialog s of
           None \<Rightarrow> Some (None, s)
         | Some d \<Rightarrow>
             (case next_cseq d of
                None \<Rightarrow> None
              | Some (n, d') \<Rightarrow>
                  Some (Some (mk_request Bye (parse_uri_or (fallback_uri s) request_uri)
                          (in_dialog_headers cfg uuid s d' (show_nat (unat n) @ '' BYE'')
                           @ route_headers routes @ [(''Content-Length'', ''0'')]) []),
                        s\<lparr>ss_dialog := Some d', ss_state := SS_Terminating\<rparr>)))"

definition build_cancel :: "sip_session \<Rightarrow> sip_message option" where
  "build_cancel s =
     Option.bind (ss_invite s) (\<lambda>invite.
     Option.bind (request_uri_of invite) (\<lambda>uri.
     Option.bind (get_header invite ''Via'') (\<lambda>via.
     Option.bind (from_header invite) (\<lambda>from_hdr.
     Option.bind (to_header invite) (\<lambda>to_hdr.
       Some (mk_request Cancel uri
         [(''Via'', via), (''Max-Forwards'', ''70''), (''From'', from_hdr), (''To'', to_hdr),
          (''Call-ID'', ss_call_id s), (''CSeq'', show_nat (unat (invite_cseq_num s)) @ '' CANCEL''),
          (''Content-Length'', ''0'')] []))))))"

definition build_reinvite ::
    "transport_config list option \<Rightarrow> string \<Rightarrow> session_description \<Rightarrow> sip_session
     \<Rightarrow> (sip_message option \<times> sip_session) option" where
  "build_reinvite cfg uuid sdp s =
     (case ss_dialog s of
        None \<Rightarrow> Some (None, s)
      | Some d \<Rightarrow>
          (case next_cseq d of
             None \<Rightarrow> None
           | Some (n, d') \<Rightarrow>
               (let body = sdp_display sdp
                in Some (Some (mk_request Invite (parse_uri_or (fallback_uri s) (dlg_remote_target d'))
                        (in_dialog_headers cfg uuid s d' (show_nat (unat n) @ '' INVITE'')
                         @ [(''Contact'', ''<sip:asterisk@'' @ signaling_hostport cfg s @ ''>''),
                            (''Content-Type'', ''application/sdp''), (''Content-Length'', show_nat (length body))]) body),
                      s\<lparr>ss_dialog := Some d', ss_local_sdp := Some sdp\<rparr>))))"

definition build_reinvite_ack ::
    "transport_config list option \<Rightarrow> string \<Rightarrow> sip_message \<Rightarrow> sip_session \<Rightarrow> sip_message option" where
  "build_reinvite_ack cfg uuid response s =
     Option.bind (ss_dialog s) (\<lambda>d.
       let cseq_num = unwrap_or 1 (dlg_cseq_number response)
       in Some (mk_request Ack (parse_uri_or (fallback_uri s) (dlg_remote_target d))
            (in_dialog_headers cfg uuid s d (show_nat (unat cseq_num) @ '' ACK'') @ [(''Content-Length'', ''0'')]) []))"

definition session_terminate :: "sip_session \<Rightarrow> sip_session" where
  "session_terminate s =
     s\<lparr>ss_state := SS_Terminated, ss_dialog := map_option dlg_terminate (ss_dialog s)\<rparr>"

end
