(* ===== verification/Sip_Transaction.thy ===== *)
theory Sip_Transaction
  imports Sip_Parser
begin

section \<open>SIP transaction state machines\<close>

text \<open>
  The four transaction machines of \<^verbatim>\<open>asterisk-sip/src/transaction/mod.rs\<close>: INVITE and
  non-INVITE, client and server. Instants and durations are nanoseconds as natural numbers, and
  every operation that reads the clock takes its reading \<open>now\<close> as an argument;
  \<^verbatim>\<open>Instant::elapsed\<close> saturates at zero, as the subtraction of natural numbers does. The timer
  tasks that \<^verbatim>\<open>start\<close> spawns are loops that need not end, hence partial functions whose
  value is the trace of what they send.
\<close>

named_theorems sip_timer \<open>the durations\<close>
named_theorems txn_ops \<open>the operations of the transactions\<close>

subsection \<open>Timers\<close>

definition from_millis :: "nat \<Rightarrow> nat" where [sip_timer]: "from_millis n = n * 1000000"
definition from_secs :: "nat \<Rightarrow> nat" where [sip_timer]: "from_secs n = n * 1000000000"

definition T1 :: nat where [sip_timer]: "T1 = from_millis 500"
definition T2 :: nat where [sip_timer]: "T2 = from_secs 4"
definition T4 :: nat where [sip_timer]: "T4 = from_secs 5"
definition TIMER_A_INITIAL :: nat where [sip_timer]: "TIMER_A_INITIAL = T1"
definition TIMER_B :: nat where [sip_timer]: "TIMER_B = from_secs 32"
definition TIMER_D_UDP :: nat where [sip_timer]: "TIMER_D_UDP = from_secs 32"
definition TIMER_E_INITIAL :: nat where [sip_timer]: "TIMER_E_INITIAL = T1"
definition TIMER_F :: nat where [sip_timer]: "TIMER_F = from_secs 32"
definition TIMER_H :: nat where [sip_timer]: "TIMER_H = from_secs 32"
definition TIMER_I_UDP :: nat where [sip_timer]: "TIMER_I_UDP = T4"
definition TIMER_J_UDP :: nat where [sip_timer]: "TIMER_J_UDP = from_secs 32"
definition TIMER_K_UDP :: nat where [sip_timer]: "TIMER_K_UDP = T4"

definition elapsed :: "nat \<Rightarrow> nat \<Rightarrow> nat" where
  "elapsed now at = now - at"

definition is_some_and :: "('a \<Rightarrow> bool) \<Rightarrow> 'a option \<Rightarrow> bool" where
  "is_some_and p x \<longleftrightarrow> (case x of None \<Rightarrow> False | Some a \<Rightarrow> p a)"

definition status_or_0 :: "sip_message \<Rightarrow> nat" where
  "status_or_0 m = (case status_code m of Some c \<Rightarrow> unat c | None \<Rightarrow> 0)"

subsection \<open>INVITE client\<close>

datatype invite_client_state = IC_Calling | IC_Proceeding | IC_Completed | IC_Terminated

record client_txn =
  ct_branch :: string
  ct_state :: invite_client_state
  ct_request :: sip_message
  ct_remote_addr :: socket_addr
  ct_timer_a_interval :: nat
  ct_started_at :: nat
  ct_completed_at :: "nat option"
  ct_last_retransmit :: nat
  ct_last_response :: "sip_message option"

definition ct_new :: "nat \<Rightarrow> sip_message \<Rightarrow> socket_addr \<Rightarrow> string \<Rightarrow> client_txn" where [txn_ops]:
  "ct_new now request remote_addr branch =
     \<lparr>ct_branch = branch, ct_state = IC_Calling, ct_request = request, ct_remote_addr = remote_addr,
      ct_timer_a_interval = TIMER_A_INITIAL, ct_started_at = now, ct_completed_at = None,
      ct_last_retransmit = now, ct_last_response = None\<rparr>"

definition ct_on_response :: "nat \<Rightarrow> sip_message \<Rightarrow> client_txn \<Rightarrow> client_txn" where [txn_ops]:
  "ct_on_response now response t =
     (let status = status_or_0 response; t = t\<lparr>ct_last_response := Some response\<rparr>
      in case ct_state t of
           IC_Calling \<Rightarrow>
             if 100 \<le> status \<and> status < 200 then t\<lparr>ct_state := IC_Proceeding\<rparr>
             else if 200 \<le> status \<and> status < 300 then t\<lparr>ct_state := IC_Terminated\<rparr>
             else if 300 \<le> status \<and> status < 700
               then t\<lparr>ct_state := IC_Completed, ct_completed_at := Some now\<rparr>
             else t
         | IC_Proceeding \<Rightarrow>
             if 200 \<le> status \<and> status < 300 then t\<lparr>ct_state := IC_Terminated\<rparr>
             else if 300 \<le> status \<and> status < 700
               then t\<lparr>ct_state := IC_Completed, ct_completed_at := Some now\<rparr>
             else t
         | _ \<Rightarrow> t)"

definition ct_needs_retransmit :: "nat \<Rightarrow> client_txn \<Rightarrow> bool" where [txn_ops]:
  "ct_needs_retransmit now t \<longleftrightarrow>
     (if ct_state t \<noteq> IC_Calling then False
      else ct_timer_a_interval t \<le> elapsed now (ct_last_retransmit t))"

definition ct_advance_retransmit_timer :: "nat \<Rightarrow> client_txn \<Rightarrow> client_txn" where [txn_ops]:
  "ct_advance_retransmit_timer now t =
     t\<lparr>ct_timer_a_interval := ct_timer_a_interval t * 2, ct_last_retransmit := now\<rparr>"

definition timer_b_expired :: "nat \<Rightarrow> client_txn \<Rightarrow> bool" where [txn_ops]:
  "timer_b_expired now t \<longleftrightarrow>
     (ct_state t = IC_Calling \<or> ct_state t = IC_Proceeding) \<and> TIMER_B \<le> elapsed now (ct_started_at t)"

definition timer_d_expired :: "nat \<Rightarrow> client_txn \<Rightarrow> bool" where [txn_ops]:
  "timer_d_expired now t \<longleftrightarrow>
     ct_state t = IC_Completed \<and> is_some_and (\<lambda>at. TIMER_D_UDP \<le> elapsed now at) (ct_completed_at t)"

definition ct_terminate :: "client_txn \<Rightarrow> client_txn" where [txn_ops]:
  "ct_terminate t = t\<lparr>ct_state := IC_Terminated\<rparr>"

subsection \<open>INVITE server\<close>

datatype invite_server_state = IS_Proceeding | IS_Completed | IS_Accepted | IS_Confirmed | IS_Terminated

record server_txn =
  st_branch :: string
  st_state :: invite_server_state
  st_request :: sip_message
  st_remote_addr :: socket_addr
  st_last_response :: "sip_message option"
  st_final_response_at :: "nat option"
  st_confirmed_at :: "nat option"
  st_timer_g_interval :: nat
  st_last_retransmit :: nat

definition st_new :: "nat \<Rightarrow> sip_message \<Rightarrow> socket_addr \<Rightarrow> string \<Rightarrow> server_txn" where [txn_ops]:
  "st_new now request remote_addr branch =
     \<lparr>st_branch = branch, st_state = IS_Proceeding, st_request = request, st_remote_addr = remote_addr,
      st_last_response = None, st_final_response_at = None, st_confirmed_at = None,
      st_timer_g_interval = T1, st_last_retransmit = now\<rparr>"

definition st_send_provisional :: "sip_message \<Rightarrow> server_txn \<Rightarrow> server_txn" where [txn_ops]:
  "st_send_provisional response t = t\<lparr>st_last_response := Some response\<rparr>"

definition st_send_final :: "nat \<Rightarrow> sip_message \<Rightarrow> server_txn \<Rightarrow> server_txn" where [txn_ops]:
  "st_send_final now response t =
     (let status = status_or_0 response;
          t = t\<lparr>st_last_response := Some response, st_last_retransmit := now, st_final_response_at := Some now\<rparr>
      in if 200 \<le> status \<and> status < 300 then t\<lparr>st_state := IS_Accepted\<rparr>
         else if 300 \<le> status \<and> status < 700 then t\<lparr>st_state := IS_Completed\<rparr>
         else t)"

definition st_needs_retransmit :: "nat \<Rightarrow> server_txn \<Rightarrow> bool" where [txn_ops]:
  "st_needs_retransmit now t \<longleftrightarrow>
     (st_state t = IS_Completed \<or> st_state t = IS_Accepted)
     \<and> st_timer_g_interval t \<le> elapsed now (st_last_retransmit t)"

definition st_advance_retransmit_timer :: "nat \<Rightarrow> server_txn \<Rightarrow> server_txn" where [txn_ops]:
  "st_advance_retransmit_timer now t =
     t\<lparr>st_timer_g_interval := min (st_timer_g_interval t * 2) T2, st_last_retransmit := now\<rparr>"

definition st_on_ack :: "nat \<Rightarrow> server_txn \<Rightarrow> server_txn" where [txn_ops]:
  "st_on_ack now t =
     (if st_state t = IS_Completed then t\<lparr>st_state := IS_Confirmed, st_confirmed_at := Some now\<rparr>
      else if st_state t = IS_Accepted then t\<lparr>st_state := IS_Terminated\<rparr>
      else t)"

definition timer_h_expired :: "nat \<Rightarrow> server_txn \<Rightarrow> bool" where [txn_ops]:
  "timer_h_expired now t \<longleftrightarrow>
     (st_state t = IS_Completed \<or> st_state t = IS_Accepted)
     \<and> is_some_and (\<lambda>at. TIMER_H \<le> elapsed now at) (st_final_response_at t)"

definition timer_i_expired :: "nat \<Rightarrow> server_txn \<Rightarrow> bool" where [txn_ops]:
  "timer_i_expired now t \<longleftrightarrow>
     st_state t = IS_Confirmed \<and> is_some_and (\<lambda>at. TIMER_I_UDP \<le> elapsed now at) (st_confirmed_at t)"

definition st_terminate :: "server_txn \<Rightarrow> server_txn" where [txn_ops]:
  "st_terminate t = t\<lparr>st_state := IS_Terminated\<rparr>"

subsection \<open>Non-INVITE client\<close>

datatype non_invite_client_state = NC_Trying | NC_Proceeding | NC_Completed | NC_Terminated

record ni_client_txn =
  nc_branch :: string
  nc_state :: non_invite_client_state
  nc_request :: sip_message
  nc_remote_addr :: socket_addr
  nc_timer_e_interval :: nat
  nc_started_at :: nat
  nc_completed_at :: "nat option"
  nc_last_retransmit :: nat
  nc_last_response :: "sip_message option"

definition nc_new :: "nat \<Rightarrow> sip_message \<Rightarrow> socket_addr \<Rightarrow> string \<Rightarrow> ni_client_txn" where [txn_ops]:
  "nc_new now request remote_addr branch =
     \<lparr>nc_branch = branch, nc_state = NC_Trying, nc_request = request, nc_remote_addr = remote_addr,
      nc_timer_e_interval = TIMER_E_INITIAL, nc_started_at = now, nc_completed_at = None,
      nc_last_retransmit = now, nc_last_response = None\<rparr>"

definition nc_on_response :: "nat \<Rightarrow> sip_message \<Rightarrow> ni_client_txn \<Rightarrow> ni_client_txn" where [txn_ops]:
  "nc_on_response now response t =
     (let status = status_or_0 response; t = t\<lparr>nc_last_response := Some response\<rparr>
      in if nc_state t = NC_Trying \<and> 100 \<le> status \<and> status \<le> 199
           then t\<lparr>nc_state := NC_Proceeding, nc_timer_e_interval := T2\<rparr>
         else if (nc_state t = NC_Trying \<or> nc_state t = NC_Proceeding) \<and> 200 \<le> status \<and> status \<le> 699
           then t\<lparr>nc_state := NC_Completed, nc_completed_at := Some now\<rparr>
         else t)"

definition nc_needs_retransmit :: "nat \<Rightarrow> ni_client_txn \<Rightarrow> bool" where [txn_ops]:
  "nc_needs_retransmit now t \<longleftrightarrow>
     (nc_state t = NC_Trying \<or> nc_state t = NC_Proceeding)
     \<and> nc_timer_e_interval t \<le> elapsed now (nc_last_retransmit t)"

definition nc_advance_retransmit_timer :: "nat \<Rightarrow> ni_client_txn \<Rightarrow> ni_client_txn" where [txn_ops]:
  "nc_advance_retransmit_timer now t =
     t\<lparr>nc_timer_e_interval := min (nc_timer_e_interval t * 2) T2, nc_last_retransmit := now\<rparr>"

definition timer_f_expired :: "nat \<Rightarrow> ni_client_txn \<Rightarrow> bool" where [txn_ops]:
  "timer_f_expired now t \<longleftrightarrow>
     (nc_state t = NC_Trying \<or> nc_state t = NC_Proceeding) \<and> TIMER_F \<le> elapsed now (nc_started_at t)"

definition timer_k_expired :: "nat \<Rightarrow> ni_client_txn \<Rightarrow> bool" where [txn_ops]:
  "timer_k_expired now t \<longleftrightarrow>
     nc_state t = NC_Completed \<and> is_some_and (\<lambda>at. TIMER_K_UDP \<le> elapsed now at) (nc_completed_at t)"

definition nc_terminate :: "ni_client_txn \<Rightarrow> ni_client_txn" where [txn_ops]:
  "nc_terminate t = t\<lparr>nc_state := NC_Terminated\<rparr>"

subsection \<open>Non-INVITE server\<close>

datatype non_invite_server_state = NS_Trying | NS_Proceeding | NS_Completed | NS_Terminated

record ni_server_txn =
  ns_branch :: string
  ns_state :: non_invite_server_state
  ns_request :: sip_message
  ns_remote_addr :: socket_addr
  ns_last_response :: "sip_message option"
  ns_completed_at :: "nat option"

definition ns_new :: "sip_message \<Rightarrow> socket_addr \<Rightarrow> string \<Rightarrow> ni_server_txn" where [txn_ops]:
  "ns_new request remote_addr branch =
     \<lparr>ns_branch = branch, ns_state = NS_Trying, ns_request = request, ns_remote_addr = remote_addr,
      ns_last_response = None, ns_completed_at = None\<rparr>"

definition ns_send_provisional :: "sip_message \<Rightarrow> ni_server_txn \<Rightarrow> ni_server_txn" where [txn_ops]:
  "ns_send_provisional response t = t\<lparr>ns_last_response := Some response, ns_state := NS_Proceeding\<rparr>"

definition ns_send_final :: "nat \<Rightarrow> sip_message \<Rightarrow> ni_server_txn \<Rightarrow> ni_server_txn" where [txn_ops]:
  "ns_send_final now response t =
     t\<lparr>ns_last_response := Some response, ns_state := NS_Completed, ns_completed_at := Some now\<rparr>"

definition timer_j_expired :: "nat \<Rightarrow> ni_server_txn \<Rightarrow> bool" where [txn_ops]:
  "timer_j_expired now t \<longleftrightarrow>
     ns_state t = NS_Completed \<and> is_some_and (\<lambda>at. TIMER_J_UDP \<le> elapsed now at) (ns_completed_at t)"

definition ns_terminate :: "ni_server_txn \<Rightarrow> ni_server_txn" where [txn_ops]:
  "ns_terminate t = t\<lparr>ns_state := NS_Terminated\<rparr>"

subsection \<open>The timer tasks\<close>

text \<open>
  A timer task sends a message after growing pauses until a deadline, and then reports the timeout.
  A sleep lasts at least as long as asked; \<open>late k\<close> is the surplus of the \<open>k\<close>-th one. The trace
  pairs every action with the instant at which it happens.
\<close>

datatype timer_action = Retransmit | Give_Up

partial_function (option) timer_loop ::
    "(nat \<Rightarrow> nat) \<Rightarrow> nat \<Rightarrow> nat \<Rightarrow> nat \<Rightarrow> nat \<Rightarrow> (nat \<times> timer_action) list option" where
  "timer_loop late deadline k now timer =
     (let sleep_duration = min timer (deadline - now);
          now = now + sleep_duration + late k
      in if deadline \<le> now then Some [(now, Give_Up)]
         else Option.bind (timer_loop late deadline (Suc k) now (min (timer * 2) T2))
                (\<lambda>rest. Some ((now, Retransmit) # rest)))"

definition client_start :: "(nat \<Rightarrow> nat) \<Rightarrow> nat \<Rightarrow> (nat \<times> timer_action) list option" where
  "client_start late now = timer_loop late (now + TIMER_B) 0 now TIMER_A_INITIAL"

definition server_start :: "(nat \<Rightarrow> nat) \<Rightarrow> nat \<Rightarrow> (nat \<times> timer_action) list option" where
  "server_start late now = timer_loop late (now + TIMER_H) 0 now T1"

text \<open>
  What a trace must look like: retransmissions before the deadline, each at least one interval
  after the one before, the intervals doubling up to \<^const>\<open>T2\<close>, and then one timeout not before
  the deadline.
\<close>

fun paced :: "nat \<Rightarrow> nat \<Rightarrow> nat \<Rightarrow> (nat \<times> timer_action) list \<Rightarrow> bool" where
  "paced deadline now timer [] \<longleftrightarrow> False"
| "paced deadline now timer ((t, a) # rest) \<longleftrightarrow>
     (case a of
        Give_Up \<Rightarrow> deadline \<le> t \<and> rest = []
      | Retransmit \<Rightarrow> now + timer \<le> t \<and> t < deadline \<and> paced deadline t (min (timer * 2) T2) rest)"

lemma timer_loop_paced:
  assumes "0 < timer"
  shows "\<exists>acts. timer_loop late deadline k now timer = Some acts \<and> paced deadline now timer acts"
  using assms
proof (induction "deadline - now" arbitrary: k now timer rule: less_induct)
  case less
  define t where "t = now + min timer (deadline - now) + late k"
  show ?case
  proof (cases "deadline \<le> t")
    case True
    then show ?thesis by (subst timer_loop.simps) (simp add: t_def Let_def)
  next
    case False
    with less.prems have "deadline - t < deadline - now" and step: "now + timer \<le> t"
      by (auto simp: t_def)
    moreover have "0 < min (timer * 2) T2" using less.prems by (simp add: sip_timer)
    ultimately obtain acts where "timer_loop late deadline (Suc k) t (min (timer * 2) T2) = Some acts"
      and "paced deadline t (min (timer * 2) T2) acts"
      using less.hyps [of t "min (timer * 2) T2" "Suc k"] by blast
    with False step show ?thesis
      by (subst timer_loop.simps) (auto simp: t_def Let_def)
  qed
qed

lemma paced_length:
  assumes "paced deadline now T2 acts" and "now \<le> deadline"
  shows "(length acts - 1) * T2 \<le> deadline - now"
  using assms
proof (induction acts arbitrary: now)
  case Nil
  then show ?case by simp
next
  case (Cons x acts)
  obtain t a where x: "x = (t, a)" by (cases x)
  have T2: "min (T2 * 2) T2 = T2" by simp
  show ?case
  proof (cases a)
    case Give_Up
    with Cons.prems x show ?thesis by simp
  next
    case Retransmit
    with Cons.prems x T2 have step: "now + T2 \<le> t" "t < deadline" and rest: "paced deadline t T2 acts"
      by simp_all
    have "(length acts - 1) * T2 \<le> deadline - t"
      using Cons.IH [OF rest] step by simp
    with rest step show ?thesis by (cases acts) simp_all
  qed
qed

lemma paced_cases:
  assumes "paced deadline now timer acts"
  obtains "length acts = 1"
  | t rest where "acts = (t, Retransmit) # rest" "now + timer \<le> t" "t < deadline"
      "paced deadline t (min (timer * 2) T2) rest"
  using assms by (cases acts) (auto split: timer_action.splits)

lemma paced_from_T1:
  assumes "paced (start + from_secs 32) start T1 acts"
  shows "length acts \<le> 11"
  using assms
proof (cases rule: paced_cases)
  case (2 t1 acts1)
  from 2(4) have "paced (start + from_secs 32) t1 (from_millis 1000) acts1" by (simp add: sip_timer)
  then show ?thesis
  proof (cases rule: paced_cases)
    case inner: (2 t2 acts2)
    from inner(4) have "paced (start + from_secs 32) t2 (from_millis 2000) acts2" by (simp add: sip_timer)
    then show ?thesis
    proof (cases rule: paced_cases)
      case last: (2 t3 acts3)
      from last(4) have "paced (start + from_secs 32) t3 T2 acts3" by (simp add: sip_timer)
      from paced_length [OF this] last(3) have "(length acts3 - 1) * T2 \<le> start + from_secs 32 - t3"
        by simp
      also have "\<dots> \<le> 28500000000" using 2(2) inner(2) last(2) by (simp add: sip_timer)
      finally have "length acts3 - 1 \<le> 7" by (simp add: sip_timer)
      with 2(1) inner(1) last(1) show ?thesis by simp
    qed (use 2(1) inner(1) in simp)
  qed (use 2(1) in simp)
qed simp

lemma timer_task_ends:
  "\<exists>acts. timer_loop late (now + from_secs 32) 0 now T1 = Some acts
     \<and> paced (now + from_secs 32) now T1 acts \<and> length acts \<le> 11"
  using timer_loop_paced [of T1 late "now + from_secs 32" 0 now] paced_from_T1 [of now]
  by (auto simp: sip_timer)

text \<open>
  (C18) The timer tasks of INVITE transactions always end, whatever the scheduling delays: Timer A
  of a client and Timer G of a server retransmit at most ten times, always before the 32 second
  deadline and never sooner than the current interval after the previous transmission (500 ms at
  first, doubling up to 4 s), and then the task reports exactly one timeout, at or after the
  deadline.
\<close>
theorem timer_tasks_end:
  "(\<exists>acts. client_start late now = Some acts \<and> paced (now + TIMER_B) now TIMER_A_INITIAL acts \<and> length acts \<le> 11)
   \<and> (\<exists>acts. server_start late now = Some acts \<and> paced (now + TIMER_H) now T1 acts \<and> length acts \<le> 11)"
  unfolding client_start_def server_start_def TIMER_A_INITIAL_def TIMER_B_def TIMER_H_def
  using timer_task_ends by blast

end
