(* ===== verification/Sip_Stack.thy ===== *)
theory Sip_Stack
  imports Sip_Session Sip_Transaction
begin

section \<open>The SIP stack\<close>

text \<open>
  The transaction layer and the coordinator of \<^verbatim>\<open>asterisk-sip/src/stack.rs\<close>: how received
  messages find their transactions, what is answered, retransmitted and reported to the
  application, and when transactions are reaped. An operation maps the transaction layer to the new
  layer and the list of its effects in order: datagrams sent and events emitted. (The event queue
  applies back-pressure and never drops an event, so the events are a list.) The clock is read once
  per operation, \<open>now\<close>; random identifiers and the outcome of a first transmission are arguments.
  Every operation holds the layer's lock while it decides; the timer pass, which takes it once per
  retransmission, is taken as one step.
\<close>

named_theorems stack_ops \<open>the operations of the stack\<close>

subsection \<open>Identity of messages\<close>

definition cseq_number :: "sip_message \<Rightarrow> string option" where
  "cseq_number m = Option.bind (get_header m ''CSeq'') first_word"

definition cseq_method :: "sip_message \<Rightarrow> string option" where
  "cseq_method m =
     Option.bind (get_header m ''CSeq'') (\<lambda>v. case split_whitespace v of _ # w # _ \<Rightarrow> Some w | _ \<Rightarrow> None)"

definition from_tag :: "sip_message \<Rightarrow> string option" where
  "from_tag m = Option.bind (from_header m) extract_tag"

definition to_tag :: "sip_message \<Rightarrow> string option" where
  "to_tag m = Option.bind (to_header m) extract_tag"

definition request_identity_matches :: "sip_message \<Rightarrow> sip_message \<Rightarrow> bool" where
  "request_identity_matches original retransmission \<longleftrightarrow>
     call_id original = call_id retransmission \<and> cseq_number original = cseq_number retransmission
     \<and> from_tag original = from_tag retransmission"

definition ack_header :: "sip_header \<Rightarrow> bool" where
  "ack_header h \<longleftrightarrow>
     list_ex (eq_ignore_ascii_case (hdr_name h)) [''Via'', ''Max-Forwards'', ''From'', ''Call-ID'', ''Route'']"

definition build_non_2xx_ack :: "sip_message \<Rightarrow> sip_message \<Rightarrow> sip_message option" where
  "build_non_2xx_ack invite response =
     (case msg_start_line invite of
        Response _ \<Rightarrow> None
      | Request line \<Rightarrow>
          Option.bind (cseq_number invite) (\<lambda>n.
          Option.bind (to_header response) (\<lambda>to_hdr.
            Some \<lparr>msg_start_line = Request \<lparr>rl_method = Ack, rl_uri = rl_uri line, rl_version = rl_version line\<rparr>,
                  msg_headers = filter ack_header (msg_headers invite)
                    @ [\<lparr>hdr_name = ''To'', hdr_value = to_hdr\<rparr>, \<lparr>hdr_name = ''CSeq'', hdr_value = n @ '' ACK''\<rparr>,
                       \<lparr>hdr_name = ''Content-Length'', hdr_value = ''0''\<rparr>],
                  msg_body = []\<rparr>)))"

definition extract_branch :: "sip_message \<Rightarrow> string option" where
  "extract_branch m =
     Option.bind (get_header m ''Via'') (\<lambda>via.
       case List.map_filter (\<lambda>p. strip_prefix ''branch='' (trim p)) (split_char CHR '';'' via) of
         b # _ \<Rightarrow> Some b
       | [] \<Rightarrow> None)"

definition branch_or_new :: "string \<Rightarrow> sip_message \<Rightarrow> string" where
  "branch_or_new uuid m = unwrap_or (''z9hG4bK'' @ uuid) (extract_branch m)"

subsection \<open>The transaction layer\<close>

datatype sip_event =
    IncomingInvite sip_session sip_message socket_addr
  | ResponseReceived sip_message socket_addr
  | IncomingBye string sip_message socket_addr
  | IncomingCancel string sip_message socket_addr
  | IncomingAck string sip_message socket_addr
  | InviteAckTimeout string
  | IncomingRequest sip_message socket_addr
  | TransactionTimeout string "string option" "sip_method option" bool

datatype stack_out = Send sip_message socket_addr | Emit sip_event

record cached_invite_final =
  cf_request :: sip_message
  cf_remote_addr :: socket_addr
  cf_response :: sip_message
  cf_expires_at :: nat

record transaction_layer =
  invite_client_txns :: "(string, client_txn) hashmap"
  invite_server_txns :: "(string, server_txn) hashmap"
  non_invite_client_txns :: "(string, ni_client_txn) hashmap"
  non_invite_server_txns :: "(string, ni_server_txn) hashmap"
  invite_final_cache :: "(string, cached_invite_final) hashmap"

definition layer_new :: transaction_layer where
  "layer_new = \<lparr>invite_client_txns = [], invite_server_txns = [], non_invite_client_txns = [],
                non_invite_server_txns = [], invite_final_cache = []\<rparr>"

definition hmodify :: "'k \<Rightarrow> ('v \<Rightarrow> 'v) \<Rightarrow> ('k, 'v) hashmap \<Rightarrow> ('k, 'v) hashmap" where
  "hmodify k f m = (case hget m k of Some v \<Rightarrow> hinsert k (f v) m | None \<Rightarrow> m)"

type_synonym matched_response = "string \<times> (sip_message \<times> socket_addr) option"

definition same_method :: "sip_message \<Rightarrow> sip_message \<Rightarrow> bool" where
  "same_method response request \<longleftrightarrow>
     (case (cseq_method response, msg_method request) of
        (Some r, Some q) \<Rightarrow> eq_ignore_ascii_case r (method_as_str q)
      | _ \<Rightarrow> False)"

definition is_invite_response :: "sip_message \<Rightarrow> bool" where
  "is_invite_response response \<longleftrightarrow>
     (case cseq_method response of Some m \<Rightarrow> eq_ignore_ascii_case m ''INVITE'' | None \<Rightarrow> False)"

definition process_non_invite_response ::
    "nat \<Rightarrow> sip_message \<Rightarrow> socket_addr \<Rightarrow> string \<Rightarrow> transaction_layer \<Rightarrow> matched_response option \<times> transaction_layer" where
  "process_non_invite_response now response src branch l =
     (case hget (non_invite_client_txns l) branch of
        Some t \<Rightarrow>
          if nc_remote_addr t \<noteq> src \<or> \<not> same_method response (nc_request t) then (None, l)
          else (Some (branch, None),
                l\<lparr>non_invite_client_txns := hinsert branch (nc_on_response now response t) (non_invite_client_txns l)\<rparr>)
      | None \<Rightarrow> (None, l))"

definition process_response ::
    "nat \<Rightarrow> sip_message \<Rightarrow> socket_addr \<Rightarrow> transaction_layer \<Rightarrow> matched_response option \<times> transaction_layer" where [stack_ops]:
  "process_response now response src l =
     (case extract_branch response of
        None \<Rightarrow> (None, l)
      | Some branch \<Rightarrow>
          (case (if is_invite_response response then hget (invite_client_txns l) branch else None) of
             Some t \<Rightarrow>
               if ct_remote_addr t \<noteq> src then (None, l)
               else (Some (branch,
                       if 300 \<le> status_or_0 response \<and> status_or_0 response < 700
                       then map_option (\<lambda>ack. (ack, ct_remote_addr t)) (build_non_2xx_ack (ct_request t) response)
                       else None),
                     l\<lparr>invite_client_txns := hinsert branch (ct_on_response now response t) (invite_client_txns l)\<rparr>)
           | None \<Rightarrow> process_non_invite_response now response src branch l))"

definition is_copy :: "sip_message \<Rightarrow> socket_addr \<Rightarrow> sip_message \<Rightarrow> socket_addr \<Rightarrow> bool" where
  "is_copy original addr request src \<longleftrightarrow> request_identity_matches original request \<and> addr = src"

definition replay_invite :: "sip_message \<Rightarrow> socket_addr \<Rightarrow> string \<Rightarrow> transaction_layer \<Rightarrow> sip_message option option" where
  "replay_invite request src branch l =
     Option.bind (hget (invite_server_txns l) branch) (\<lambda>t.
       if msg_method (st_request t) = msg_method request \<and> is_copy (st_request t) (st_remote_addr t) request src
       then Some (st_last_response t) else None)"

definition replay_non_invite :: "sip_message \<Rightarrow> socket_addr \<Rightarrow> string \<Rightarrow> transaction_layer \<Rightarrow> sip_message option option" where
  "replay_non_invite request src branch l =
     Option.bind (hget (non_invite_server_txns l) branch) (\<lambda>t.
       if msg_method (ns_request t) = msg_method request \<and> is_copy (ns_request t) (ns_remote_addr t) request src
       then Some (ns_last_response t) else None)"

definition replay_cached ::
    "nat \<Rightarrow> sip_message \<Rightarrow> socket_addr \<Rightarrow> string \<Rightarrow> transaction_layer \<Rightarrow> sip_message option option" where
  "replay_cached now request src branch l =
     (if msg_method request = Some Invite
      then Option.bind (hget (invite_final_cache l) branch) (\<lambda>c.
             if now < cf_expires_at c \<and> is_copy (cf_request c) (cf_remote_addr c) request src
             then Some (Some (cf_response c)) else None)
      else None)"

definition or_else :: "'a option \<Rightarrow> 'a option \<Rightarrow> 'a option" where
  "or_else a b = (case a of Some x \<Rightarrow> Some x | None \<Rightarrow> b)"

definition matched_retransmission ::
    "nat \<Rightarrow> sip_message \<Rightarrow> socket_addr \<Rightarrow> transaction_layer \<Rightarrow> sip_message option option" where
  "matched_retransmission now request src l =
     (if msg_method request = None then None
      else Option.bind (extract_branch request) (\<lambda>branch.
             or_else (replay_invite request src branch l)
               (or_else (replay_non_invite request src branch l) (replay_cached now request src branch l))))"

definition record_non_invite_response ::
    "nat \<Rightarrow> sip_message \<Rightarrow> socket_addr \<Rightarrow> transaction_layer \<Rightarrow> transaction_layer" where [stack_ops]:
  "record_non_invite_response now response remote_addr l =
     (case (extract_branch response, status_code response) of
        (Some branch, Some status) \<Rightarrow>
          (case hget (non_invite_server_txns l) branch of
             Some t \<Rightarrow>
               if \<not> is_copy (ns_request t) (ns_remote_addr t) response remote_addr then l
               else l\<lparr>non_invite_server_txns := hinsert branch
                        (if status < 200 then ns_send_provisional response t else ns_send_final now response t)
                        (non_invite_server_txns l)\<rparr>
           | None \<Rightarrow> l)
      | _ \<Rightarrow> l)"

definition acknowledges :: "sip_message \<Rightarrow> server_txn \<Rightarrow> bool" where
  "acknowledges ack t \<longleftrightarrow>
     st_state t = IS_Accepted \<and> call_id (st_request t) = call_id ack \<and> from_tag (st_request t) = from_tag ack
     \<and> cseq_number (st_request t) = cseq_number ack \<and> Option.bind (st_last_response t) to_tag = to_tag ack"

definition accepted_ack_branch :: "sip_message \<Rightarrow> transaction_layer \<Rightarrow> string option" where
  "accepted_ack_branch ack l =
     (if call_id ack = None \<or> from_tag ack = None \<or> to_tag ack = None \<or> cseq_number ack = None then None
      else map_option fst (find (\<lambda>(_, t). acknowledges ack t) (invite_server_txns l)))"

definition retransmit_candidates :: "nat \<Rightarrow> transaction_layer \<Rightarrow> string list" where
  "retransmit_candidates now l =
     map fst (filter (\<lambda>(_, t). ct_needs_retransmit now t) (invite_client_txns l))
     @ map fst (filter (\<lambda>(_, t). nc_needs_retransmit now t) (non_invite_client_txns l))"

subsection \<open>Expiry\<close>

record timeout_event =
  te_branch :: string
  te_call_id :: "string option"
  te_method :: "sip_method option"
  te_client :: bool
  te_invite_ack_call_id :: "string option"

definition ct_expire :: "nat \<Rightarrow> client_txn \<Rightarrow> client_txn" where [txn_ops]:
  "ct_expire now t =
     (if timer_b_expired now t then ct_terminate t else if timer_d_expired now t then ct_terminate t else t)"

definition nc_expire :: "nat \<Rightarrow> ni_client_txn \<Rightarrow> ni_client_txn" where [txn_ops]:
  "nc_expire now t =
     (if timer_f_expired now t then nc_terminate t else if timer_k_expired now t then nc_terminate t else t)"

definition st_expire :: "nat \<Rightarrow> server_txn \<Rightarrow> server_txn" where [txn_ops]:
  "st_expire now t =
     (if timer_h_expired now t then st_terminate t else if timer_i_expired now t then st_terminate t else t)"

definition ns_expire :: "nat \<Rightarrow> ni_server_txn \<Rightarrow> ni_server_txn" where [txn_ops]:
  "ns_expire now t = (if timer_j_expired now t then ns_terminate t else t)"

definition map_values :: "('v \<Rightarrow> 'w) \<Rightarrow> ('k \<times> 'v) list \<Rightarrow> ('k \<times> 'w) list" where
  "map_values f m = map (\<lambda>(k, v). (k, f v)) m"

definition client_timeout :: "string \<Rightarrow> sip_message \<Rightarrow> timeout_event" where
  "client_timeout branch request =
     \<lparr>te_branch = branch, te_call_id = call_id request, te_method = msg_method request, te_client = True,
      te_invite_ack_call_id = None\<rparr>"

definition server_timeout :: "string \<Rightarrow> server_txn \<Rightarrow> timeout_event" where
  "server_timeout branch t =
     \<lparr>te_branch = branch, te_call_id = call_id (st_request t), te_method = msg_method (st_request t),
      te_client = False,
      te_invite_ack_call_id = (if st_state t = IS_Accepted then call_id (st_request t) else None)\<rparr>"

definition expire_timers :: "nat \<Rightarrow> transaction_layer \<Rightarrow> timeout_event list \<times> transaction_layer" where [stack_ops]:
  "expire_timers now l =
     (map (\<lambda>(b, t). client_timeout b (ct_request t)) (filter (\<lambda>(_, t). timer_b_expired now t) (invite_client_txns l))
      @ map (\<lambda>(b, t). client_timeout b (nc_request t))
          (filter (\<lambda>(_, t). timer_f_expired now t) (non_invite_client_txns l))
      @ map (\<lambda>(b, t). server_timeout b t) (filter (\<lambda>(_, t). timer_h_expired now t) (invite_server_txns l)),
      l\<lparr>invite_client_txns := map_values (ct_expire now) (invite_client_txns l),
        non_invite_client_txns := map_values (nc_expire now) (non_invite_client_txns l),
        invite_server_txns := map_values (st_expire now) (invite_server_txns l),
        non_invite_server_txns := map_values (ns_expire now) (non_invite_server_txns l)\<rparr>)"

subsection \<open>What the application asks for\<close>

definition send_invite ::
    "nat \<Rightarrow> string \<Rightarrow> bool \<Rightarrow> sip_message \<Rightarrow> socket_addr \<Rightarrow> transaction_layer \<Rightarrow> string option \<times> stack_out list \<times> transaction_layer" where [stack_ops]:
  "send_invite now uuid sent request remote_addr l =
     (let branch = branch_or_new uuid request;
          l = l\<lparr>invite_client_txns := hinsert branch (ct_new now request remote_addr branch) (invite_client_txns l)\<rparr>
      in if sent then (Some branch, [Send request remote_addr], l)
         else (None, [], l\<lparr>invite_client_txns := hremove branch (invite_client_txns l)\<rparr>))"

definition send_request ::
    "nat \<Rightarrow> string \<Rightarrow> bool \<Rightarrow> sip_message \<Rightarrow> socket_addr \<Rightarrow> transaction_layer \<Rightarrow> string option \<times> stack_out list \<times> transaction_layer" where [stack_ops]:
  "send_request now uuid sent request remote_addr l =
     (let branch = branch_or_new uuid request;
          l = l\<lparr>non_invite_client_txns := hinsert branch (nc_new now request remote_addr branch) (non_invite_client_txns l)\<rparr>
      in if sent then (Some branch, [Send request remote_addr], l)
         else (None, [], l\<lparr>non_invite_client_txns := hremove branch (non_invite_client_txns l)\<rparr>))"

definition send_response ::
    "nat \<Rightarrow> sip_message \<Rightarrow> socket_addr \<Rightarrow> transaction_layer \<Rightarrow> stack_out list \<times> transaction_layer" where [stack_ops]:
  "send_response now response remote_addr l =
     ([Send response remote_addr], record_non_invite_response now response remote_addr l)"

record transaction_counts =
  tc_invite_client :: nat
  tc_invite_server :: nat
  tc_non_invite_client :: nat
  tc_non_invite_server :: nat

definition layer_counts :: "transaction_layer \<Rightarrow> transaction_counts" where
  "layer_counts l =
     \<lparr>tc_invite_client = length (invite_client_txns l), tc_invite_server = length (invite_server_txns l),
      tc_non_invite_client = length (non_invite_client_txns l), tc_non_invite_server = length (non_invite_server_txns l)\<rparr>"

definition record_invite_final ::
    "nat \<Rightarrow> sip_message \<Rightarrow> sip_message \<Rightarrow> transaction_layer \<Rightarrow> bool \<times> transaction_layer" where [stack_ops]:
  "record_invite_final now request response l =
     (case extract_branch request of
        None \<Rightarrow> (True, l)
      | Some branch \<Rightarrow>
          (case hget (invite_server_txns l) branch of
             Some t \<Rightarrow>
               if st_state t = IS_Proceeding
               then (True,
                     l\<lparr>invite_server_txns := hinsert branch (st_send_final now response t) (invite_server_txns l),
                       invite_final_cache := hinsert branch
                         \<lparr>cf_request = st_request t, cf_remote_addr = st_remote_addr t, cf_response = response,
                          cf_expires_at = now + TIMER_H\<rparr> (invite_final_cache l)\<rparr>)
               else (False, l)
           | None \<Rightarrow> (True, l)))"

subsection \<open>What arrives\<close>

definition handle_response ::
    "nat \<Rightarrow> sip_message \<Rightarrow> socket_addr \<Rightarrow> transaction_layer \<Rightarrow> stack_out list \<times> transaction_layer" where [stack_ops]:
  "handle_response now response src l =
     (case process_response now response src l of
        (matched, l') \<Rightarrow>
          ((case matched of Some (_, Some (ack, addr)) \<Rightarrow> [Send ack addr] | _ \<Rightarrow> [])
           @ [Emit (ResponseReceived response src)], l'))"

record fresh_ids =
  id_branch :: string
  id_tag :: string
  id_session :: string

definition handle_invite ::
    "nat \<Rightarrow> fresh_ids \<Rightarrow> socket_addr \<Rightarrow> sip_message \<Rightarrow> socket_addr \<Rightarrow> transaction_layer \<Rightarrow> stack_out list \<times> transaction_layer" where [stack_ops]:
  "handle_invite now ids local_addr request src l =
     (let branch = branch_or_new (id_branch ids) request
      in (case new_inbound (id_tag ids) (id_session ids) request local_addr src of
            Some session \<Rightarrow> [Emit (IncomingInvite session request src)]
          | None \<Rightarrow> [],
          l\<lparr>invite_server_txns := hinsert branch (st_new now request src branch) (invite_server_txns l)\<rparr>))"

definition handle_ack ::
    "nat \<Rightarrow> sip_message \<Rightarrow> socket_addr \<Rightarrow> transaction_layer \<Rightarrow> stack_out list \<times> transaction_layer" where [stack_ops]:
  "handle_ack now request src l =
     (case accepted_ack_branch request l of
        Some branch \<Rightarrow>
          ([Emit (IncomingAck (unwrap_or [] (call_id request)) request src)],
           l\<lparr>invite_server_txns := hmodify branch (st_on_ack now) (invite_server_txns l)\<rparr>)
      | None \<Rightarrow>
          (case extract_branch request of
             None \<Rightarrow> ([], l)
           | Some branch \<Rightarrow>
               ([], l\<lparr>invite_server_txns := hmodify branch
                  (\<lambda>t. if st_remote_addr t = src \<and> call_id (st_request t) = call_id request
                          \<and> cseq_number (st_request t) = cseq_number request
                       then st_on_ack now t else t) (invite_server_txns l)\<rparr>)))"

definition ok_response :: "sip_message \<Rightarrow> u16 \<Rightarrow> string \<Rightarrow> sip_message option" where
  "ok_response m code reason = (case create_response m code reason of Inr r \<Rightarrow> Some r | Inl _ \<Rightarrow> None)"

definition sends :: "sip_message option \<Rightarrow> socket_addr \<Rightarrow> stack_out list" where
  "sends r addr = (case r of Some m \<Rightarrow> [Send m addr] | None \<Rightarrow> [])"

definition cancel_invite :: "nat \<Rightarrow> server_txn \<Rightarrow> sip_message option \<times> server_txn" where
  "cancel_invite now t =
     (case ok_response (st_request t) 487 ''Request Terminated'' of
        Some resp \<Rightarrow> (Some resp, st_send_final now resp t)
      | None \<Rightarrow> (None, t))"

definition absorb_cancel ::
    "nat \<Rightarrow> sip_message \<Rightarrow> socket_addr \<Rightarrow> string \<Rightarrow> sip_message option \<Rightarrow> transaction_layer \<Rightarrow> transaction_layer" where
  "absorb_cancel now request src branch response l =
     (let t = ns_new request src branch;
          t = (case response of Some r \<Rightarrow> ns_send_final now r t | None \<Rightarrow> t)
      in l\<lparr>non_invite_server_txns := hinsert branch t (non_invite_server_txns l)\<rparr>)"

definition handle_cancel_request ::
    "nat \<Rightarrow> fresh_ids \<Rightarrow> sip_message \<Rightarrow> socket_addr \<Rightarrow> transaction_layer \<Rightarrow> stack_out list \<times> transaction_layer" where [stack_ops]:
  "handle_cancel_request now ids request src l =
     (let branch = branch_or_new (id_branch ids) request
      in case hget (invite_server_txns l) branch of
           Some t \<Rightarrow>
             if request_identity_matches (st_request t) request then
               (let resp = ok_response request 200 ''OK''
                in if st_state t = IS_Proceeding then
                     (case cancel_invite now t of
                        (invite_response, t') \<Rightarrow>
                          (sends resp src @ sends invite_response src
                           @ (case call_id request of Some c \<Rightarrow> [Emit (IncomingCancel c request src)] | None \<Rightarrow> []),
                           absorb_cancel now request src branch resp
                             (l\<lparr>invite_server_txns := hinsert branch t' (invite_server_txns l)\<rparr>)))
                   else (sends resp src, absorb_cancel now request src branch resp l))
             else (let resp = ok_response request 481 ''Call/Transaction Does Not Exist''
                   in (sends resp src, absorb_cancel now request src branch resp l))
         | None \<Rightarrow>
             (let resp = ok_response request 481 ''Call/Transaction Does Not Exist''
              in (sends resp src, absorb_cancel now request src branch resp l)))"

definition handle_other ::
    "fresh_ids \<Rightarrow> sip_event \<Rightarrow> sip_message \<Rightarrow> socket_addr \<Rightarrow> transaction_layer \<Rightarrow> stack_out list \<times> transaction_layer" where [stack_ops]:
  "handle_other ids event request src l =
     (let branch = branch_or_new (id_branch ids) request
      in ([Emit event],
          l\<lparr>non_invite_server_txns := hinsert branch (ns_new request src branch) (non_invite_server_txns l)\<rparr>))"

definition handle_request ::
    "nat \<Rightarrow> fresh_ids \<Rightarrow> socket_addr \<Rightarrow> sip_message \<Rightarrow> socket_addr \<Rightarrow> transaction_layer \<Rightarrow> stack_out list \<times> transaction_layer" where
  "handle_request now ids local_addr m src l =
     (case msg_method m of
        None \<Rightarrow> ([], l)
      | Some meth \<Rightarrow>
          (let request = stamp_via_received_rport src m
           in case matched_retransmission now request src l of
                Some replay \<Rightarrow> (sends replay src, l)
              | None \<Rightarrow>
                  (case meth of
                     Invite \<Rightarrow> handle_invite now ids local_addr request src l
                   | Ack \<Rightarrow> handle_ack now request src l
                   | Cancel \<Rightarrow> handle_cancel_request now ids request src l
                   | Bye \<Rightarrow> handle_other ids (IncomingBye (unwrap_or [] (call_id request)) request src) request src l
                   | _ \<Rightarrow> handle_other ids (IncomingRequest request src) request src l)))"

definition handle_incoming ::
    "nat \<Rightarrow> fresh_ids \<Rightarrow> socket_addr \<Rightarrow> sip_message \<Rightarrow> socket_addr \<Rightarrow> transaction_layer \<Rightarrow> stack_out list \<times> transaction_layer" where
  "handle_incoming now ids local_addr m src l =
     (if is_response m then handle_response now m src l else handle_request now ids local_addr m src l)"

subsection \<open>The timer pass\<close>

definition retransmit_clients :: "nat \<Rightarrow> transaction_layer \<Rightarrow> stack_out list \<times> transaction_layer" where [stack_ops]:
  "retransmit_clients now l =
     (let invites = filter (\<lambda>(_, t). ct_needs_retransmit now t) (invite_client_txns l);
          others = filter (\<lambda>(_, t). nc_needs_retransmit now t) (non_invite_client_txns l)
      in (map (\<lambda>(_, t). Send (ct_request t) (ct_remote_addr t)) invites
          @ map (\<lambda>(_, t). Send (nc_request t) (nc_remote_addr t)) others,
          l\<lparr>invite_client_txns :=
               fold (\<lambda>b. hmodify b (ct_advance_retransmit_timer now)) (map fst invites) (invite_client_txns l),
            non_invite_client_txns :=
               fold (\<lambda>b. hmodify b (nc_advance_retransmit_timer now)) (map fst others) (non_invite_client_txns l)\<rparr>))"

definition retransmit_servers :: "nat \<Rightarrow> transaction_layer \<Rightarrow> stack_out list \<times> transaction_layer" where [stack_ops]:
  "retransmit_servers now l =
     (let due = filter (\<lambda>(_, t). st_needs_retransmit now t \<and> st_last_response t \<noteq> None) (invite_server_txns l)
      in (concat (map (\<lambda>(_, t). sends (st_last_response t) (st_remote_addr t)) due),
          l\<lparr>invite_server_txns :=
               fold (\<lambda>b. hmodify b (st_advance_retransmit_timer now)) (map fst due) (invite_server_txns l)\<rparr>))"

definition timeout_outputs :: "timeout_event \<Rightarrow> stack_out list" where
  "timeout_outputs e =
     Emit (TransactionTimeout (te_branch e) (te_call_id e) (te_method e) (te_client e))
     # (case te_invite_ack_call_id e of Some c \<Rightarrow> [Emit (InviteAckTimeout c)] | None \<Rightarrow> [])"

definition reap :: "nat \<Rightarrow> transaction_layer \<Rightarrow> transaction_layer" where [stack_ops]:
  "reap now l =
     l\<lparr>invite_client_txns := filter (\<lambda>(_, t). ct_state t \<noteq> IC_Terminated) (invite_client_txns l),
       invite_server_txns := filter (\<lambda>(_, t). st_state t \<noteq> IS_Terminated) (invite_server_txns l),
       non_invite_client_txns := filter (\<lambda>(_, t). nc_state t \<noteq> NC_Terminated) (non_invite_client_txns l),
       non_invite_server_txns := filter (\<lambda>(_, t). ns_state t \<noteq> NS_Terminated) (non_invite_server_txns l),
       invite_final_cache := filter (\<lambda>(_, c). now < cf_expires_at c) (invite_final_cache l)\<rparr>"

definition handle_timers :: "nat \<Rightarrow> transaction_layer \<Rightarrow> stack_out list \<times> transaction_layer" where
  "handle_timers now l =
     (case retransmit_clients now l of
        (out1, l1) \<Rightarrow>
          (case retransmit_servers now l1 of
             (out2, l2) \<Rightarrow>
               (case expire_timers now l2 of
                  (events, l3) \<Rightarrow> (out1 @ out2 @ concat (map timeout_outputs events), reap now l3))))"

subsection \<open>The dialog table\<close>

definition dialog_key :: "string \<Rightarrow> string \<Rightarrow> string \<Rightarrow> string" where
  "dialog_key cid l r = cid @ '':'' @ l @ '':'' @ r"

definition dialog_key_from_msg :: "sip_message \<Rightarrow> bool \<Rightarrow> string option" where
  "dialog_key_from_msg m is_uas =
     Option.bind (call_id m) (\<lambda>cid.
     Option.bind (from_header m) (\<lambda>f.
     Option.bind (to_header m) (\<lambda>t.
       let ft = unwrap_or [] (extract_tag f); tt = unwrap_or [] (extract_tag t)
       in Some (if is_uas then dialog_key cid tt ft else dialog_key cid ft tt))))"

definition dm_insert :: "dialog \<Rightarrow> (string, dialog) hashmap \<Rightarrow> (string, dialog) hashmap" where
  "dm_insert d ds = hinsert (dialog_key (dlg_call_id d) (dlg_local_tag d) (dlg_remote_tag d)) d ds"

definition dm_find_by_call_id :: "string \<Rightarrow> (string, dialog) hashmap \<Rightarrow> dialog option" where
  "dm_find_by_call_id cid ds = find (\<lambda>d. dlg_call_id d = cid) (map snd ds)"

definition dm_remove_by_call_id ::
    "string \<Rightarrow> (string, dialog) hashmap \<Rightarrow> dialog option \<times> (string, dialog) hashmap" where
  "dm_remove_by_call_id cid ds =
     (case find (\<lambda>(_, d). dlg_call_id d = cid) ds of
        Some (k, _) \<Rightarrow> (hget ds k, hremove k ds)
      | None \<Rightarrow> (None, ds))"

end
