(* ===== verification/Sip_Layer.thy ===== *)
theory Sip_Layer
  imports Sip_Stack
begin

section \<open>Properties of the transaction layer\<close>

text \<open>
  What the stack guarantees over any sequence of operations: its tables stay well formed, every
  transaction that has a deadline is reaped by the first timer pass after it, the first final
  response of an INVITE wins against a concurrent CANCEL, and a retransmitted INVITE is answered
  from the recorded response instead of creating a second call. The four kinds of transactions
  share the contract \<open>timed_txn\<close>, whose consequences for a table are proved once.
\<close>

subsection \<open>Tables\<close>

definition hm_ok :: "('k \<Rightarrow> 'v \<Rightarrow> bool) \<Rightarrow> ('k, 'v) hashmap \<Rightarrow> bool" where
  "hm_ok P m \<longleftrightarrow> hm_wf m \<and> (\<forall>(k, v) \<in> set m. P k v)"

named_theorems hm_ok_intros \<open>what keeps a table well formed\<close>

lemma hm_ok_Nil [simp]: "hm_ok P []"
  by (simp add: hm_ok_def)

lemma hm_ok_hinsert [hm_ok_intros]: "hm_ok P m \<Longrightarrow> P k v \<Longrightarrow> hm_ok P (hinsert k v m)"
  by (auto simp: hm_ok_def dest: in_set_hinsertD)

lemma set_hremove: "set (hremove k m) \<subseteq> set m"
  by (auto simp: AList.delete_eq)

lemma hm_ok_hremove [hm_ok_intros]: "hm_ok P m \<Longrightarrow> hm_ok P (hremove k m)"
  using set_hremove [of k m] by (auto simp: hm_ok_def)

lemma hm_ok_get: "hm_ok P m \<Longrightarrow> hget m k = Some v \<Longrightarrow> P k v"
  by (auto simp: hm_ok_def dest: hget_in_set)

lemma hm_ok_in: "hm_ok P m \<Longrightarrow> (k, v) \<in> set m \<Longrightarrow> P k v"
  by (auto simp: hm_ok_def)

lemma hm_ok_hmodify [hm_ok_intros]:
  "hm_ok P m \<Longrightarrow> (\<And>v. P k v \<Longrightarrow> P k (f v)) \<Longrightarrow> hm_ok P (hmodify k f m)"
  by (cases "hget m k") (simp_all add: hmodify_def hm_ok_hinsert hm_ok_get [where P = P])

lemma hm_ok_fold_hmodify [hm_ok_intros]:
  "hm_ok P m \<Longrightarrow> (\<And>k v. P k v \<Longrightarrow> P k (f v)) \<Longrightarrow> hm_ok P (fold (\<lambda>k. hmodify k f) ks m)"
  by (induction ks arbitrary: m) (simp_all add: hm_ok_hmodify)

lemma hm_ok_filter [hm_ok_intros]: "hm_ok P m \<Longrightarrow> hm_ok P (filter Q m)"
  by (auto simp: hm_ok_def hm_wf_def distinct_map_filter)

lemma fst_map_values [simp]: "map fst (map_values f m) = map fst m"
  by (simp add: map_values_def comp_def case_prod_beta)

lemma hm_ok_map_values [hm_ok_intros]:
  "hm_ok P m \<Longrightarrow> (\<And>k v. P k v \<Longrightarrow> Q k (f v)) \<Longrightarrow> hm_ok Q (map_values f m)"
  by (auto simp: hm_ok_def hm_wf_def) (auto simp: map_values_def)

lemma list_all_map_values: "list_all (\<lambda>(_, v). P v) (map_values f m) = list_all (\<lambda>(_, v). P (f v)) m"
  by (induction m) (auto simp: map_values_def)

lemma list_all_filter:
  "(\<And>k v. (k, v) \<in> set m \<Longrightarrow> Q v \<Longrightarrow> P v) \<Longrightarrow> list_all (\<lambda>(_, v). P v) (filter (\<lambda>(_, v). Q v) m)"
  by (auto simp: list_all_iff)

lemma hget_map_values [simp]: "hget (map_values f m) k = map_option f (hget m k)"
  by (induction m) (auto simp: map_values_def)

lemma hget_hmodify [simp]: "hget (hmodify k f m) k' = (if k' = k then map_option f (hget m k) else hget m k')"
  by (simp add: hmodify_def split: option.split)

lemma hget_filter:
  "hm_wf m \<Longrightarrow> hget (filter (\<lambda>(_, v). P v) m) k = (case hget m k of Some v \<Rightarrow> if P v then Some v else None | None \<Rightarrow> None)"
proof (induction m)
  case (Cons a m)
  obtain j w where a: "a = (j, w)" by fastforce
  with Cons.prems have j: "j \<notin> fst ` set m" and wf: "hm_wf m" by (simp_all add: hm_wf_def)
  then have "hget (filter (\<lambda>(_, v). P v) m) j = None" by (auto simp: map_of_eq_None_iff)
  with a Cons.IH [OF wf] show ?case by (simp split: option.split)
qed simp

lemma hinsert_present: "hm_wf m \<Longrightarrow> k \<in> fst ` set m \<Longrightarrow> hinsert k v m = map (\<lambda>(j, w). (j, if j = k then v else w)) m"
proof (induction m)
  case (Cons a m)
  obtain j w where a: "a = (j, w)" by fastforce
  with Cons.prems(1) have j: "j \<notin> fst ` set m" and wf: "hm_wf m" by (simp_all add: hm_wf_def)
  show ?case
  proof (cases "j = k")
    case True
    then have "(i, if i = k then v else x) = (i, x)" if "(i, x) \<in> set m" for i x
      using j that by force
    then have "map (\<lambda>(j, w). (j, if j = k then v else w)) m = m"
      by (intro map_idI) auto
    with True a show ?thesis by simp
  next
    case False
    then have "k \<in> fst ` set m" using Cons.prems(2) a by auto
    with False a Cons.IH [OF wf] show ?thesis by simp
  qed
qed simp

lemma hmodify_map: "hm_wf m \<Longrightarrow> hmodify k f m = map (\<lambda>(j, w). (j, if j = k then f w else w)) m"
proof (cases "hget m k")
  case None
  then have "j \<noteq> k" if "(j, w) \<in> set m" for j w
    using that by (auto simp: map_of_eq_None_iff image_iff)
  then show ?thesis
    using None by (auto simp: hmodify_def intro!: map_idI [symmetric])
next
  case (Some v)
  assume wf: "hm_wf m"
  have "k \<in> fst ` set m" using Some by (force dest: map_of_SomeD)
  moreover have "w = v" if "(k, w) \<in> set m" for w
    using that Some wf by (simp add: hm_wf_in_set)
  then have "map (\<lambda>(j, w). (j, if j = k then f v else w)) m = map (\<lambda>(j, w). (j, if j = k then f w else w)) m"
    by (intro map_cong) auto
  ultimately show ?thesis
    using Some wf by (simp add: hmodify_def hinsert_present)
qed

lemma fold_hmodify:
  assumes "hm_wf m" and "distinct ks"
  shows "fold (\<lambda>k. hmodify k f) ks m = map (\<lambda>(j, w). (j, if j \<in> set ks then f w else w)) m"
  using assms
proof (induction ks arbitrary: m)
  case Nil
  then show ?case by (simp add: map_idI case_prod_beta)
next
  case (Cons k ks)
  have wf: "hm_wf (hmodify k f m)"
    using Cons.prems(1) by (simp add: hmodify_map) (simp add: hm_wf_def comp_def case_prod_beta)
  then show ?case
    using Cons.prems Cons.IH [OF wf] by (auto simp: hmodify_map)
qed

lemma retransmit_due:
  assumes "hm_wf m"
  shows "fold (\<lambda>k. hmodify k f) (map fst (filter (\<lambda>(_, t). P t) m)) m = map_values (\<lambda>t. if P t then f t else t) m"
proof -
  have "distinct (map fst (filter (\<lambda>(_, t). P t) m))"
    using assms by (simp add: hm_wf_def distinct_map_filter)
  moreover have "k \<in> set (map fst (filter (\<lambda>(_, t). P t) m)) \<longleftrightarrow> P t" if "(k, t) \<in> set m" for k t
    using that assms by (auto simp: hm_wf_in_set image_iff)
  ultimately show ?thesis
    using assms by (auto simp: fold_hmodify map_values_def)
qed

subsection \<open>Transactions with a deadline\<close>

locale timed_txn =
  fixes dead :: "'t \<Rightarrow> bool" and deadline :: "'t \<Rightarrow> nat option" and expire :: "nat \<Rightarrow> 't \<Rightarrow> 't"
    and needs :: "nat \<Rightarrow> 't \<Rightarrow> bool" and renew :: "nat \<Rightarrow> 't \<Rightarrow> 't"
  assumes expire_dead: "dead (expire now t) \<longleftrightarrow> dead t \<or> (\<exists>d. deadline t = Some d \<and> d \<le> now)"
    and expire_alive: "dead (expire now t) \<or> expire now t = t"
    and renew_dead: "dead (renew now t) \<longleftrightarrow> dead t"
    and renew_deadline: "deadline (renew now t) = deadline t"
begin

definition due :: "nat \<Rightarrow> 't \<Rightarrow> bool" where
  "due now t \<longleftrightarrow> dead t \<or> (\<exists>d. deadline t = Some d \<and> d \<le> now)"

lemma due_renew: "due now (renew now' t) \<longleftrightarrow> due now t"
  by (simp add: due_def renew_dead renew_deadline)

lemma sweep: "filter (\<lambda>(_, t). \<not> dead t) (map_values (expire now) m) = filter (\<lambda>(_, t). \<not> due now t) m"
proof (induction m)
  case (Cons a m)
  show ?case
    using Cons expire_alive [of now "snd a"]
    by (auto simp: map_values_def expire_dead due_def case_prod_beta)
qed (simp add: map_values_def)

text \<open>One pass over a table retransmits what is due for it, keeps what has not expired, and changes
  nothing else.\<close>

lemma pass:
  assumes "hm_wf m"
  shows "filter (\<lambda>(_, t). \<not> dead t) (map_values (expire now)
      (fold (\<lambda>k. hmodify k (renew now)) (map fst (filter (\<lambda>(_, t). needs now t) m)) m))
    = map_values (\<lambda>t. if needs now t then renew now t else t) (filter (\<lambda>(_, t). \<not> due now t) m)"
proof -
  have "filter (\<lambda>(_, t). \<not> due now t) (map_values (\<lambda>t. if needs now t then renew now t else t) m)
    = map_values (\<lambda>t. if needs now t then renew now t else t) (filter (\<lambda>(_, t). \<not> due now t) m)"
    by (induction m) (simp_all add: map_values_def case_prod_beta due_renew)
  then show ?thesis using assms by (simp add: retransmit_due sweep)
qed

lemma pass_empty: "(\<And>k t. (k, t) \<in> set m \<Longrightarrow> due now t) \<Longrightarrow> filter (\<lambda>(_, t). \<not> due now t) m = []"
  by (auto simp: filter_empty_conv)

end

definition ct_deadline :: "client_txn \<Rightarrow> nat option" where
  "ct_deadline t =
     (case ct_state t of
        IC_Completed \<Rightarrow> map_option (\<lambda>at. at + TIMER_D_UDP) (ct_completed_at t)
      | IC_Terminated \<Rightarrow> None
      | _ \<Rightarrow> Some (ct_started_at t + TIMER_B))"

definition st_deadline :: "server_txn \<Rightarrow> nat option" where
  "st_deadline t =
     (case st_state t of
        IS_Completed \<Rightarrow> map_option (\<lambda>at. at + TIMER_H) (st_final_response_at t)
      | IS_Accepted \<Rightarrow> map_option (\<lambda>at. at + TIMER_H) (st_final_response_at t)
      | IS_Confirmed \<Rightarrow> map_option (\<lambda>at. at + TIMER_I_UDP) (st_confirmed_at t)
      | _ \<Rightarrow> None)"

definition nc_deadline :: "ni_client_txn \<Rightarrow> nat option" where
  "nc_deadline t =
     (case nc_state t of
        NC_Completed \<Rightarrow> map_option (\<lambda>at. at + TIMER_K_UDP) (nc_completed_at t)
      | NC_Terminated \<Rightarrow> None
      | _ \<Rightarrow> Some (nc_started_at t + TIMER_F))"

definition ns_deadline :: "ni_server_txn \<Rightarrow> nat option" where
  "ns_deadline t = (if ns_state t = NS_Completed then map_option (\<lambda>at. at + TIMER_J_UDP) (ns_completed_at t) else None)"

lemmas deadline_defs = ct_deadline_def st_deadline_def nc_deadline_def ns_deadline_def

lemma elapsed_iff: "0 < d \<Longrightarrow> d \<le> elapsed now at \<longleftrightarrow> at + d \<le> now"
  by (auto simp: elapsed_def)

lemma timers_positive [simp]:
  "0 < TIMER_B" "0 < TIMER_D_UDP" "0 < TIMER_F" "0 < TIMER_H" "0 < TIMER_I_UDP" "0 < TIMER_J_UDP" "0 < TIMER_K_UDP"
  by (simp_all add: sip_timer)

lemma ct_laws:
  "ct_state (ct_expire now t) = IC_Terminated \<longleftrightarrow>
     ct_state t = IC_Terminated \<or> (\<exists>d. ct_deadline t = Some d \<and> d \<le> now)"
  "ct_state (ct_expire now t) = IC_Terminated \<or> ct_expire now t = t"
  "ct_state (ct_advance_retransmit_timer now t) = IC_Terminated \<longleftrightarrow> ct_state t = IC_Terminated"
  "ct_deadline (ct_advance_retransmit_timer now t) = ct_deadline t"
proof -
  show "ct_state (ct_expire now t) = IC_Terminated \<longleftrightarrow>
      ct_state t = IC_Terminated \<or> (\<exists>d. ct_deadline t = Some d \<and> d \<le> now)"
    by (cases "ct_state t") (auto simp: txn_ops ct_deadline_def elapsed_iff is_some_and_def split: option.splits)
qed (simp_all add: ct_expire_def ct_terminate_def ct_advance_retransmit_timer_def ct_deadline_def split: invite_client_state.split)

lemma st_laws:
  "st_state (st_expire now t) = IS_Terminated \<longleftrightarrow>
     st_state t = IS_Terminated \<or> (\<exists>d. st_deadline t = Some d \<and> d \<le> now)"
  "st_state (st_expire now t) = IS_Terminated \<or> st_expire now t = t"
  "st_state (st_advance_retransmit_timer now t) = IS_Terminated \<longleftrightarrow> st_state t = IS_Terminated"
  "st_deadline (st_advance_retransmit_timer now t) = st_deadline t"
proof -
  show "st_state (st_expire now t) = IS_Terminated \<longleftrightarrow>
      st_state t = IS_Terminated \<or> (\<exists>d. st_deadline t = Some d \<and> d \<le> now)"
    by (cases "st_state t") (auto simp: txn_ops st_deadline_def elapsed_iff is_some_and_def split: option.splits)
qed (simp_all add: st_expire_def st_terminate_def st_advance_retransmit_timer_def st_deadline_def split: invite_server_state.split)

lemma nc_laws:
  "nc_state (nc_expire now t) = NC_Terminated \<longleftrightarrow>
     nc_state t = NC_Terminated \<or> (\<exists>d. nc_deadline t = Some d \<and> d \<le> now)"
  "nc_state (nc_expire now t) = NC_Terminated \<or> nc_expire now t = t"
  "nc_state (nc_advance_retransmit_timer now t) = NC_Terminated \<longleftrightarrow> nc_state t = NC_Terminated"
  "nc_deadline (nc_advance_retransmit_timer now t) = nc_deadline t"
proof -
  show "nc_state (nc_expire now t) = NC_Terminated \<longleftrightarrow>
      nc_state t = NC_Terminated \<or> (\<exists>d. nc_deadline t = Some d \<and> d \<le> now)"
    by (cases "nc_state t") (auto simp: txn_ops nc_deadline_def elapsed_iff is_some_and_def split: option.splits)
qed (simp_all add: nc_expire_def nc_terminate_def nc_advance_retransmit_timer_def nc_deadline_def split: non_invite_client_state.split)

lemma ns_laws:
  "ns_state (ns_expire now t) = NS_Terminated \<longleftrightarrow>
     ns_state t = NS_Terminated \<or> (\<exists>d. ns_deadline t = Some d \<and> d \<le> now)"
  "ns_state (ns_expire now t) = NS_Terminated \<or> ns_expire now t = t"
proof -
  show "ns_state (ns_expire now t) = NS_Terminated \<longleftrightarrow>
      ns_state t = NS_Terminated \<or> (\<exists>d. ns_deadline t = Some d \<and> d \<le> now)"
    by (cases "ns_state t") (auto simp: txn_ops ns_deadline_def elapsed_iff is_some_and_def split: option.splits)
qed (simp_all add: ns_expire_def ns_terminate_def)

interpretation ct: timed_txn "\<lambda>t. ct_state t = IC_Terminated" ct_deadline ct_expire
  ct_needs_retransmit ct_advance_retransmit_timer
  by unfold_locales (fact ct_laws)+

interpretation st: timed_txn "\<lambda>t. st_state t = IS_Terminated" st_deadline st_expire
  "\<lambda>now t. st_needs_retransmit now t \<and> st_last_response t \<noteq> None" st_advance_retransmit_timer
  by unfold_locales (fact st_laws)+

interpretation nc: timed_txn "\<lambda>t. nc_state t = NC_Terminated" nc_deadline nc_expire
  nc_needs_retransmit nc_advance_retransmit_timer
  by unfold_locales (fact nc_laws)+

interpretation ns: timed_txn "\<lambda>t. ns_state t = NS_Terminated" ns_deadline ns_expire "\<lambda>_ _. False" "\<lambda>_ t. t"
  by unfold_locales (rule ns_laws refl)+

lemma retransmit_clients_fields:
  "invite_client_txns (snd (retransmit_clients now l)) =
     fold (\<lambda>b. hmodify b (ct_advance_retransmit_timer now))
       (map fst (filter (\<lambda>(_, t). ct_needs_retransmit now t) (invite_client_txns l))) (invite_client_txns l)"
  "non_invite_client_txns (snd (retransmit_clients now l)) =
     fold (\<lambda>b. hmodify b (nc_advance_retransmit_timer now))
       (map fst (filter (\<lambda>(_, t). nc_needs_retransmit now t) (non_invite_client_txns l))) (non_invite_client_txns l)"
  "invite_server_txns (snd (retransmit_clients now l)) = invite_server_txns l"
  "non_invite_server_txns (snd (retransmit_clients now l)) = non_invite_server_txns l"
  "invite_final_cache (snd (retransmit_clients now l)) = invite_final_cache l"
  by (simp_all add: retransmit_clients_def Let_def)

lemma retransmit_servers_fields:
  "invite_server_txns (snd (retransmit_servers now l)) =
     fold (\<lambda>b. hmodify b (st_advance_retransmit_timer now))
       (map fst (filter (\<lambda>(_, t). st_needs_retransmit now t \<and> st_last_response t \<noteq> None) (invite_server_txns l)))
       (invite_server_txns l)"
  "invite_client_txns (snd (retransmit_servers now l)) = invite_client_txns l"
  "non_invite_client_txns (snd (retransmit_servers now l)) = non_invite_client_txns l"
  "non_invite_server_txns (snd (retransmit_servers now l)) = non_invite_server_txns l"
  "invite_final_cache (snd (retransmit_servers now l)) = invite_final_cache l"
  by (simp_all add: retransmit_servers_def Let_def)

lemma expire_timers_fields:
  "invite_client_txns (snd (expire_timers now l)) = map_values (ct_expire now) (invite_client_txns l)"
  "invite_server_txns (snd (expire_timers now l)) = map_values (st_expire now) (invite_server_txns l)"
  "non_invite_client_txns (snd (expire_timers now l)) = map_values (nc_expire now) (non_invite_client_txns l)"
  "non_invite_server_txns (snd (expire_timers now l)) = map_values (ns_expire now) (non_invite_server_txns l)"
  "invite_final_cache (snd (expire_timers now l)) = invite_final_cache l"
  by (simp_all add: expire_timers_def)

lemma reap_fields:
  "invite_client_txns (reap now l) = filter (\<lambda>(_, t). ct_state t \<noteq> IC_Terminated) (invite_client_txns l)"
  "invite_server_txns (reap now l) = filter (\<lambda>(_, t). st_state t \<noteq> IS_Terminated) (invite_server_txns l)"
  "non_invite_client_txns (reap now l) = filter (\<lambda>(_, t). nc_state t \<noteq> NC_Terminated) (non_invite_client_txns l)"
  "non_invite_server_txns (reap now l) = filter (\<lambda>(_, t). ns_state t \<noteq> NS_Terminated) (non_invite_server_txns l)"
  "invite_final_cache (reap now l) = filter (\<lambda>(_, c). now < cf_expires_at c) (invite_final_cache l)"
  by (simp_all add: reap_def)

lemmas pass_fields = reap_fields expire_timers_fields retransmit_servers_fields retransmit_clients_fields

lemma handle_timers_tables:
  assumes "hm_wf (invite_client_txns l)" and "hm_wf (invite_server_txns l)" and "hm_wf (non_invite_client_txns l)"
  shows "invite_client_txns (snd (handle_timers now l)) =
      map_values (\<lambda>t. if ct_needs_retransmit now t then ct_advance_retransmit_timer now t else t)
        (filter (\<lambda>(_, t). \<not> ct.due now t) (invite_client_txns l))"
    and "invite_server_txns (snd (handle_timers now l)) =
      map_values (\<lambda>t. if st_needs_retransmit now t \<and> st_last_response t \<noteq> None then st_advance_retransmit_timer now t else t)
        (filter (\<lambda>(_, t). \<not> st.due now t) (invite_server_txns l))"
    and "non_invite_client_txns (snd (handle_timers now l)) =
      map_values (\<lambda>t. if nc_needs_retransmit now t then nc_advance_retransmit_timer now t else t)
        (filter (\<lambda>(_, t). \<not> nc.due now t) (non_invite_client_txns l))"
    and "non_invite_server_txns (snd (handle_timers now l)) = filter (\<lambda>(_, t). \<not> ns.due now t) (non_invite_server_txns l)"
    and "invite_final_cache (snd (handle_timers now l)) = filter (\<lambda>(_, c). now < cf_expires_at c) (invite_final_cache l)"
proof -
  have eq: "snd (handle_timers now l) =
      reap now (snd (expire_timers now (snd (retransmit_servers now (snd (retransmit_clients now l))))))"
    by (simp add: handle_timers_def case_prod_beta)
  show "invite_client_txns (snd (handle_timers now l)) =
      map_values (\<lambda>t. if ct_needs_retransmit now t then ct_advance_retransmit_timer now t else t)
        (filter (\<lambda>(_, t). \<not> ct.due now t) (invite_client_txns l))"
    unfolding eq pass_fields by (rule ct.pass [OF assms(1)])
  show "invite_server_txns (snd (handle_timers now l)) =
      map_values (\<lambda>t. if st_needs_retransmit now t \<and> st_last_response t \<noteq> None then st_advance_retransmit_timer now t else t)
        (filter (\<lambda>(_, t). \<not> st.due now t) (invite_server_txns l))"
    unfolding eq pass_fields by (rule st.pass [OF assms(2)])
  show "non_invite_client_txns (snd (handle_timers now l)) =
      map_values (\<lambda>t. if nc_needs_retransmit now t then nc_advance_retransmit_timer now t else t)
        (filter (\<lambda>(_, t). \<not> nc.due now t) (non_invite_client_txns l))"
    unfolding eq pass_fields by (rule nc.pass [OF assms(3)])
  show "non_invite_server_txns (snd (handle_timers now l)) = filter (\<lambda>(_, t). \<not> ns.due now t) (non_invite_server_txns l)"
    unfolding eq pass_fields by (rule ns.sweep)
  show "invite_final_cache (snd (handle_timers now l)) = filter (\<lambda>(_, c). now < cf_expires_at c) (invite_final_cache l)"
    unfolding eq pass_fields by (rule refl)
qed

subsection \<open>Sequences of operations\<close>

datatype stack_op =
    Incoming fresh_ids sip_message socket_addr
  | Timers
  | Call string bool sip_message socket_addr
  | Ask string bool sip_message socket_addr
  | Reply sip_message socket_addr
  | Record_Final sip_message sip_message

fun stack_step :: "socket_addr \<Rightarrow> nat \<Rightarrow> stack_op \<Rightarrow> transaction_layer \<Rightarrow> stack_out list \<times> transaction_layer" where
  "stack_step la now (Incoming ids m src) l = handle_incoming now ids la m src l"
| "stack_step la now Timers l = handle_timers now l"
| "stack_step la now (Call uuid sent m addr) l = snd (send_invite now uuid sent m addr l)"
| "stack_step la now (Ask uuid sent m addr) l = snd (send_request now uuid sent m addr l)"
| "stack_step la now (Reply m addr) l = send_response now m addr l"
| "stack_step la now (Record_Final req resp) l = ([], snd (record_invite_final now req resp l))"

definition stack_run :: "socket_addr \<Rightarrow> (nat \<times> stack_op) list \<Rightarrow> transaction_layer \<Rightarrow> transaction_layer" where
  "stack_run la ops l = fold (\<lambda>(now, op) l. snd (stack_step la now op l)) ops l"

subsection \<open>Well-formed layers\<close>

text \<open>
  \<open>bound\<close> is an instant after which no transaction of the layer may live on its timers: 32 seconds
  after the last operation.
\<close>

definition ends_by :: "nat \<Rightarrow> bool \<Rightarrow> nat option \<Rightarrow> bool" where
  "ends_by bound idle d \<longleftrightarrow> (case d of Some d \<Rightarrow> d \<le> bound | None \<Rightarrow> idle)"

definition ct_ok :: "nat \<Rightarrow> string \<Rightarrow> client_txn \<Rightarrow> bool" where
  "ct_ok bound b t \<longleftrightarrow> ct_branch t = b \<and> ends_by bound (ct_state t = IC_Terminated) (ct_deadline t)"

definition st_ok :: "nat \<Rightarrow> string \<Rightarrow> server_txn \<Rightarrow> bool" where
  "st_ok bound b t \<longleftrightarrow>
     st_branch t = b \<and> msg_method (st_request t) = Some Invite
     \<and> ends_by bound (st_state t = IS_Proceeding \<or> st_state t = IS_Terminated) (st_deadline t)
     \<and> (st_state t = IS_Proceeding \<or> st_last_response t \<noteq> None)"

definition nc_ok :: "nat \<Rightarrow> string \<Rightarrow> ni_client_txn \<Rightarrow> bool" where
  "nc_ok bound b t \<longleftrightarrow> nc_branch t = b \<and> ends_by bound (nc_state t = NC_Terminated) (nc_deadline t)"

definition ns_ok :: "nat \<Rightarrow> string \<Rightarrow> ni_server_txn \<Rightarrow> bool" where
  "ns_ok bound b t \<longleftrightarrow>
     ns_branch t = b \<and> (\<exists>meth. msg_method (ns_request t) = Some meth \<and> meth \<noteq> Invite \<and> meth \<noteq> Ack)
     \<and> ends_by bound (ns_state t \<noteq> NS_Completed) (ns_deadline t)
     \<and> (ns_state t = NS_Trying \<or> ns_last_response t \<noteq> None)"

definition cf_ok :: "nat \<Rightarrow> string \<Rightarrow> cached_invite_final \<Rightarrow> bool" where
  "cf_ok bound b c \<longleftrightarrow> msg_method (cf_request c) = Some Invite \<and> cf_expires_at c \<le> bound"

definition layer_wf :: "nat \<Rightarrow> transaction_layer \<Rightarrow> bool" where
  "layer_wf bound l \<longleftrightarrow>
     hm_ok (ct_ok bound) (invite_client_txns l) \<and> hm_ok (st_ok bound) (invite_server_txns l)
     \<and> hm_ok (nc_ok bound) (non_invite_client_txns l) \<and> hm_ok (ns_ok bound) (non_invite_server_txns l)
     \<and> hm_ok (cf_ok bound) (invite_final_cache l)"

lemmas txn_ok_defs = ct_ok_def st_ok_def nc_ok_def ns_ok_def cf_ok_def ends_by_def

lemma timers_le [simp]:
  "TIMER_B \<le> from_secs 32" "TIMER_D_UDP \<le> from_secs 32" "TIMER_F \<le> from_secs 32" "TIMER_H \<le> from_secs 32"
  "TIMER_I_UDP \<le> from_secs 32" "TIMER_J_UDP \<le> from_secs 32" "TIMER_K_UDP \<le> from_secs 32"
  by (simp_all add: sip_timer)

lemma deadline_le:
  "now + from_secs 32 \<le> bound \<Longrightarrow> d \<le> from_secs 32 \<Longrightarrow> now + d \<le> bound"
  by simp

lemma stamp_method [simp]: "msg_method (stamp_via_received_rport src m) = msg_method m"
  by (simp add: stamp_via_received_rport_def msg_method_def)

lemma new_ok:
  assumes "now + from_secs 32 \<le> bound"
  shows "ct_ok bound b (ct_new now m a b)" and "nc_ok bound b (nc_new now m a b)"
    and "msg_method m = Some Invite \<Longrightarrow> st_ok bound b (st_new now m a b)"
    and "msg_method m = Some meth \<Longrightarrow> meth \<noteq> Invite \<Longrightarrow> meth \<noteq> Ack \<Longrightarrow> ns_ok bound b (ns_new m a b)"
  using assms by (simp_all add: txn_ok_defs txn_ops deadline_defs deadline_le [OF assms])

lemma client_ok:
  assumes "now + from_secs 32 \<le> bound"
  shows "ct_ok bound b t \<Longrightarrow> ct_ok bound b (ct_on_response now m t)"
    and "ct_ok bound b t \<Longrightarrow> ct_ok bound b (ct_advance_retransmit_timer now t)"
    and "nc_ok bound b t' \<Longrightarrow> nc_ok bound b (nc_on_response now m t')"
    and "nc_ok bound b t' \<Longrightarrow> nc_ok bound b (nc_advance_retransmit_timer now t')"
  using assms
  by (simp_all add: txn_ok_defs txn_ops deadline_defs deadline_le [OF assms] Let_def
      split: invite_client_state.splits non_invite_client_state.splits option.splits)

lemma server_ok:
  assumes "now + from_secs 32 \<le> bound"
  shows "st_ok bound b t \<Longrightarrow> st_state t = IS_Proceeding \<Longrightarrow> st_ok bound b (st_send_final now m t)"
    and "st_ok bound b t \<Longrightarrow> st_ok bound b (st_on_ack now t)"
    and "st_ok bound b t \<Longrightarrow> st_ok bound b (st_advance_retransmit_timer now t)"
    and "ns_ok bound b t' \<Longrightarrow> ns_ok bound b (ns_send_final now m t')"
    and "ns_ok bound b t' \<Longrightarrow> ns_ok bound b (ns_send_provisional m t')"
  using assms
  by (simp_all add: txn_ok_defs txn_ops deadline_defs deadline_le [OF assms] Let_def
      split: invite_server_state.splits option.splits)

lemmas txn_ok = new_ok client_ok server_ok

subsection \<open>Every operation keeps the layer well formed\<close>

lemma layer_wf_tables:
  assumes "layer_wf bound l"
  shows "hm_ok (ct_ok bound) (invite_client_txns l)" and "hm_ok (st_ok bound) (invite_server_txns l)"
    and "hm_ok (nc_ok bound) (non_invite_client_txns l)" and "hm_ok (ns_ok bound) (non_invite_server_txns l)"
    and "hm_ok (cf_ok bound) (invite_final_cache l)"
  using assms by (simp_all add: layer_wf_def)

lemma layer_wf_get:
  assumes "layer_wf bound l"
  shows "hget (invite_client_txns l) b = Some t1 \<Longrightarrow> ct_ok bound b t1"
    and "hget (invite_server_txns l) b = Some t2 \<Longrightarrow> st_ok bound b t2"
    and "hget (non_invite_client_txns l) b = Some t3 \<Longrightarrow> nc_ok bound b t3"
    and "hget (non_invite_server_txns l) b = Some t4 \<Longrightarrow> ns_ok bound b t4"
  using layer_wf_tables [OF assms] hm_ok_get by fast+

lemma layer_wf_put:
  assumes "layer_wf bound l"
  shows "ct_ok bound b t1 \<Longrightarrow> layer_wf bound (l\<lparr>invite_client_txns := hinsert b t1 (invite_client_txns l)\<rparr>)"
    and "st_ok bound b t2 \<Longrightarrow> layer_wf bound (l\<lparr>invite_server_txns := hinsert b t2 (invite_server_txns l)\<rparr>)"
    and "nc_ok bound b t3 \<Longrightarrow> layer_wf bound (l\<lparr>non_invite_client_txns := hinsert b t3 (non_invite_client_txns l)\<rparr>)"
    and "ns_ok bound b t4 \<Longrightarrow> layer_wf bound (l\<lparr>non_invite_server_txns := hinsert b t4 (non_invite_server_txns l)\<rparr>)"
    and "cf_ok bound b t5 \<Longrightarrow> layer_wf bound (l\<lparr>invite_final_cache := hinsert b t5 (invite_final_cache l)\<rparr>)"
  using assms by (simp_all add: layer_wf_def hm_ok_hinsert)

lemma layer_wf_modify_server:
  assumes "layer_wf bound l" and "\<And>t. st_ok bound b t \<Longrightarrow> st_ok bound b (f t)"
  shows "layer_wf bound (l\<lparr>invite_server_txns := hmodify b f (invite_server_txns l)\<rparr>)"
  using assms by (simp add: layer_wf_def hm_ok_hmodify)

lemma record_non_invite_response_wf:
  assumes "now + from_secs 32 \<le> bound" and "layer_wf bound l"
  shows "layer_wf bound (record_non_invite_response now m a l)"
  using assms
  by (simp add: record_non_invite_response_def layer_wf_get layer_wf_put server_ok split: option.split)

lemma record_invite_final_wf:
  assumes "now + from_secs 32 \<le> bound" and "layer_wf bound l"
  shows "layer_wf bound (snd (record_invite_final now req resp l))"
proof -
  have "layer_wf bound (l\<lparr>invite_server_txns := hinsert b (st_send_final now resp t) (invite_server_txns l),
      invite_final_cache := hinsert b \<lparr>cf_request = st_request t, cf_remote_addr = st_remote_addr t,
        cf_response = resp, cf_expires_at = now + TIMER_H\<rparr> (invite_final_cache l)\<rparr>)"
    if "hget (invite_server_txns l) b = Some t" and "st_state t = IS_Proceeding" for b t
  proof -
    have t: "st_ok bound b t" by (rule layer_wf_get(2) [OF assms(2) that(1)])
    then have "cf_ok bound b \<lparr>cf_request = st_request t, cf_remote_addr = st_remote_addr t,
        cf_response = resp, cf_expires_at = now + TIMER_H\<rparr>"
      using assms(1) by (simp add: cf_ok_def st_ok_def deadline_le)
    from layer_wf_put(5) [OF layer_wf_put(2) [OF assms(2) server_ok(1) [OF assms(1) t that(2)]] this]
    show ?thesis by simp
  qed
  then show ?thesis using assms(2) by (simp add: record_invite_final_def split: option.split)
qed

lemma handle_response_wf:
  assumes "now + from_secs 32 \<le> bound" and "layer_wf bound l"
  shows "layer_wf bound (snd (handle_response now m src l))"
  using assms
  by (simp add: handle_response_def process_response_def process_non_invite_response_def layer_wf_get layer_wf_put
      client_ok case_prod_beta split: option.split)

lemma handle_timers_wf:
  assumes "now + from_secs 32 \<le> bound" and "layer_wf bound l"
  shows "layer_wf bound (snd (handle_timers now l))"
proof -
  have wf: "hm_wf (invite_client_txns l)" "hm_wf (invite_server_txns l)" "hm_wf (non_invite_client_txns l)"
    using layer_wf_tables [OF assms(2)] by (simp_all add: hm_ok_def)
  note t = layer_wf_tables [OF assms(2)]
  have "hm_ok (ct_ok bound) (invite_client_txns (snd (handle_timers now l)))"
    unfolding handle_timers_tables [OF wf]
    by (rule hm_ok_map_values [OF hm_ok_filter [OF t(1)]]) (simp add: client_ok(2) [OF assms(1)])
  moreover have "hm_ok (st_ok bound) (invite_server_txns (snd (handle_timers now l)))"
    unfolding handle_timers_tables [OF wf]
    by (rule hm_ok_map_values [OF hm_ok_filter [OF t(2)]]) (simp add: server_ok(3) [OF assms(1)])
  moreover have "hm_ok (nc_ok bound) (non_invite_client_txns (snd (handle_timers now l)))"
    unfolding handle_timers_tables [OF wf]
    by (rule hm_ok_map_values [OF hm_ok_filter [OF t(3)]]) (simp add: client_ok(4) [OF assms(1)])
  moreover have "hm_ok (ns_ok bound) (non_invite_server_txns (snd (handle_timers now l)))"
    "hm_ok (cf_ok bound) (invite_final_cache (snd (handle_timers now l)))"
    unfolding handle_timers_tables [OF wf] by (rule hm_ok_filter [OF t(4)], rule hm_ok_filter [OF t(5)])
  ultimately show ?thesis by (simp add: layer_wf_def)
qed

lemma ok_response_request: "msg_method m \<noteq> None \<Longrightarrow> ok_response m code reason \<noteq> None"
  by (auto simp: ok_response_def create_response_def is_request_def msg_method_def split: start_line.splits)

lemma absorb_cancel_wf:
  assumes "now + from_secs 32 \<le> bound" and "layer_wf bound l" and "msg_method m = Some Cancel"
  shows "layer_wf bound (absorb_cancel now m src b r l)"
proof -
  have "ns_ok bound b (ns_new m src b)" by (rule new_ok(4) [OF assms(1,3)]) simp_all
  then show ?thesis
    using assms by (simp add: absorb_cancel_def Let_def layer_wf_put server_ok(4) split: option.split)
qed

lemma handle_cancel_request_wf:
  assumes "now + from_secs 32 \<le> bound" and "layer_wf bound l" and "msg_method m = Some Cancel"
  shows "layer_wf bound (snd (handle_cancel_request now ids m src l))"
proof -
  have "st_ok bound b (snd (cancel_invite now t))" if "st_ok bound b t" "st_state t = IS_Proceeding" for b t
    using that server_ok(1) [OF assms(1)] by (simp add: cancel_invite_def split: option.split)
  then show ?thesis
    using assms
    by (simp add: handle_cancel_request_def Let_def case_prod_beta absorb_cancel_wf layer_wf_get layer_wf_put
        split: option.split)
qed

lemma handle_request_wf:
  assumes "now + from_secs 32 \<le> bound" and "layer_wf bound l"
  shows "layer_wf bound (snd (handle_request now ids la m src l))"
proof (cases "msg_method m")
  case (Some meth)
  let ?r = "stamp_via_received_rport src m"
  have "layer_wf bound (snd (handle_ack now ?r src l))"
    using assms
    by (auto simp: handle_ack_def intro!: layer_wf_modify_server server_ok split: option.split)
  moreover have "meth = Invite \<Longrightarrow> layer_wf bound (snd (handle_invite now ids la ?r src l))"
    using assms Some by (simp add: handle_invite_def Let_def layer_wf_put new_ok)
  moreover have "layer_wf bound (snd (handle_other ids e ?r src l))" if "meth \<noteq> Invite" "meth \<noteq> Ack" for e
    using assms Some new_ok(4) [OF assms(1) _ that] that by (simp add: handle_other_def Let_def layer_wf_put)
  moreover have "meth = Cancel \<Longrightarrow> layer_wf bound (snd (handle_cancel_request now ids ?r src l))"
    using assms Some by (simp add: handle_cancel_request_wf)
  ultimately show ?thesis
    using Some assms by (cases meth) (simp_all add: handle_request_def Let_def split: option.split)
qed (use assms in \<open>simp add: handle_request_def\<close>)

lemma stack_step_wf:
  assumes "now + from_secs 32 \<le> bound" and "layer_wf bound l"
  shows "layer_wf bound (snd (stack_step la now op l))"
proof (cases op)
  case (Incoming ids m src)
  then show ?thesis
    using assms by (simp add: handle_incoming_def handle_response_wf handle_request_wf)
next
  case (Call uuid sent m addr)
  then show ?thesis
    using assms by (simp add: send_invite_def Let_def layer_wf_put new_ok)
      (simp add: layer_wf_def hm_ok_hremove hm_ok_hinsert new_ok)
next
  case (Ask uuid sent m addr)
  then show ?thesis
    using assms by (simp add: send_request_def Let_def layer_wf_put new_ok)
      (simp add: layer_wf_def hm_ok_hremove hm_ok_hinsert new_ok)
qed (use assms in \<open>simp_all add: handle_timers_wf send_response_def record_non_invite_response_wf record_invite_final_wf\<close>)

lemma stack_run_wf_aux:
  assumes "layer_wf bound l" and "\<forall>(now, op) \<in> set ops. now + from_secs 32 \<le> bound"
  shows "layer_wf bound (stack_run la ops l)"
  using assms unfolding stack_run_def
  by (induction ops arbitrary: l) (auto simp: stack_step_wf)

lemma layer_new_wf: "layer_wf bound layer_new"
  by (simp add: layer_wf_def layer_new_def)

definition last_instant :: "(nat \<times> stack_op) list \<Rightarrow> nat" where
  "last_instant ops = Max (insert 0 (set (map fst ops)))"

text \<open>
  (C15) The tables of the stack are well typed in every reachable state: whatever is received, sent
  or answered and however the timers run, each table holds a branch at most once and each
  transaction under its own branch; INVITE transactions hold INVITE requests and the others
  neither INVITE nor ACK; a transaction that has sent a response remembers it; and every
  transaction waiting for a timer has a deadline at most 32 seconds after the last operation.
\<close>
theorem stack_layer_wf:
  "layer_wf (last_instant ops + from_secs 32) (stack_run la ops layer_new)"
proof (rule stack_run_wf_aux [OF layer_new_wf])
  have "now \<le> last_instant ops" if "(now, op) \<in> set ops" for now op
    unfolding last_instant_def using that by (intro Max_ge) (auto intro: rev_image_eqI)
  then show "\<forall>(now, op) \<in> set ops. now + from_secs 32 \<le> last_instant ops + from_secs 32" by auto
qed

text \<open>
  (C10) No transaction is leaked by its timers: once 32 seconds have passed since the last
  operation, one timer pass leaves no client transaction and no cached response, and of the server
  transactions only those that the application has not yet given a final response.
\<close>
theorem transactions_reaped:
  assumes "\<forall>(t, op) \<in> set ops. t + from_secs 32 \<le> now"
  shows "let l = snd (handle_timers now (stack_run la ops layer_new))
    in invite_client_txns l = [] \<and> non_invite_client_txns l = [] \<and> invite_final_cache l = []
       \<and> list_all (\<lambda>(_, t). st_state t = IS_Proceeding) (invite_server_txns l)
       \<and> list_all (\<lambda>(_, t). ns_state t = NS_Trying \<or> ns_state t = NS_Proceeding) (non_invite_server_txns l)"
proof -
  define l where "l = stack_run la ops layer_new"
  have "layer_wf now l" unfolding l_def by (rule stack_run_wf_aux [OF layer_new_wf assms])
  note t = layer_wf_tables [OF this]
  have wf: "hm_wf (invite_client_txns l)" "hm_wf (invite_server_txns l)" "hm_wf (non_invite_client_txns l)"
    using t by (simp_all add: hm_ok_def)
  note tables = handle_timers_tables [OF wf, of now]
  have "ct.due now t" if "(b, t) \<in> set (invite_client_txns l)" for b t
    using hm_ok_in [OF t(1) that] by (auto simp: ct_ok_def ct.due_def ends_by_def split: option.splits)
  then have "invite_client_txns (snd (handle_timers now l)) = []"
    by (simp add: tables(1) ct.pass_empty map_values_def)
  moreover have "nc.due now t" if "(b, t) \<in> set (non_invite_client_txns l)" for b t
    using hm_ok_in [OF t(3) that] by (auto simp: nc_ok_def nc.due_def ends_by_def split: option.splits)
  then have "non_invite_client_txns (snd (handle_timers now l)) = []"
    by (simp add: tables(3) nc.pass_empty map_values_def)
  moreover have "invite_final_cache (snd (handle_timers now l)) = []"
    using t(5) by (auto simp: tables(5) hm_ok_def cf_ok_def filter_empty_conv)
  moreover have "st_state t = IS_Proceeding" if "(b, t) \<in> set (invite_server_txns l)" "\<not> st.due now t" for b t
    using hm_ok_in [OF t(2) that(1)] that(2) by (auto simp: st_ok_def st.due_def ends_by_def split: option.splits)
  then have "list_all (\<lambda>(_, t). st_state t = IS_Proceeding) (filter (\<lambda>(_, t). \<not> st.due now t) (invite_server_txns l))"
    by (rule list_all_filter [where Q = "\<lambda>t. \<not> st.due now t" and P = "\<lambda>t. st_state t = IS_Proceeding"])
  then have "list_all (\<lambda>(_, t). st_state t = IS_Proceeding) (invite_server_txns (snd (handle_timers now l)))"
    unfolding tables(2) list_all_map_values [where P = "\<lambda>t. st_state t = IS_Proceeding"]
    by (simp add: st_advance_retransmit_timer_def if_distrib [where f = st_state] cong: if_cong)
  moreover have "ns_state t = NS_Trying \<or> ns_state t = NS_Proceeding"
    if "(b, t) \<in> set (non_invite_server_txns l)" "\<not> ns.due now t" for b t
  proof -
    have "ends_by now (ns_state t \<noteq> NS_Completed) (ns_deadline t)"
      using hm_ok_in [OF t(4) that(1)] by (simp add: ns_ok_def)
    with that(2) show ?thesis
      by (cases "ns_state t"; cases "ns_deadline t") (simp_all add: ends_by_def ns.due_def)
  qed
  then have "list_all (\<lambda>(_, t). ns_state t = NS_Trying \<or> ns_state t = NS_Proceeding)
      (non_invite_server_txns (snd (handle_timers now l)))"
    unfolding tables(4)
    by (rule list_all_filter [where Q = "\<lambda>t. \<not> ns.due now t"
        and P = "\<lambda>t. ns_state t = NS_Trying \<or> ns_state t = NS_Proceeding"])
  ultimately show ?thesis
    unfolding l_def [symmetric] Let_def by (intro conjI)
qed

definition sample_invite :: sip_message where
  "sample_invite =
     \<lparr>msg_start_line = Request \<lparr>rl_method = Invite,
        rl_uri = \<lparr>uri_scheme = ''sip'', uri_user = Some ''bob'', uri_password = None, uri_host = ''pbx'',
                  uri_port = None, uri_parameters = [], uri_headers = []\<rparr>, rl_version = ''SIP/2.0''\<rparr>,
      msg_headers = [\<lparr>hdr_name = ''Via'', hdr_value = ''SIP/2.0/UDP a;branch=b1''\<rparr>,
        \<lparr>hdr_name = ''From'', hdr_value = ''<sip:a>;tag=1''\<rparr>, \<lparr>hdr_name = ''To'', hdr_value = ''<sip:bob>''\<rparr>,
        \<lparr>hdr_name = ''Call-ID'', hdr_value = ''c1''\<rparr>, \<lparr>hdr_name = ''CSeq'', hdr_value = ''1 INVITE''\<rparr>],
      msg_body = []\<rparr>"

theorem transactions_reaped_witness:
  "let ops = [(0, Call ''u'' True sample_invite (''10.0.0.2'', 5060)), (from_secs 1, Timers)]
   in length (invite_client_txns (stack_run (''10.0.0.1'', 5060) ops layer_new)) = 1
      \<and> invite_client_txns (snd (handle_timers (from_secs 40) (stack_run (''10.0.0.1'', 5060) ops layer_new))) = []"
proof -
  let ?ops = "[(0, Call ''u'' True sample_invite (''10.0.0.2'', 5060)), (from_secs 1, Timers)]"
  have "length (invite_client_txns (stack_run (''10.0.0.1'', 5060) ?ops layer_new)) = 1"
    by (simp add: stack_run_def send_invite_def Let_def layer_new_def handle_timers_tables hm_wf_def map_values_def
        ct.due_def ct_new_def ct_deadline_def sip_timer)
  moreover have "\<forall>(t, op) \<in> set ?ops. t + from_secs 32 \<le> from_secs 40" by (simp add: from_secs_def)
  ultimately show ?thesis
    using transactions_reaped [of ?ops "from_secs 40" "(''10.0.0.1'', 5060)"] by (simp add: Let_def)
qed

subsection \<open>A decided INVITE stays decided\<close>

definition decided :: "sip_message \<Rightarrow> socket_addr \<Rightarrow> sip_message \<Rightarrow> server_txn \<Rightarrow> bool" where
  "decided q a r t \<longleftrightarrow>
     st_request t = q \<and> st_remote_addr t = a \<and> st_last_response t = Some r \<and> st_state t \<noteq> IS_Proceeding"

definition settled :: "string \<Rightarrow> sip_message \<Rightarrow> socket_addr \<Rightarrow> sip_message \<Rightarrow> transaction_layer \<Rightarrow> bool" where
  "settled b q a r l \<longleftrightarrow> (\<forall>t. hget (invite_server_txns l) b = Some t \<longrightarrow> decided q a r t)"

definition invite_on :: "string \<Rightarrow> stack_op \<Rightarrow> bool" where
  "invite_on b op \<longleftrightarrow>
     (case op of
        Incoming ids m src \<Rightarrow>
          msg_method m = Some Invite \<and> branch_or_new (id_branch ids) (stamp_via_received_rport src m) = b
      | _ \<Rightarrow> False)"

definition absorbed :: "nat \<Rightarrow> stack_op \<Rightarrow> transaction_layer \<Rightarrow> bool" where
  "absorbed now op l \<longleftrightarrow>
     (case op of
        Incoming ids m src \<Rightarrow> matched_retransmission now (stamp_via_received_rport src m) src l \<noteq> None
      | _ \<Rightarrow> False)"

lemma decided_ops [simp]:
  "decided q a r t \<Longrightarrow> decided q a r (st_on_ack now t)"
  "decided q a r t \<Longrightarrow> decided q a r (st_advance_retransmit_timer now t)"
  by (simp_all add: decided_def st_on_ack_def st_advance_retransmit_timer_def)

lemma settled_unchanged: "settled b q a r l \<Longrightarrow> invite_server_txns l' = invite_server_txns l \<Longrightarrow> settled b q a r l'"
  by (simp add: settled_def)

lemma handle_response_server [simp]:
  "invite_server_txns (snd (handle_response now m src l)) = invite_server_txns l"
  "invite_final_cache (snd (handle_response now m src l)) = invite_final_cache l"
  by (simp_all add: handle_response_def process_response_def process_non_invite_response_def case_prod_beta split: option.split)

lemma absorb_cancel_server [simp]:
  "invite_server_txns (absorb_cancel now m src b r l) = invite_server_txns l"
  "invite_final_cache (absorb_cancel now m src b r l) = invite_final_cache l"
  by (simp_all add: absorb_cancel_def Let_def)

lemma record_non_invite_response_server [simp]:
  "invite_server_txns (record_non_invite_response now m src l) = invite_server_txns l"
  "invite_final_cache (record_non_invite_response now m src l) = invite_final_cache l"
  by (simp_all add: record_non_invite_response_def split: option.split)

lemma settled_cancel: "settled b q a r l \<Longrightarrow> settled b q a r (snd (handle_cancel_request now ids m src l))"
  by (auto simp: handle_cancel_request_def settled_def decided_def Let_def case_prod_beta split: option.split)

lemma settled_ack: "settled b q a r l \<Longrightarrow> settled b q a r (snd (handle_ack now m src l))"
  by (auto simp: handle_ack_def settled_def split: option.split)

lemma settled_invite:
  "settled b q a r l \<Longrightarrow> branch_or_new (id_branch ids) m \<noteq> b \<Longrightarrow> settled b q a r (snd (handle_invite now ids la m src l))"
  by (simp add: handle_invite_def settled_def Let_def)

lemma settled_other: "settled b q a r l \<Longrightarrow> settled b q a r (snd (handle_other ids e m src l))"
  by (simp add: handle_other_def settled_def Let_def)

lemma settled_request:
  assumes "settled b q a r l" and "\<not> invite_on b (Incoming ids m src) \<or> absorbed now (Incoming ids m src) l"
  shows "settled b q a r (snd (handle_request now ids la m src l))"
proof (cases "msg_method m")
  case (Some meth)
  let ?r = "stamp_via_received_rport src m"
  show ?thesis
  proof (cases "matched_retransmission now ?r src l")
    case None
    have "meth = Invite \<Longrightarrow> settled b q a r (snd (handle_invite now ids la ?r src l))"
      using assms None Some by (simp add: settled_invite invite_on_def absorbed_def)
    then show ?thesis
      using assms(1) None Some
      by (cases meth) (simp_all add: handle_request_def Let_def settled_cancel settled_ack settled_other)
  qed (use assms Some in \<open>simp add: handle_request_def Let_def\<close>)
qed (use assms in \<open>simp add: handle_request_def\<close>)

lemma settled_timers:
  assumes "settled b q a r l" and "layer_wf bound l"
  shows "settled b q a r (snd (handle_timers now l))"
proof -
  have wf: "hm_wf (invite_client_txns l)" "hm_wf (invite_server_txns l)" "hm_wf (non_invite_client_txns l)"
    using layer_wf_tables [OF assms(2)] by (simp_all add: hm_ok_def)
  show ?thesis
  proof (cases "hget (invite_server_txns l) b")
    case (Some t)
    then have "decided q a r t" using assms(1) by (simp add: settled_def)
    then have "decided q a r (if P then st_advance_retransmit_timer now t else t)" for P by simp
    with Some show ?thesis
      unfolding settled_def handle_timers_tables [OF wf] by (simp add: hget_filter [OF wf(2)] del: decided_ops)
  qed (unfold settled_def handle_timers_tables [OF wf], simp add: hget_filter [OF wf(2)])
qed

lemma settled_step:
  assumes "settled b q a r l" and "layer_wf bound l" and "\<not> invite_on b op \<or> absorbed now op l"
  shows "settled b q a r (snd (stack_step la now op l))"
proof (cases op)
  case (Incoming ids m src)
  then show ?thesis
    using assms settled_unchanged by (simp add: handle_incoming_def settled_request)
next
  case (Record_Final req resp)
  then show ?thesis
    using assms(1) by (simp add: record_invite_final_def settled_def decided_def split: option.split) blast
next
  case (Reply m addr)
  then show ?thesis
    using assms(1) by (simp add: send_response_def settled_def)
next
  case Timers
  then show ?thesis using settled_timers [OF assms(1,2)] by simp
qed (use assms(1) in \<open>simp_all add: send_invite_def send_request_def Let_def settled_def\<close>)

lemma settled_run:
  assumes "settled b q a r l" and "layer_wf bound l"
    and "\<forall>(now, op) \<in> set ops. now + from_secs 32 \<le> bound \<and> \<not> invite_on b op"
  shows "settled b q a r (stack_run la ops l)"
  using assms unfolding stack_run_def
proof (induction ops arbitrary: l)
  case (Cons x ops)
  then show ?case
    by (cases x) (auto simp: stack_step_wf settled_step)
qed simp

lemma final_decides:
  assumes "200 \<le> status_or_0 r" and "status_or_0 r < 700"
  shows "decided (st_request t) (st_remote_addr t) r (st_send_final now r t)"
  using assms by (simp add: decided_def st_send_final_def Let_def)

lemma settled_final:
  "hget (invite_server_txns l) b = Some t \<Longrightarrow> settled b q a r l \<Longrightarrow> extract_branch req = Some b \<Longrightarrow>
     record_invite_final now req resp l = (False, l)"
  by (simp add: settled_def decided_def record_invite_final_def)

lemma settled_no_cancel:
  assumes "hget (invite_server_txns l) b = Some t" and "settled b q a r l" and "extract_branch m = Some b"
    and "request_identity_matches q m"
  shows "fst (handle_cancel_request now ids m src l) = sends (ok_response m 200 ''OK'') src"
  using assms by (simp add: handle_cancel_request_def branch_or_new_def unwrap_or_def settled_def decided_def Let_def)

lemma ok_response_status:
  assumes "msg_method m \<noteq> None"
  obtains r where "ok_response m code reason = Some r" and "status_or_0 r = unat code"
  using assms
  by (cases "msg_start_line m")
    (simp_all add: ok_response_def create_response_def is_request_def msg_method_def status_or_0_def status_code_def)

lemma cancel_settles:
  assumes "layer_wf bound l" and "hget (invite_server_txns l) b = Some t" and "st_state t = IS_Proceeding"
    and "extract_branch m = Some b" and "request_identity_matches (st_request t) m"
  shows "\<exists>r. settled b (st_request t) (st_remote_addr t) r (snd (handle_cancel_request now ids m src l))"
proof -
  have "msg_method (st_request t) \<noteq> None" using layer_wf_get(2) [OF assms(1,2)] by (simp add: st_ok_def)
  then obtain r where r: "ok_response (st_request t) 487 ''Request Terminated'' = Some r" "status_or_0 r = 487"
    by (rule ok_response_status [where code = 487 and reason = "''Request Terminated''"]) simp
  then have "decided (st_request t) (st_remote_addr t) r (st_send_final now r t)" by (intro final_decides) simp_all
  then show ?thesis
    using assms(2-5) r(1)
    by (auto simp: handle_cancel_request_def branch_or_new_def unwrap_or_def cancel_invite_def Let_def settled_def)
qed


definition sample_layer :: transaction_layer where
  "sample_layer = snd (handle_invite 0 \<lparr>id_branch = ''u'', id_tag = ''t'', id_session = ''s''\<rparr> (''10.0.0.1'', 5060)
     sample_invite (''10.0.0.2'', 9) layer_new)"

definition sample_cancel :: sip_message where
  "sample_cancel = sample_invite\<lparr>msg_start_line := Request \<lparr>rl_method = Cancel,
     rl_uri = \<lparr>uri_scheme = ''sip'', uri_user = Some ''bob'', uri_password = None, uri_host = ''pbx'',
               uri_port = None, uri_parameters = [], uri_headers = []\<rparr>, rl_version = ''SIP/2.0''\<rparr>\<rparr>"

definition sample_answer :: sip_message where
  "sample_answer = new_response 200 ''OK''"

lemma sample_branch: "extract_branch sample_invite = Some ''b1''" "extract_branch sample_cancel = Some ''b1''"
  by code_simp+

lemma sample_layer_server:
  "hget (invite_server_txns sample_layer) ''b1'' = Some (st_new 0 sample_invite (''10.0.0.2'', 9) ''b1'')"
  by (simp add: sample_layer_def handle_invite_def layer_new_def Let_def branch_or_new_def unwrap_or_def sample_branch)

lemma sample_layer_wf: "layer_wf (from_secs 100) sample_layer"
  by (simp add: sample_layer_def handle_invite_def Let_def layer_wf_put layer_new_wf new_ok from_secs_def
      sample_invite_def msg_method_def)

definition sample_ids :: fresh_ids where
  "sample_ids = \<lparr>id_branch = ''u'', id_tag = ''t'', id_session = ''s''\<rparr>"

lemma sample_status: "status_or_0 sample_answer = 200"
  by (simp add: sample_answer_def new_response_def status_or_0_def status_code_def)

definition sample_answered :: transaction_layer where
  "sample_answered = snd (record_invite_final 0 sample_invite sample_answer sample_layer)"

lemma sample_answered_wf: "layer_wf (from_secs 100) sample_answered"
  unfolding sample_answered_def
  by (rule record_invite_final_wf [OF _ sample_layer_wf]) (simp add: from_secs_def)

lemma sample_answered_server:
  "hget (invite_server_txns sample_answered) ''b1'' =
     Some (st_send_final 0 sample_answer (st_new 0 sample_invite (''10.0.0.2'', 9) ''b1''))"
  by (simp add: sample_answered_def record_invite_final_def sample_branch sample_layer_server st_new_def)

lemma sample_answered_kept: "hget (invite_server_txns (snd (handle_timers (from_secs 1) sample_answered))) ''b1'' \<noteq> None"
proof -
  have wf: "hm_wf (invite_client_txns sample_answered)" "hm_wf (invite_server_txns sample_answered)"
    "hm_wf (non_invite_client_txns sample_answered)"
    using layer_wf_tables [OF sample_answered_wf] by (simp_all add: hm_ok_def)
  have "\<not> st.due (from_secs 1) (st_send_final 0 sample_answer (st_new 0 sample_invite (''10.0.0.2'', 9) ''b1''))"
    by (simp add: st.due_def st_send_final_def sample_status st_deadline_def st_new_def sip_timer)
  then show ?thesis
    unfolding handle_timers_tables(2) [OF wf] hget_map_values hget_filter [OF wf(2)] sample_answered_server by simp
qed


subsection \<open>A retransmitted INVITE\<close>

definition cached :: "string \<Rightarrow> sip_message \<Rightarrow> socket_addr \<Rightarrow> sip_message \<Rightarrow> nat \<Rightarrow> transaction_layer \<Rightarrow> bool" where
  "cached b q a r e l \<longleftrightarrow>
     hget (invite_final_cache l) b =
       Some \<lparr>cf_request = q, cf_remote_addr = a, cf_response = r, cf_expires_at = e\<rparr>"

definition copy_of :: "string \<Rightarrow> sip_message \<Rightarrow> socket_addr \<Rightarrow> stack_op \<Rightarrow> bool" where
  "copy_of b q a op \<longleftrightarrow>
     (case op of
        Incoming ids m src \<Rightarrow>
          msg_method m = Some Invite \<and> extract_branch (stamp_via_received_rport src m) = Some b
          \<and> is_copy q a (stamp_via_received_rport src m) src
      | _ \<Rightarrow> False)"

lemma replayed:
  assumes "layer_wf bound l" and "settled b q a r l" and "cached b q a r e l" and "now < e"
    and "msg_method m = Some Invite" and "extract_branch m = Some b" and "is_copy q a m src"
  shows "matched_retransmission now m src l = Some (Some r)"
proof -
  have q: "msg_method q = Some Invite"
    using hm_ok_get [OF layer_wf_tables(5) [OF assms(1)]] assms(3) by (fastforce simp: cached_def cf_ok_def)
  have "replay_non_invite m src b l = None"
    using layer_wf_get(4) [OF assms(1), of b] assms(5)
    by (cases "hget (non_invite_server_txns l) b") (fastforce simp: replay_non_invite_def ns_ok_def)+
  moreover have "replay_cached now m src b l = Some (Some r)"
    using assms(3-5,7) by (simp add: replay_cached_def cached_def)
  moreover have "replay_invite m src b l = None \<or> replay_invite m src b l = Some (Some r)"
    using assms(2,5,7) q
    by (cases "hget (invite_server_txns l) b") (simp_all add: replay_invite_def settled_def decided_def)
  ultimately show ?thesis
    using assms(5,6) by (auto simp: matched_retransmission_def or_else_def)
qed

lemma handle_request_cache [simp]: "invite_final_cache (snd (handle_request now ids la m src l)) = invite_final_cache l"
proof (cases "msg_method m")
  case (Some meth)
  show ?thesis
  proof (cases "matched_retransmission now (stamp_via_received_rport src m) src l")
    case None
    then show ?thesis
      using Some
      by (cases meth) (simp_all add: handle_request_def Let_def handle_invite_def handle_ack_def handle_other_def
          handle_cancel_request_def case_prod_beta split: option.split)
  qed (use Some in \<open>simp add: handle_request_def Let_def\<close>)
qed (simp add: handle_request_def)

lemma cached_step:
  assumes "layer_wf bound l" and "settled b q a r l" and "cached b q a r e l" and "now < e"
  shows "cached b q a r e (snd (stack_step la now op l))"
proof (cases op)
  case Timers
  have wf: "hm_wf (invite_client_txns l)" "hm_wf (invite_server_txns l)" "hm_wf (non_invite_client_txns l)"
    "hm_wf (invite_final_cache l)"
    using layer_wf_tables [OF assms(1)] by (simp_all add: hm_ok_def)
  show ?thesis
    using assms(3,4) Timers unfolding cached_def stack_step.simps
    by (simp add: handle_timers_tables(5) [OF wf(1-3)] hget_filter [OF wf(4)])
next
  case (Record_Final req resp)
  then show ?thesis
    using assms(2,3) by (simp add: record_invite_final_def cached_def settled_def decided_def split: option.split) blast
qed (use assms(3) in \<open>simp_all add: handle_incoming_def send_invite_def send_request_def send_response_def Let_def cached_def\<close>)

lemma answered_run:
  assumes "layer_wf bound l" and "settled b q a r l" and "cached b q a r e l"
    and "\<forall>(now, op) \<in> set ops. now + from_secs 32 \<le> bound \<and> now < e \<and> (invite_on b op \<longrightarrow> copy_of b q a op)"
  shows "layer_wf bound (stack_run la ops l) \<and> settled b q a r (stack_run la ops l) \<and> cached b q a r e (stack_run la ops l)"
  using assms unfolding stack_run_def
proof (induction ops arbitrary: l)
  case (Cons x ops)
  obtain now op where x: "x = (now, op)" by fastforce
  have op: "now + from_secs 32 \<le> bound" "now < e" "invite_on b op \<longrightarrow> copy_of b q a op"
    using Cons.prems(4) x by auto
  have "copy_of b q a op \<Longrightarrow> absorbed now op l"
    using replayed [OF Cons.prems(1-3) op(2)] by (cases op) (simp_all add: copy_of_def absorbed_def)
  then have "settled b q a r (snd (stack_step la now op l))"
    using op(3) by (intro settled_step [OF Cons.prems(2,1)]) blast
  moreover have "layer_wf bound (snd (stack_step la now op l))" by (rule stack_step_wf [OF op(1) Cons.prems(1)])
  moreover have "cached b q a r e (snd (stack_step la now op l))" by (rule cached_step [OF Cons.prems(1-3) op(2)])
  ultimately show ?case
    using Cons.IH [of "snd (stack_step la now op l)"] Cons.prems(4) x by auto
qed simp

text \<open>
  (C4) An answered INVITE makes one call only. For 32 seconds after its final response, whatever
  else the stack does meanwhile (acknowledging, reaping, other calls, and any number of copies), a
  copy of the INVITE from the same source is answered with exactly the recorded response: no event
  reaches the application and the layer does not change. Only INVITEs that reuse the branch for
  another call, or from another source, are excluded.
\<close>
theorem retransmission_replayed:
  assumes "layer_wf bound l" and "hget (invite_server_txns l) b = Some t" and "st_state t = IS_Proceeding"
    and "extract_branch req = Some b" and "200 \<le> status_or_0 r" and "status_or_0 r < 700"
    and "at + from_secs 32 \<le> bound"
    and "\<forall>(now, op) \<in> set ops. now + from_secs 32 \<le> bound \<and> now < at + TIMER_H
      \<and> (invite_on b op \<longrightarrow> copy_of b (st_request t) (st_remote_addr t) op)"
    and "now < at + TIMER_H" and "copy_of b (st_request t) (st_remote_addr t) (Incoming ids m src)"
  shows "let l' = stack_run la ops (snd (record_invite_final at req r l))
    in handle_incoming now ids la m src l' = ([Send r src], l')"
proof -
  let ?q = "st_request t" and ?a = "st_remote_addr t"
  define l0 where "l0 = snd (record_invite_final at req r l)"
  have wf: "layer_wf bound l0" unfolding l0_def by (rule record_invite_final_wf [OF assms(7,1)])
  have "settled b ?q ?a r l0" "cached b ?q ?a r (at + TIMER_H) l0"
    using assms(2-6) final_decides by (simp_all add: l0_def record_invite_final_def settled_def cached_def)
  note l' = answered_run [OF wf this assms(8), of la]
  have "matched_retransmission now (stamp_via_received_rport src m) src (stack_run la ops l0) = Some (Some r)"
    using assms(10) l' by (intro replayed [OF _ _ _ assms(9)]) (auto simp: copy_of_def)
  moreover have "msg_method m = Some Invite" "\<not> is_response m"
    using assms(10) by (auto simp: copy_of_def msg_method_def is_response_def split: start_line.splits)
  ultimately show ?thesis
    by (simp add: l0_def [symmetric] handle_incoming_def handle_request_def sends_def Let_def)
qed

theorem retransmission_replayed_witness:
  "let l' = stack_run (''10.0.0.1'', 5060) [(from_secs 1, Timers)] (snd (record_invite_final 0 sample_invite sample_answer sample_layer))
   in handle_incoming (from_secs 2) sample_ids (''10.0.0.1'', 5060) sample_invite (''10.0.0.2'', 9) l'
      = ([Send sample_answer (''10.0.0.2'', 9)], l')"
proof -
  let ?t = "st_new 0 sample_invite (''10.0.0.2'', 9) ''b1''"
  have "msg_method sample_invite = Some Invite" by (simp add: sample_invite_def msg_method_def)
  moreover have "extract_branch (stamp_via_received_rport (''10.0.0.2'', 9) sample_invite) = Some ''b1''"
    "is_copy sample_invite (''10.0.0.2'', 9) (stamp_via_received_rport (''10.0.0.2'', 9) sample_invite) (''10.0.0.2'', 9)"
    by code_simp+
  ultimately have copy: "copy_of ''b1'' (st_request ?t) (st_remote_addr ?t) (Incoming sample_ids sample_invite (''10.0.0.2'', 9))"
    by (simp add: copy_of_def st_new_def)
  have t: "st_state ?t = IS_Proceeding" by (simp add: st_new_def)
  have s: "200 \<le> status_or_0 sample_answer" "status_or_0 sample_answer < 700" by (simp_all add: sample_status)
  have n: "0 + from_secs 32 \<le> from_secs 100" "from_secs 2 < 0 + TIMER_H" by (simp_all add: sip_timer)
  have o: "\<forall>(now, op) \<in> set [(from_secs 1, Timers)]. now + from_secs 32 \<le> from_secs 100 \<and> now < 0 + TIMER_H
      \<and> (invite_on ''b1'' op \<longrightarrow> copy_of ''b1'' (st_request ?t) (st_remote_addr ?t) op)"
    by (simp add: sip_timer invite_on_def)
  show ?thesis
    by (rule retransmission_replayed [OF sample_layer_wf sample_layer_server t sample_branch(1) s n(1) o n(2) copy])
qed

end
