(* ===== verification/Sip_Call.thy ===== *)
theory Sip_Call
  imports Sip_Session
begin

section \<open>A call between two sessions\<close>

text \<open>
  The two ends of a call put together: the INVITE of one session, the answer of the other, and the
  requests that follow inside the dialog.
\<close>

subsection \<open>Header names and tags\<close>

definition names :: "string list" where
  "names = [''Via'', ''Max-Forwards'', ''From'', ''To'', ''Call-ID'', ''CSeq'', ''Contact'', ''User-Agent'', ''Allow'',
     ''Content-Type'', ''Content-Length'', ''Route'', ''Record-Route'']"

definition known_name :: "string \<Rightarrow> bool" where
  "known_name n \<longleftrightarrow> n \<in> set names"

lemma lower_names:
  "map (map lower_char) names = [''via'', ''max-forwards'', ''from'', ''to'', ''call-id'', ''cseq'', ''contact'',
     ''user-agent'', ''allow'', ''content-type'', ''content-length'', ''route'', ''record-route'']"
  by code_simp

lemma known_name_eq: "known_name a \<Longrightarrow> known_name b \<Longrightarrow> eq_ignore_ascii_case a b \<longleftrightarrow> a = b"
proof -
  have "distinct (map (map lower_char) names)" unfolding lower_names by simp
  then have "inj_on (map lower_char) (set names)" by (simp only: distinct_map)
  then show "known_name a \<Longrightarrow> known_name b \<Longrightarrow> eq_ignore_ascii_case a b \<longleftrightarrow> a = b"
    unfolding known_name_def eq_ignore_ascii_case_def by (rule inj_on_eq_iff)
qed

lemma known_names [simp]:
  "known_name ''Via''" "known_name ''Max-Forwards''" "known_name ''From''" "known_name ''To''"
  "known_name ''Call-ID''" "known_name ''CSeq''" "known_name ''Contact''" "known_name ''User-Agent''"
  "known_name ''Allow''" "known_name ''Content-Type''" "known_name ''Content-Length''" "known_name ''Route''"
  "known_name ''Record-Route''"
  by (simp_all add: known_name_def names_def)

lemma contains_sub_iff: "contains_sub p s \<longleftrightarrow> (\<exists>a b. s = a @ p @ b)"
proof (induction s)
  case Nil
  then show ?case by (simp add: contains_sub_def)
next
  case (Cons c s)
  have "contains_sub p (c # s) \<longleftrightarrow> starts_with p (c # s) \<or> contains_sub p s"
    by (simp add: contains_sub_def)
  also have "\<dots> \<longleftrightarrow> (\<exists>a b. c # s = a @ p @ b)"
  proof
    assume "starts_with p (c # s) \<or> contains_sub p s"
    then show "\<exists>a b. c # s = a @ p @ b"
      using Cons by (metis append_Cons append_Nil starts_with_iff)
  next
    assume "\<exists>a b. c # s = a @ p @ b"
    then obtain a b where ab: "c # s = a @ p @ b" by blast
    show "starts_with p (c # s) \<or> contains_sub p s"
    proof (cases a)
      case Nil
      with ab show ?thesis by (simp add: starts_with_iff)
    next
      fix x xs assume "a = x # xs"
      with ab have "s = xs @ p @ b" by simp
      with Cons.IH show ?thesis by blast
    qed
  qed
  finally show ?case .
qed

lemma split_char_infix: "w \<in> set (split_char d s) \<Longrightarrow> \<exists>a b. s = a @ w @ b"
proof (induction s arbitrary: w)
  case (Cons c s)
  obtain x xs where x: "split_char d s = x # xs" by (cases "split_char d s") simp_all
  have tail: "\<exists>a b. c # s = a @ w @ b" if "\<exists>a b. s = a @ w @ b"
    using that by (metis append_Cons)
  have "\<exists>b. s = x @ b"
  proof -
    have "split_char d s = takeWhile (\<lambda>e. e \<noteq> d) s # tl (split_char d s)"
      by (induction s) (auto split: list.splits)
    then show ?thesis using x by (metis list.inject takeWhile_dropWhile_id)
  qed
  then obtain b where b: "s = x @ b" by blast
  show ?case
  proof (cases "c = d \<or> w \<noteq> c # x")
    case True
    with Cons.prems x have "w = [] \<or> w \<in> set (split_char d s)" by (auto split: if_splits)
    then show ?thesis using Cons.IH tail by (metis append_Nil append_Nil2)
  next
    case False
    with b show ?thesis by (metis append_Cons append_Nil)
  qed
qed simp

lemma split_char_join: "split_char d (a @ d # b) = split_char d a @ split_char d b"
proof (induction a)
  case (Cons c a)
  then show ?case by (cases "split_char d a") simp_all
qed simp

lemma trim_part: "\<exists>a b. s = a @ trim s @ b"
proof -
  have "s = takeWhile is_ws s @ trim_start s" by (simp add: trim_start_def)
  moreover have "trim_start s = trim s @ rev (takeWhile is_ws (rev (trim_start s)))"
    by (metis rev_append rev_rev_ident takeWhile_dropWhile_id trim_def trim_end_def)
  ultimately show ?thesis by metis
qed

lemma no_tag_part:
  assumes "\<not> contains_sub ''tag='' v" and "w \<in> set (split_char d v)"
  shows "strip_prefix ''tag='' (trim w) = None"
proof (rule ccontr)
  assume "strip_prefix ''tag='' (trim w) \<noteq> None"
  then obtain r where "trim w = ''tag='' @ r" using strip_prefix_SomeD by blast
  moreover obtain a b where "w = a @ trim w @ b" using trim_part by blast
  moreover obtain a' b' where "v = a' @ w @ b'" using split_char_infix [OF assms(2)] by blast
  ultimately have "v = (a' @ a) @ ''tag='' @ (r @ b @ b')" by simp
  with assms(1) show False unfolding contains_sub_iff by blast
qed

definition tag_ok :: "string \<Rightarrow> bool" where
  "tag_ok t \<longleftrightarrow> CHR '';'' \<notin> set t \<and> (t = [] \<or> \<not> is_ws (last t))"

lemma trim_tag: "tag_ok t \<Longrightarrow> trim (''tag='' @ t) = ''tag='' @ t"
  by (rule trim_id) (auto simp: trimmed_def tag_ok_def is_ws_def)

lemma extract_tag_append:
  assumes "\<not> contains_sub ''tag='' v" and "tag_ok t"
  shows "extract_tag (v @ '';tag='' @ t) = Some t"
proof -
  have none: "List.map_filter (\<lambda>part. strip_prefix ''tag='' (trim part)) (ws @ [x])
      = List.map_filter (\<lambda>part. strip_prefix ''tag='' (trim part)) [x]"
    if "\<forall>w \<in> set ws. strip_prefix ''tag='' (trim w) = None" for ws x
    using that by (induction ws) (simp_all add: map_filter_simps)
  have "CHR '';'' \<notin> set (''tag='' @ t)" using assms(2) by (simp add: tag_ok_def)
  then have "split_char CHR '';'' (''tag='' @ t) = [''tag='' @ t]" by (rule split_char_single)
  then have "split_char CHR '';'' (v @ '';tag='' @ t) = split_char CHR '';'' v @ [''tag='' @ t]"
    using split_char_join [of "CHR '';''" v "''tag='' @ t"] by simp
  moreover have "\<forall>w \<in> set (split_char CHR '';'' v). strip_prefix ''tag='' (trim w) = None"
    using no_tag_part [OF assms(1)] by blast
  moreover have "strip_prefix ''tag='' (trim (''tag='' @ t)) = Some t"
    by (simp only: trim_tag [OF assms(2)] strip_prefix_append)
  ultimately show ?thesis
    unfolding extract_tag_def by (simp only: none map_filter_simps option.case list.case)
qed

lemma split_char_no_sep: "w \<in> set (split_char d s) \<Longrightarrow> d \<notin> set w"
proof (induction s arbitrary: w)
  case (Cons c s)
  obtain x xs where "split_char d s = x # xs" by (cases "split_char d s") simp_all
  with Cons show ?case by (auto split: if_splits)
qed simp

lemma trim_last: "trim w = [] \<or> \<not> is_ws (last (trim w))"
  using hd_dropWhile [of is_ws "rev (trim_start w)"] by (auto simp: trim_def trim_end_def last_rev)

lemma tag_ok_extract:
  assumes "extract_tag v = Some t"
  shows "tag_ok t"
proof -
  have "t \<in> set (List.map_filter (\<lambda>part. strip_prefix ''tag='' (trim part)) (split_char CHR '';'' v))"
    using assms unfolding extract_tag_def by (simp split: list.splits)
  then obtain w where w: "w \<in> set (split_char CHR '';'' v)" "strip_prefix ''tag='' (trim w) = Some t"
    by (force simp: map_filter_def)
  then have t: "trim w = ''tag='' @ t" by (auto dest: strip_prefix_SomeD)
  obtain a b where "w = a @ trim w @ b" using trim_part by blast
  then have "set t \<subseteq> set w" using t by (metis Un_upper1 Un_upper2 order_trans set_append)
  with split_char_no_sep [OF w(1)] have "CHR '';'' \<notin> set t" by blast
  moreover have "t = [] \<or> \<not> is_ws (last t)" using trim_last [of w] t by auto
  ultimately show ?thesis by (simp add: tag_ok_def)
qed

subsection \<open>Hanging up from the calling end\<close>

lemma get_header_mk_request:
  "get_header (mk_request meth uri hs body) name
     = map_option snd (find (\<lambda>h. eq_ignore_ascii_case (fst h) name) hs)"
proof -
  have "find (\<lambda>h. eq_ignore_ascii_case (hdr_name h) name) (map (\<lambda>(n, v). \<lparr>hdr_name = n, hdr_value = v\<rparr>) hs)
      = map_option (\<lambda>(n, v). \<lparr>hdr_name = n, hdr_value = v\<rparr>) (find (\<lambda>h. eq_ignore_ascii_case (fst h) name) hs)"
    by (induction hs) auto
  then show ?thesis
    by (simp add: get_header_def mk_request_def option.map_comp o_def case_prod_unfold)
qed

lemma get_headers_mk_request:
  "get_headers (mk_request meth uri hs body) name
     = map snd (filter (\<lambda>h. eq_ignore_ascii_case (fst h) name) hs)"
  by (induction hs) (auto simp: get_headers_def mk_request_def)

lemma msg_method_mk_request [simp]: "msg_method (mk_request meth uri hs body) = Some meth"
  by (simp add: msg_method_def mk_request_def)

lemma in_dialog_fields:
  assumes m_def: "m = mk_request meth uri (in_dialog_headers cfg uuid s d cs @ tail) body"
  shows "call_id m = Some (ss_call_id s)" and "cseq m = Some cs"
    and "from_header m = Some (tagged (from_uri cfg s) (dlg_local_tag d))"
    and "to_header m = Some (tagged (dlg_remote_uri d) (dlg_remote_tag d))"
    and "msg_method m = Some meth"
    and "\<forall>h \<in> set tail. known_name (fst h) \<Longrightarrow>
      get_headers m ''Route'' = map snd (filter (\<lambda>h. fst h = ''Route'') tail)"
proof -
  show "get_headers m ''Route'' = map snd (filter (\<lambda>h. fst h = ''Route'') tail)"
    if "\<forall>h \<in> set tail. known_name (fst h)"
  proof -
    have "filter (\<lambda>h. eq_ignore_ascii_case (fst h) ''Route'') tail = filter (\<lambda>h. fst h = ''Route'') tail"
      using that by (intro filter_cong) (simp_all add: known_name_eq)
    then show ?thesis
      by (simp add: m_def get_headers_mk_request in_dialog_headers_def known_name_eq)
  qed
qed (simp_all add: m_def call_id_def cseq_def from_header_def to_header_def get_header_mk_request
    in_dialog_headers_def known_name_eq)

lemma first_word_number: "first_word (show_nat n @ CHR '' '' # s) = Some (show_nat n)"
  using split_whitespace_Cons [OF token_show_nat, of n s] by (simp add: first_word_def)

lemma bracketed_no_tag:
  assumes "\<not> contains_sub ''tag='' u"
  shows "\<not> contains_sub ''tag='' (''<'' @ u @ ''>'')"
proof
  assume "contains_sub ''tag='' (''<'' @ u @ ''>'')"
  then obtain a b where ab: "''<'' @ u @ ''>'' = a @ ''tag='' @ b" by (auto simp: contains_sub_iff)
  then obtain a' where a: "a = CHR ''<'' # a'" by (cases a) auto
  have "b \<noteq> []" using arg_cong [OF ab, of last] by auto
  then obtain b' c where "b = b' @ [c]" by (cases b rule: rev_cases) auto
  with ab a have "u = a' @ ''tag='' @ b'" by simp
  with assms show False by (auto simp: contains_sub_iff)
qed

lemma tagged_tag: "\<not> contains_sub ''tag='' u \<Longrightarrow> tag_ok t \<Longrightarrow> extract_tag (tagged u t) = Some t"
  using extract_tag_append [OF bracketed_no_tag] by (simp add: tagged_def)

lemma extract_uri_bracketed:
  assumes "CHR ''<'' \<notin> set u" and "CHR ''>'' \<notin> set u"
  shows "extract_uri (''<'' @ u @ ''>'' @ rest) = Some u"
  using assms find_char_append_eq [of "CHR ''>''" u rest] by (simp add: extract_uri_def)

subsection \<open>The answer\<close>

definition values_of :: "string \<Rightarrow> sip_header list \<Rightarrow> string list" where
  "values_of name hs = map hdr_value (filter (\<lambda>h. eq_ignore_ascii_case (hdr_name h) name) hs)"

lemma get_headers_values: "get_headers m name = values_of name (msg_headers m)"
  by (simp add: get_headers_def values_of_def)

lemma get_header_values:
  "get_header m name = (case values_of name (msg_headers m) of v # _ \<Rightarrow> Some v | [] \<Rightarrow> None)"
proof -
  have "map_option hdr_value (find P hs) = (case map hdr_value (filter P hs) of v # _ \<Rightarrow> Some v | [] \<Rightarrow> None)"
    for P and hs :: "sip_header list"
    by (induction hs) auto
  then show ?thesis by (simp add: get_header_def values_of_def)
qed

lemma values_of_append [simp]: "values_of name (a @ b) = values_of name a @ values_of name b"
  by (simp add: values_of_def)

lemma values_of_Nil [simp]: "values_of name [] = []"
  by (simp add: values_of_def)

lemma values_of_Cons:
  "known_name name \<Longrightarrow> known_name (hdr_name h) \<Longrightarrow>
     values_of name (h # hs) = (if hdr_name h = name then [hdr_value h] else []) @ values_of name hs"
  by (simp add: values_of_def known_name_eq)

lemma values_of_copied:
  "known_name name \<Longrightarrow> known_name k \<Longrightarrow>
     values_of name (map (\<lambda>v. \<lparr>hdr_name = k, hdr_value = v\<rparr>) vs) = (if k = name then vs else [])"
  by (simp add: values_of_def filter_copied known_name_eq comp_def)

lemma values_of_update:
  assumes "known_name name" and "\<forall>h \<in> set hs. known_name (hdr_name h)"
    and "\<forall>h \<in> set hs. hdr_name (f h) = hdr_name h"
    and "\<forall>h \<in> set hs. hdr_name h = name \<longrightarrow> hdr_value (f h) = g (hdr_value h)"
  shows "values_of name (map f hs) = map g (values_of name hs)"
  using assms by (induction hs) (simp_all add: values_of_Cons)

lemma build_200_ok_fields:
  assumes inv: "ss_invite s = Some invite" "msg_start_line invite = Request r"
    and t: "to_header invite = Some t" "\<not> contains_sub ''tag='' t"
  obtains resp where "build_200_ok cfg s = Some resp" "status_code resp = Some 200"
    "to_header resp = Some (t @ '';tag='' @ ss_local_tag s)"
    "get_headers resp ''Record-Route'' = get_headers invite ''Record-Route''"
proof -
  define base where "base = projr (create_response invite 200 ''OK'')"
  have base: "create_response invite 200 ''OK'' = Inr base" "status_code base = Some 200"
    "\<forall>h \<in> set (msg_headers base). known_name (hdr_name h)"
    "values_of ''To'' (msg_headers base) = get_headers invite ''To''"
    "values_of ''Record-Route'' (msg_headers base) = []"
    using inv(2) by (auto simp: base_def create_response_def is_request_def status_code_def values_of_copied values_of_Cons)
  define hs where "hs = msg_headers base @ dialog_headers (signaling_hostport cfg s) invite"
  have known: "\<forall>h \<in> set hs. known_name (hdr_name h)" using base(3) by (auto simp: hs_def dialog_headers_def)
  have vals: "values_of ''To'' hs = get_headers invite ''To''"
    "values_of ''Record-Route'' hs = get_headers invite ''Record-Route''"
    using base by (simp_all add: hs_def dialog_headers_def values_of_copied values_of_Cons)
  define g where "g = (\<lambda>v. if contains_sub ''tag='' v then v else v @ '';tag='' @ ss_local_tag s)"
  define hs1 where "hs1 = map (add_to_tag (ss_local_tag s)) hs"
  have hs1: "values_of ''To'' hs1 = map g (get_headers invite ''To'')"
    "values_of ''Record-Route'' hs1 = get_headers invite ''Record-Route''"
    using known values_of_update [of "''To''" hs "add_to_tag (ss_local_tag s)" g]
      values_of_update [of "''Record-Route''" hs "add_to_tag (ss_local_tag s)" id]
    by (simp_all add: hs1_def add_to_tag_def g_def vals known_name_eq)
  have known1: "\<forall>h \<in> set hs1. known_name (hdr_name h)" using known by (auto simp: hs1_def add_to_tag_def)
  have len: "values_of k (map (set_content_length n) hs1) = values_of k hs1"
    if "known_name k" "k \<noteq> ''Content-Length''" for k n
    using that known1 values_of_update [of k hs1 "set_content_length n" id]
    by (simp add: set_content_length_def known_name_eq)
  have "get_headers invite ''To'' = t # tl (get_headers invite ''To'')"
    using t(1) by (simp add: to_header_def get_header_values get_headers_values split: list.splits)
  then have to: "to_header m = Some (t @ '';tag='' @ ss_local_tag s)"
    if "values_of ''To'' (msg_headers m) = map g (get_headers invite ''To'')" for m
    using that t(2) by (cases "get_headers invite ''To''") (simp_all add: to_header_def get_header_values g_def)
  show thesis
  proof (cases "ss_local_sdp s")
    case None
    then have "build_200_ok cfg s = Some (base\<lparr>msg_headers := hs1\<rparr>)"
      using inv(1) base(1) by (simp add: build_200_ok_def build_200_ok_with_signaling_hostport_def hs_def hs1_def Let_def)
    then show thesis
      using base(2) hs1 to [of "base\<lparr>msg_headers := hs1\<rparr>"] that
      by (simp add: status_code_def get_headers_values)
  next
    case (Some sdp)
    let ?hs = "map (set_content_length (length (sdp_display sdp))) hs1
      @ [\<lparr>hdr_name = ''Content-Type'', hdr_value = ''application/sdp''\<rparr>]"
    have "build_200_ok cfg s = Some (base\<lparr>msg_headers := ?hs, msg_body := sdp_display sdp\<rparr>)"
      using inv(1) base(1) Some
      by (simp add: build_200_ok_def build_200_ok_with_signaling_hostport_def hs_def hs1_def Let_def)
    moreover have "values_of ''To'' ?hs = map g (get_headers invite ''To'')"
      "values_of ''Record-Route'' ?hs = get_headers invite ''Record-Route''"
      using hs1 len by (simp_all add: values_of_Cons)
    ultimately show thesis
      using base(2) to [of "base\<lparr>msg_headers := ?hs, msg_body := sdp_display sdp\<rparr>"] that
      by (simp add: status_code_def get_headers_values)
  qed
qed

subsection \<open>Hanging up\<close>

lemma answered_dialog:
  assumes "msg_start_line invite = Request r" and "call_id invite = Some cid"
    and "from_header invite = Some f" and "extract_tag f = Some lt"
    and "to_header invite = Some (''<'' @ u @ ''>'')" and "CHR ''<'' \<notin> set u" and "CHR ''>'' \<notin> set u"
    and "\<not> contains_sub ''tag='' u" and "dlg_cseq_number invite = Some n"
    and "ss_invite callee = Some invite" and "tag_ok (ss_local_tag callee)"
    and "ss_invite caller = Some invite" and "ss_dialog caller = None"
  obtains ok d where "build_200_ok cfg callee = Some ok"
    "ss_dialog (session_on_response ok caller) = Some d"
    "dlg_local_tag d = lt" "dlg_remote_tag d = ss_local_tag callee" "dlg_local_seq d = n"
    "dlg_remote_uri d = u" "dlg_state d = DS_Confirmed"
    "dlg_route_set d = rev (get_headers invite ''Record-Route'')"
proof -
  let ?t = "''<'' @ u @ ''>''"
  obtain ok where ok: "build_200_ok cfg callee = Some ok" "status_code ok = Some 200"
    "to_header ok = Some (?t @ '';tag='' @ ss_local_tag callee)"
    "get_headers ok ''Record-Route'' = get_headers invite ''Record-Route''"
    using build_200_ok_fields [OF assms(10,1,5) bracketed_no_tag [OF assms(8)]] by blast
  have tag: "extract_tag (?t @ '';tag='' @ ss_local_tag callee) = Some (ss_local_tag callee)"
    by (rule extract_tag_append [OF bracketed_no_tag [OF assms(8)] assms(11)])
  have uri: "extract_uri (?t @ '';tag='' @ ss_local_tag callee) = Some u"
    using extract_uri_bracketed [OF assms(6,7)] by simp
  have dlg: "ss_dialog (session_on_response ok caller) = from_uac_response invite ok"
    using assms(12,13) ok(2) by (simp add: session_on_response_def Let_def)
  obtain d where d: "from_uac_response invite ok = Some d" "dlg_local_tag d = lt"
    "dlg_remote_tag d = ss_local_tag callee" "dlg_local_seq d = n" "dlg_remote_uri d = u"
    "dlg_state d = DS_Confirmed" "dlg_route_set d = rev (get_headers invite ''Record-Route'')"
    using assms(2,3,4,9) ok tag uri by (simp add: from_uac_response_def Let_def unwrap_or_def)
  with ok(1) dlg that show thesis by simp
qed

definition same_caller :: "sip_session \<Rightarrow> sip_session \<Rightarrow> bool" where
  "same_caller s s' \<longleftrightarrow> ss_call_id s' = ss_call_id s \<and> ss_from_user s' = ss_from_user s
     \<and> ss_from_domain s' = ss_from_domain s \<and> ss_local_addr s' = ss_local_addr s \<and> ss_remote_addr s' = ss_remote_addr s"

lemma same_caller_early_media: "same_caller s (on_early_media m s)"
  by (simp add: on_early_media_def same_caller_def Let_def split: option.split)

lemma session_on_response_caller: "same_caller s (session_on_response m s)"
proof -
  have "same_caller s (on_early_media m (s\<lparr>ss_state := x\<rparr>))" for x
    using same_caller_early_media [of "s\<lparr>ss_state := x\<rparr>" m] by (simp add: same_caller_def)
  then show ?thesis
    by (simp add: session_on_response_def Let_def split: option.split) (simp add: same_caller_def)
qed

lemma session_on_response_frame:
  "ss_call_id (session_on_response m s) = ss_call_id s"
  "from_uri cfg (session_on_response m s) = from_uri cfg s"
  using session_on_response_caller [of s m]
  by (simp_all add: same_caller_def from_uri_def signaling_hostport_def Let_def split: option.split)

lemma u32_less_succ:
  fixes n :: u32
  assumes "n \<noteq> - 1"
  shows "n < n + 1"
proof -
  have "unat (n + 1) = Suc (unat n)"
    using assms by (metis Suc_eq_plus1 add.commute add_eq_0_iff unatSuc)
  then show ?thesis by (simp add: word_less_nat_alt)
qed

lemma no_routes:
  assumes "ss_dialog s = Some d" and "dlg_route_set d = []"
  shows "\<exists>uri. unwrap_or (x, []) (in_dialog_routing s) = (uri, [])"
  using assms by (simp add: in_dialog_routing_def unwrap_or_def Let_def)

lemma bye_accepted_aux:
  assumes "msg_start_line invite = Request r" and "call_id invite = Some (ss_call_id caller)"
    and "from_header invite = Some f" and "extract_tag f = Some lt"
    and "to_header invite = Some (''<'' @ u @ ''>'')" and "CHR ''<'' \<notin> set u" and "CHR ''>'' \<notin> set u"
    and "\<not> contains_sub ''tag='' u" and "dlg_cseq_number invite = Some n" and "n \<noteq> - 1"
    and "get_headers invite ''Record-Route'' = []"
    and "new_inbound uuid_tag uuid_id invite la ra = Some callee" and "tag_ok (take 8 uuid_tag)"
    and "ss_invite caller = Some invite" and "ss_dialog caller = None"
    and "\<not> contains_sub ''tag='' (from_uri cfg caller)"
  shows "\<exists>ok bye caller' d. build_200_ok cfg' (callee\<lparr>ss_local_sdp := sdp\<rparr>) = Some ok
    \<and> build_bye cfg uuid (session_on_response ok caller) = Some (Some bye, caller')
    \<and> ss_state caller' = SS_Terminating
    \<and> ss_dialog callee = Some d \<and> validate_remote_request bye d = (Inr (), d\<lparr>dlg_remote_seq := Some (n + 1)\<rparr>)"
proof -
  have callee: "ss_invite callee = Some invite" "ss_local_tag callee = take 8 uuid_tag"
    "ss_dialog callee = from_uas_request invite (take 8 uuid_tag)"
    using assms(2,12) by (auto simp: new_inbound_def Let_def)
  obtain ok d where ok: "build_200_ok cfg' (callee\<lparr>ss_local_sdp := sdp\<rparr>) = Some ok"
    "ss_dialog (session_on_response ok caller) = Some d"
    "dlg_local_tag d = lt" "dlg_remote_tag d = take 8 uuid_tag" "dlg_local_seq d = n" "dlg_remote_uri d = u"
    "dlg_route_set d = []"
    using answered_dialog [OF assms(1-9), of "callee\<lparr>ss_local_sdp := sdp\<rparr>" caller cfg'] callee assms(11,13-15)
    by simp blast
  define s where "s = session_on_response ok caller"
  define d' where "d' = d\<lparr>dlg_local_seq := n + 1\<rparr>"
  obtain uri where uri: "unwrap_or (''sip:'' @ show_socket_addr (ss_remote_addr s), []) (in_dialog_routing s) = (uri, [])"
    using no_routes [OF ok(2,7)] by (auto simp: s_def)
  define bye where "bye = mk_request Bye (parse_uri_or (fallback_uri s) uri)
    (in_dialog_headers cfg uuid s d' (show_nat (unat (n + 1)) @ '' BYE'') @ [(''Content-Length'', ''0'')]) []"
  have built: "build_bye cfg uuid s = Some (Some bye, s\<lparr>ss_dialog := Some d', ss_state := SS_Terminating\<rparr>)"
    using uri ok(2,5) assms(10)
    by (simp add: build_bye_def next_cseq_def Let_def s_def bye_def d'_def route_headers_def)
  have fields: "call_id bye = call_id invite" "Option.bind (from_header bye) extract_tag = Some lt"
    "Option.bind (to_header bye) extract_tag = Some (take 8 uuid_tag)" "msg_method bye = Some Bye"
    "get_headers bye ''Route'' = []"
    using in_dialog_fields [OF bye_def] ok(3,4,6) assms(2,8,13,16) tag_ok_extract [OF assms(4)]
    by (simp_all add: session_on_response_frame s_def d'_def tagged_tag)
  have number: "dlg_cseq_number bye = Some (n + 1)"
    using in_dialog_fields(2) [OF bye_def] parse_u32_show [of "n + 1"] by (simp add: dlg_cseq_number_def first_word_number)
  obtain e where e: "ss_dialog callee = Some e" "dlg_call_id e = ss_call_id caller" "dlg_local_tag e = take 8 uuid_tag"
    "dlg_remote_tag e = lt" "dlg_remote_seq e = Some n"
    using callee(3) assms(2-4,9) by (simp add: from_uas_request_def unwrap_or_def)
  have "n < n + 1" by (rule u32_less_succ [OF assms(10)])
  then have "validate_remote_request bye e = (Inr (), e\<lparr>dlg_remote_seq := Some (n + 1)\<rparr>)"
    using fields number e assms(2)
    by (simp add: validate_remote_request_def request_identity_error_def normalized_headers_def accept_cseq_def)
  with ok(1) built e(1) show ?thesis by (auto simp: s_def)
qed

lemma build_invite_fields:
  assumes "build_invite_with_uri cfg uuid ruri u s = (invite, s')"
  shows "\<exists>r. msg_start_line invite = Request r" and "call_id invite = Some (ss_call_id s)"
    and "from_header invite = Some (tagged (from_uri cfg s) (ss_local_tag s))"
    and "to_header invite = Some (''<'' @ u @ ''>'')" and "cseq invite = Some ''1 INVITE''"
    and "get_headers invite ''Record-Route'' = []" and "s' = s\<lparr>ss_invite := Some invite\<rparr>"
proof -
  let ?body = "case ss_local_sdp s of Some sdp \<Rightarrow> sdp_display sdp | None \<Rightarrow> []"
  define tail where "tail = (if ?body \<noteq> [] then [(''Content-Type'', ''application/sdp'')] else [])
    @ [(''Content-Length'', show_nat (length ?body))]"
  have "eq_ignore_ascii_case (fst h) ''Record-Route'' = False" if "h \<in> set tail" for h
    using that by (auto simp: tail_def known_name_eq split: if_splits)
  then have tail: "filter (\<lambda>h. eq_ignore_ascii_case (fst h) ''Record-Route'') tail = []"
    by (simp add: filter_empty_conv)
  let ?m = "mk_request Invite (parse_uri_or (fallback_uri s) ruri)
      ([(''Via'', via_value (signaling_hostport cfg s) uuid), (''Max-Forwards'', ''70''),
        (''From'', tagged (from_uri cfg s) (ss_local_tag s)), (''To'', ''<'' @ u @ ''>''),
        (''Call-ID'', ss_call_id s), (''CSeq'', ''1 INVITE''),
        (''Contact'', ''<sip:asterisk@'' @ signaling_hostport cfg s @ ''>''), (''User-Agent'', ''Rustisk/0.1.0''),
        (''Allow'', ''INVITE, ACK, CANCEL, BYE, OPTIONS, REFER, NOTIFY'')] @ tail) ?body"
  have eq: "(?m, s\<lparr>ss_invite := Some ?m\<rparr>) = (invite, s')"
    using assms unfolding build_invite_with_uri_def Let_def tail_def by assumption
  have inv: "invite = ?m" by (rule arg_cong [OF eq, of fst, unfolded fst_conv, symmetric])
  have s': "s' = s\<lparr>ss_invite := Some invite\<rparr>"
    unfolding inv by (rule arg_cong [OF eq, of snd, unfolded snd_conv, symmetric])
  show "s' = s\<lparr>ss_invite := Some invite\<rparr>" by (rule s')
  show "\<exists>r. msg_start_line invite = Request r" unfolding inv mk_request_def by simp
  show "call_id invite = Some (ss_call_id s)"
    "from_header invite = Some (tagged (from_uri cfg s) (ss_local_tag s))"
    "to_header invite = Some (''<'' @ u @ ''>'')" "cseq invite = Some ''1 INVITE''"
    by (simp_all add: inv call_id_def from_header_def to_header_def cseq_def get_header_mk_request known_name_eq)
  show "get_headers invite ''Record-Route'' = []"
    using tail by (simp add: inv get_headers_mk_request known_name_eq)
qed

lemma from_uri_invite [simp]: "from_uri cfg (s\<lparr>ss_invite := x\<rparr>) = from_uri cfg s"
  by (simp add: from_uri_def signaling_hostport_def Let_def split: option.split)

text \<open>
  (C3) Two sessions that set up a call understand each other to its end. The caller builds an INVITE,
  the callee makes a session of it and answers 200 with any session description, and the caller takes
  in that answer: the BYE that the caller then builds belongs to the callee's dialog. Its Call-ID, both
  tags and its sequence number (2, one above the INVITE's) pass the callee's validation, and the caller
  is terminating. The caller's URI and the called URI are plain: no angle brackets and no text
  \<open>tag=\<close> in them.
\<close>
theorem bye_accepted_by_callee:
  assumes "build_invite_with_uri cfg uuid1 ruri u s = (invite, caller)"
    and "ss_dialog s = None" and "tag_ok (ss_local_tag s)" and "\<not> contains_sub ''tag='' (from_uri cfg s)"
    and "CHR ''<'' \<notin> set u" and "CHR ''>'' \<notin> set u" and "\<not> contains_sub ''tag='' u"
    and "new_inbound uuid_tag uuid_id invite la ra = Some callee" and "tag_ok (take 8 uuid_tag)"
  shows "\<exists>ok bye caller' d. build_200_ok cfg' (callee\<lparr>ss_local_sdp := sdp\<rparr>) = Some ok
    \<and> build_bye cfg uuid' (session_on_response ok caller) = Some (Some bye, caller')
    \<and> ss_state caller' = SS_Terminating
    \<and> ss_dialog callee = Some d \<and> validate_remote_request bye d = (Inr (), d\<lparr>dlg_remote_seq := Some 2\<rparr>)"
proof -
  note f = build_invite_fields [OF assms(1)]
  obtain r where r: "msg_start_line invite = Request r" using f(1) by blast
  have "first_word ''1 INVITE'' = Some ''1''" by code_simp
  moreover have "show_nat 1 = ''1''" by code_simp
  then have "parse_u32 ''1'' = Some 1" using parse_u32_show [of 1] by simp
  ultimately have n: "dlg_cseq_number invite = Some 1" by (simp add: dlg_cseq_number_def f(5))
  have caller: "call_id invite = Some (ss_call_id caller)" "ss_invite caller = Some invite"
    "ss_dialog caller = None" "\<not> contains_sub ''tag='' (from_uri cfg caller)"
    using f(2,7) assms(2,4) by simp_all
  have tag: "extract_tag (tagged (from_uri cfg s) (ss_local_tag s)) = Some (ss_local_tag s)"
    by (rule tagged_tag [OF assms(4,3)])
  show ?thesis
    using bye_accepted_aux [OF r caller(1) f(3) tag f(4) assms(5-7) n _ f(6) assms(8,9) caller(2-4)]
    by simp
qed

definition sample_caller :: sip_session where
  "sample_caller = (new_outbound ''id-1'' ''call-1'' ''9f86d081-884c'' (''10.0.0.1'', 5060) (''10.0.0.2'', 5060))
     \<lparr>ss_from_user := Some ''alice'', ss_from_domain := Some ''example.org''\<rparr>"

theorem bye_accepted_by_callee_witness:
  "\<exists>invite caller callee ok bye caller' d.
     build_invite_with_uri None ''1b4f-0e98'' ''sip:bob@10.0.0.2'' ''sip:bob@10.0.0.2'' sample_caller = (invite, caller)
     \<and> new_inbound ''60303ae2-2b99'' ''id-2'' invite (''10.0.0.2'', 5060) (''10.0.0.1'', 5060) = Some callee
     \<and> build_200_ok None (callee\<lparr>ss_local_sdp := None\<rparr>) = Some ok
     \<and> build_bye None ''fd61a03a-f4f7'' (session_on_response ok caller) = Some (Some bye, caller')
     \<and> ss_dialog callee = Some d \<and> validate_remote_request bye d = (Inr (), d\<lparr>dlg_remote_seq := Some 2\<rparr>)"
proof -
  obtain invite caller where b: "build_invite_with_uri None ''1b4f-0e98'' ''sip:bob@10.0.0.2'' ''sip:bob@10.0.0.2''
      sample_caller = (invite, caller)" by (metis surj_pair)
  obtain callee where c: "new_inbound ''60303ae2-2b99'' ''id-2'' invite (''10.0.0.2'', 5060) (''10.0.0.1'', 5060) = Some callee"
    using build_invite_fields(2) [OF b] by (simp add: new_inbound_def Let_def)
  have "ss_dialog sample_caller = None" "ss_local_tag sample_caller = ''9f86d081''"
    by (simp_all add: sample_caller_def new_outbound_def)
  moreover have "from_uri None sample_caller = ''sip:alice@example.org''"
    by (simp add: sample_caller_def new_outbound_def from_uri_def unwrap_or_def)
  moreover have "tag_ok ''9f86d081''" "tag_ok (take 8 ''60303ae2-2b99'')"
    "\<not> contains_sub ''tag='' ''sip:bob@10.0.0.2''" "\<not> contains_sub ''tag='' ''sip:alice@example.org''"
    by code_simp+
  ultimately show ?thesis
    using bye_accepted_by_callee [OF b _ _ _ _ _ _ c, where cfg' = None and sdp = None and uuid' = "''fd61a03a-f4f7''"] b c
    by simp blast
qed

end
