(* ===== verification/Config_File.thy ===== *)
theory Config_File
  imports Rust_Prelude "HOL-Library.Sublist"
begin

section \<open>Configuration files\<close>

text \<open>
  The reader of \<^verbatim>\<open>crates/asterisk-config/src/lib.rs\<close>: categories with their variables,
  templates, comments and \<^verbatim>\<open>#include\<close>. The file system is an argument, the content of the
  file at a path or \<^const>\<open>None\<close> when it cannot be read; paths are those of Unix.
  \<^verbatim>\<open>to_lowercase\<close> is modelled on ASCII, where category names live.
\<close>

subsection \<open>Paths and strings\<close>

text \<open>
  \<^verbatim>\<open>Path\<close>: \<open>path_trim\<close> works on a reversed path and drops the trailing separators and
  \<^verbatim>\<open>.\<close> components, which \<^verbatim>\<open>Path::parent\<close> ignores.
\<close>

definition is_absolute :: "string \<Rightarrow> bool" where
  "is_absolute p \<longleftrightarrow> starts_with ''/'' p"

definition path_join :: "string \<Rightarrow> string \<Rightarrow> string" where
  "path_join base p =
     (if is_absolute p then p
      else if base = [] then p
      else if last base = CHR ''/'' then base @ p else base @ ''/'' @ p)"

fun path_trim :: "string \<Rightarrow> string" where
  "path_trim r =
     (case r of
        c # r' \<Rightarrow>
          if c = CHR ''/'' \<and> r' \<noteq> [] then path_trim r'
          else if c = CHR ''.'' \<and> r' \<noteq> [] \<and> hd r' = CHR ''/'' then path_trim r'
          else r
      | [] \<Rightarrow> [])"

declare path_trim.simps [simp del]

definition path_parent :: "string \<Rightarrow> string option" where
  "path_parent p =
     (let r = path_trim (rev p)
      in if r = [] \<or> r = ''/'' then None
         else Some (rev (path_trim (dropWhile (\<lambda>c. c \<noteq> CHR ''/'') r))))"

definition trim_matches :: "char \<Rightarrow> string \<Rightarrow> string" where
  "trim_matches c s = trim_end_matches c (dropWhile (\<lambda>x. x = c) s)"

definition to_lowercase :: "string \<Rightarrow> string" where
  "to_lowercase s = to_ascii_lowercase s"

fun unescape_semicolons :: "string \<Rightarrow> string" where
  "unescape_semicolons (a # b # s) =
     (if a = CHR 0x5C \<and> b = CHR '';'' then CHR '';'' # unescape_semicolons s
      else a # unescape_semicolons (b # s))"
| "unescape_semicolons s = s"

subsection \<open>Categories and variables\<close>

datatype config_error =
    FileRead string
  | ParseError string nat string
  | IncludeNotFound string

record variable =
  cv_name :: string
  cv_value :: string
  cv_file :: string
  cv_lineno :: nat
  cv_is_object :: bool
  cv_inherited :: bool

record category =
  ct_name :: string
  ct_is_template :: bool
  ct_variables :: "variable list"
  ct_template_name :: "string option"
  ct_file :: string
  ct_lineno :: nat

definition category_get_variable :: "category \<Rightarrow> string \<Rightarrow> string option" where
  "category_get_variable c name =
     map_option cv_value (find (\<lambda>v. eq_ignore_ascii_case (cv_name v) name) (ct_variables c))"

definition get_all_variables :: "category \<Rightarrow> string \<Rightarrow> string list" where
  "get_all_variables c name =
     map cv_value (filter (\<lambda>v. eq_ignore_ascii_case (cv_name v) name) (ct_variables c))"

fun first_seen :: "string list \<Rightarrow> string list \<Rightarrow> string list" where
  "first_seen seen [] = []"
| "first_seen seen (n # ns) =
     (if to_lowercase n \<in> set seen then first_seen seen ns
      else n # first_seen (to_lowercase n # seen) ns)"

definition variable_names :: "category \<Rightarrow> string list" where
  "variable_names c = first_seen [] (map cv_name (ct_variables c))"

record asterisk_config =
  ac_filename :: string
  ac_categories :: "category list"
  ac_category_index :: "(string, nat list) hashmap"

definition rebuild_index :: "asterisk_config \<Rightarrow> asterisk_config" where
  "rebuild_index cfg =
     cfg\<lparr>ac_category_index :=
       fold (\<lambda>(idx, cat) m. let k = to_lowercase (ct_name cat)
                            in hinsert k ((case hget m k of Some is \<Rightarrow> is | None \<Rightarrow> []) @ [idx]) m)
         (enumerate 0 (ac_categories cfg)) []\<rparr>"

definition get_categories_by_name :: "asterisk_config \<Rightarrow> string \<Rightarrow> category list" where
  "get_categories_by_name cfg name =
     (case hget (ac_category_index cfg) (to_lowercase name) of
        Some is \<Rightarrow> map (\<lambda>i. ac_categories cfg ! i) is
      | None \<Rightarrow> [])"

definition get_category :: "asterisk_config \<Rightarrow> string \<Rightarrow> category option" where
  "get_category cfg name =
     (case hget (ac_category_index cfg) (to_lowercase name) of
        Some (i # _) \<Rightarrow> Some (ac_categories cfg ! i)
      | _ \<Rightarrow> None)"

definition category_names :: "asterisk_config \<Rightarrow> string list" where
  "category_names cfg = first_seen [] (map ct_name (ac_categories cfg))"

definition config_get_variable :: "asterisk_config \<Rightarrow> string \<Rightarrow> string \<Rightarrow> string option" where
  "config_get_variable cfg category variable =
     (case get_category cfg category of Some c \<Rightarrow> category_get_variable c variable | None \<Rightarrow> None)"

definition template_table :: "category list \<Rightarrow> (string, variable list) hashmap" where
  "template_table cats =
     fold (\<lambda>c m. hinsert (to_lowercase (ct_name c)) (ct_variables c) m) (filter ct_is_template cats) []"

definition inherit_from :: "(string, variable list) hashmap \<Rightarrow> category \<Rightarrow> category" where
  "inherit_from templates c =
     (case ct_template_name c of
        Some t \<Rightarrow> (case hget templates (to_lowercase t) of
            Some vs \<Rightarrow> c\<lparr>ct_variables := map (\<lambda>v. v\<lparr>cv_inherited := True\<rparr>) vs @ ct_variables c\<rparr>
          | None \<Rightarrow> c)
      | None \<Rightarrow> c)"

definition apply_templates :: "asterisk_config \<Rightarrow> asterisk_config" where
  "apply_templates cfg =
     cfg\<lparr>ac_categories := map (inherit_from (template_table (ac_categories cfg))) (ac_categories cfg)\<rparr>"

subsection \<open>One line\<close>

fun strip_comment_from :: "bool \<Rightarrow> bool \<Rightarrow> string \<Rightarrow> string" where
  "strip_comment_from in_quotes escaped [] = []"
| "strip_comment_from in_quotes escaped (ch # s) =
     (if ch = CHR 0x22 then ch # strip_comment_from (\<not> in_quotes) False s
      else if ch = CHR '';'' \<and> \<not> in_quotes \<and> \<not> escaped then []
      else ch # strip_comment_from in_quotes (ch = CHR 0x5C) s)"

definition strip_inline_comment :: "string \<Rightarrow> string" where
  "strip_inline_comment line = strip_comment_from False False line"

definition category_modifier :: "string \<Rightarrow> bool \<times> string option" where
  "category_modifier modifier =
     (if modifier = ''!'' then (True, None)
      else if modifier = [] then (False, None)
      else let parts = map trim (split_char CHR '','' modifier);
               first_template = hd parts
           in (first_template = ''!'' \<or> ''!'' \<in> set parts,
               if first_template = ''!'' then None else Some first_template))"

definition parse_category_header :: "string \<Rightarrow> string \<Rightarrow> nat \<Rightarrow> config_error + string \<times> bool \<times> string option" where
  "parse_category_header line0 filename lineno =
     (let line = trim line0 in
      case find_char CHR '']'' line of
        None \<Rightarrow> Inl (ParseError filename lineno (''missing closing '' @ [CHR 0x27, CHR '']'', CHR 0x27]
                    @ '' in category header: '' @ line))
      | Some close_bracket \<Rightarrow>
          (let name = trim (drop 1 (take close_bracket line));
               after_bracket = trim (drop (close_bracket + 1) line)
           in if name = [] then Inl (ParseError filename lineno ''empty category name'')
              else case strip_prefix ''('' after_bracket of
                None \<Rightarrow> Inr (name, False, None)
              | Some rest \<Rightarrow>
                  (case find_char CHR '')'' rest of
                     None \<Rightarrow> Inl (ParseError filename lineno
                       (''missing closing '' @ [CHR 0x27, CHR '')'', CHR 0x27] @ '' in category modifier''))
                   | Some close_paren \<Rightarrow> Inr (name, category_modifier (trim (take close_paren rest))))))"

definition parse_variable :: "string \<Rightarrow> string \<Rightarrow> nat \<Rightarrow> config_error + string \<times> string \<times> bool" where
  "parse_variable line filename lineno =
     (let assign = (\<lambda>pos width is_object.
            let name = trim (take pos line);
                val = unescape_semicolons (trim (drop (pos + width) line))
            in if name = [] then Inl (ParseError filename lineno ''empty variable name'')
               else Inr (name, val, is_object))
      in case find_sub ''=>'' line of
           Some pos \<Rightarrow> assign pos 2 True
         | None \<Rightarrow> (case find_char CHR ''='' line of
             Some pos \<Rightarrow> assign pos 1 False
           | None \<Rightarrow> Inl (ParseError filename lineno
               (''could not parse line as variable assignment: '' @ line))))"

definition include_target :: "string \<Rightarrow> string \<Rightarrow> nat \<Rightarrow> config_error + string" where
  "include_target line filename lineno =
     (let include_path = trim_matches CHR ''>'' (trim_matches CHR ''<'' (trim_matches CHR 0x22
            (trim (drop (length ''#include'') line))))
      in if include_path = [] then Inl (ParseError filename lineno ''empty #include path'')
         else if contains_sub ''..'' include_path
         then Inl (ParseError filename lineno (''#include path contains '' @ [CHR 0x27] @ ''..''
                @ [CHR 0x27] @ '': '' @ include_path))
         else if is_absolute include_path
         then Inl (ParseError filename lineno
                (''#include with absolute path rejected for security: '' @ include_path))
         else Inr include_path)"

subsection \<open>The parser\<close>

type_synonym file_system = "string \<Rightarrow> string option"
type_synonym include_parser = "string \<Rightarrow> string \<Rightarrow> string \<Rightarrow> category list \<Rightarrow> config_error + category list"
type_synonym line_state = "category option \<times> category list"

definition flush_category :: "line_state \<Rightarrow> category list" where
  "flush_category st = (case st of (Some c, cats) \<Rightarrow> cats @ [c] | (None, cats) \<Rightarrow> cats)"

definition do_include ::
  "include_parser \<Rightarrow> file_system \<Rightarrow> string \<Rightarrow> string \<Rightarrow> nat \<Rightarrow> string \<Rightarrow> category list \<Rightarrow> config_error + category list" where
  "do_include inc fs filename base lineno line cats =
     (case include_target line filename lineno of
        Inl e \<Rightarrow> Inl e
      | Inr include_path \<Rightarrow>
          (let full_path = path_join base include_path
           in case fs full_path of
                None \<Rightarrow> Inl (IncludeNotFound full_path)
              | Some content \<Rightarrow>
                  inc content full_path
                    (case path_parent full_path of Some d \<Rightarrow> d | None \<Rightarrow> base) cats))"

definition parse_config_line ::
  "include_parser \<Rightarrow> file_system \<Rightarrow> string \<Rightarrow> string \<Rightarrow> nat \<Rightarrow> string \<Rightarrow> line_state \<Rightarrow> config_error + line_state" where
  "parse_config_line inc fs filename base lineno raw_line st =
     (let line0 = trim raw_line; line = trim (strip_inline_comment line0)
      in if line0 = [] \<or> starts_with '';'' line0 \<or> starts_with ''//'' line0 \<or> line = [] then Inr st
         else if starts_with ''#include'' line
         then map_sum id (Pair None) (do_include inc fs filename base lineno line (flush_category st))
         else if starts_with ''#exec'' line then Inr st
         else if starts_with ''['' line
         then (case parse_category_header line filename lineno of
                 Inl e \<Rightarrow> Inl e
               | Inr (name, is_template, template_name) \<Rightarrow>
                   Inr (Some \<lparr>ct_name = name, ct_is_template = is_template, ct_variables = [],
                          ct_template_name = template_name, ct_file = filename, ct_lineno = lineno\<rparr>,
                        flush_category st))
         else case st of
                (None, cats) \<Rightarrow> Inr st
              | (Some c, cats) \<Rightarrow>
                  (case parse_variable line filename lineno of
                     Inl e \<Rightarrow> Inl e
                   | Inr (name, val, is_object) \<Rightarrow>
                       Inr (Some (c\<lparr>ct_variables := ct_variables c @
                              [\<lparr>cv_name = name, cv_value = val, cv_file = filename, cv_lineno = lineno,
                                cv_is_object = is_object, cv_inherited = False\<rparr>]\<rparr>), cats)))"

fun parse_config_lines ::
  "include_parser \<Rightarrow> file_system \<Rightarrow> string \<Rightarrow> string \<Rightarrow> nat \<Rightarrow> string list \<Rightarrow> line_state \<Rightarrow> config_error + category list" where
  "parse_config_lines inc fs filename base lineno [] st = Inr (flush_category st)"
| "parse_config_lines inc fs filename base lineno (l # ls) st =
     (case parse_config_line inc fs filename base lineno l st of
        Inl e \<Rightarrow> Inl e
      | Inr st' \<Rightarrow> parse_config_lines inc fs filename base (Suc lineno) ls st')"

definition MAX_INCLUDE_DEPTH :: nat where
  "MAX_INCLUDE_DEPTH = 16"

function parse_content_inner :: "file_system \<Rightarrow> nat \<Rightarrow> include_parser" where
  "parse_content_inner fs depth =
     (\<lambda>content filename base cats.
        if MAX_INCLUDE_DEPTH < depth
        then Inl (ParseError filename 0
               (''#include depth exceeds maximum ('' @ show_nat MAX_INCLUDE_DEPTH @ '') -- possible cycle''))
        else parse_config_lines (parse_content_inner fs (Suc depth)) fs filename base 1
               (str_lines content) (None, cats))"
  by pat_completeness auto
termination
  by (relation "measure (\<lambda>(_, depth). Suc MAX_INCLUDE_DEPTH - depth)") auto

declare parse_content_inner.simps [simp del]

definition config_of_content :: "file_system \<Rightarrow> string \<Rightarrow> string \<Rightarrow> string \<Rightarrow> config_error + asterisk_config" where
  "config_of_content fs content filename base =
     (case parse_content_inner fs 0 content filename base [] of
        Inl e \<Rightarrow> Inl e
      | Inr cats \<Rightarrow> Inr (apply_templates (rebuild_index
          \<lparr>ac_filename = filename, ac_categories = cats, ac_category_index = []\<rparr>)))"

definition config_load :: "file_system \<Rightarrow> string \<Rightarrow> config_error + asterisk_config" where
  "config_load fs path =
     (case fs path of
        None \<Rightarrow> Inl (FileRead path)
      | Some content \<Rightarrow>
          config_of_content fs content path (case path_parent path of Some d \<Rightarrow> d | None \<Rightarrow> ''.''))"

definition config_from_str :: "file_system \<Rightarrow> string \<Rightarrow> string \<Rightarrow> config_error + asterisk_config" where
  "config_from_str fs content filename = config_of_content fs content filename ''.''"

subsection \<open>The index\<close>

text \<open>The index lists, for each lowercased name, the positions of its categories in order.\<close>

lemma fold_index:
  "(case hget (fold (\<lambda>(idx, cat) m. let k = to_lowercase (ct_name cat)
       in hinsert k ((case hget m k of Some is \<Rightarrow> is | None \<Rightarrow> []) @ [idx]) m) ics m) k of
      Some is \<Rightarrow> is | None \<Rightarrow> []) =
   (case hget m k of Some is \<Rightarrow> is | None \<Rightarrow> []) @
     map fst (filter (\<lambda>(_, c). to_lowercase (ct_name c) = k) ics)"
  by (induction ics arbitrary: m) (auto simp: Let_def split: option.splits)

lemma index_of_categories:
  assumes "is = (case hget (ac_category_index (rebuild_index cfg)) k of Some is \<Rightarrow> is | None \<Rightarrow> [])"
  shows "map ((!) (ac_categories cfg)) is = filter (\<lambda>c. to_lowercase (ct_name c) = k) (ac_categories cfg)"
proof -
  let ?cs = "ac_categories cfg"
  have "is = map fst (filter (\<lambda>(_, c). to_lowercase (ct_name c) = k) (enumerate 0 ?cs))"
    using assms fold_index [where k = k and ics = "enumerate 0 ?cs" and m = "[]"] by (simp add: rebuild_index_def)
  moreover have "map ((!) (pre @ cs)) (map fst (filter (\<lambda>(_, c). to_lowercase (ct_name c) = k)
      (enumerate (length pre) cs))) = filter (\<lambda>c. to_lowercase (ct_name c) = k) cs" for pre cs
  proof (induction cs arbitrary: pre)
    case (Cons c cs)
    then show ?case using Cons.IH [of "pre @ [c]"] by simp
  qed simp
  ultimately show ?thesis by (metis append_Nil list.size(3))
qed

lemma ct_name_inherit_from [simp]: "ct_name (inherit_from t c) = ct_name c"
  by (simp add: inherit_from_def split: option.split)

lemma filter_inherit_from:
  "filter (\<lambda>c. to_lowercase (ct_name c) = k) (map (inherit_from t) cs) =
   map (inherit_from t) (filter (\<lambda>c. to_lowercase (ct_name c) = k) cs)"
  by (simp add: filter_map comp_def)

lemma config_of_contentD:
  assumes "config_of_content fs content filename base = Inr cfg"
  obtains cats where "parse_content_inner fs 0 content filename base [] = Inr cats"
    "cfg = apply_templates (rebuild_index
       \<lparr>ac_filename = filename, ac_categories = cats, ac_category_index = []\<rparr>)"
  using assms by (auto simp: config_of_content_def split: sum.splits)

lemma categories_by_name_aux:
  assumes "config_of_content fs content filename base = Inr cfg"
  shows "get_categories_by_name cfg n = filter (\<lambda>c. eq_ignore_ascii_case (ct_name c) n) (ac_categories cfg)"
proof -
  obtain cats where cfg: "cfg = apply_templates (rebuild_index
       \<lparr>ac_filename = filename, ac_categories = cats, ac_category_index = []\<rparr>)"
    using assms by (rule config_of_contentD)
  let ?c0 = "\<lparr>ac_filename = filename, ac_categories = cats, ac_category_index = []\<rparr>"
  let ?t = "template_table cats" and ?k = "to_lowercase n"
  define ixs where "ixs = (case hget (ac_category_index (rebuild_index ?c0)) ?k of Some is \<Rightarrow> is | None \<Rightarrow> [])"
  have cats: "ac_categories cfg = map (inherit_from ?t) cats"
    and idx: "ac_category_index cfg = ac_category_index (rebuild_index ?c0)"
    by (simp_all add: cfg apply_templates_def rebuild_index_def)
  have len: "\<forall>i \<in> set ixs. i < length cats"
    using fold_index [where k = ?k and ics = "enumerate 0 cats" and m = "[]"]
    by (auto simp: ixs_def rebuild_index_def in_set_enumerate_eq)
  have "map ((!) cats) ixs = filter (\<lambda>c. to_lowercase (ct_name c) = ?k) cats"
    using index_of_categories [OF ixs_def] by simp
  then have "map (inherit_from ?t) (map ((!) cats) ixs) =
      filter (\<lambda>c. to_lowercase (ct_name c) = ?k) (map (inherit_from ?t) cats)"
    by (simp add: filter_inherit_from)
  moreover have "get_categories_by_name cfg n = map (\<lambda>i. ac_categories cfg ! i) ixs"
    by (simp add: get_categories_by_name_def idx ixs_def split: option.split)
  moreover have "map (\<lambda>i. ac_categories cfg ! i) ixs = map (inherit_from ?t) (map ((!) cats) ixs)"
    using len by (simp add: cats)
  ultimately show ?thesis
    by (simp add: cats eq_ignore_ascii_case_def to_lowercase_def to_ascii_lowercase_def)
qed

lemma get_category_first:
  "get_category cfg n = (case get_categories_by_name cfg n of c # _ \<Rightarrow> Some c | [] \<Rightarrow> None)"
  by (simp add: get_category_def get_categories_by_name_def split: option.split list.split)

lemma find_filter: "find P xs = (case filter P xs of x # _ \<Rightarrow> Some x | [] \<Rightarrow> None)"
  by (induction xs) simp_all

lemma get_category_aux:
  "config_of_content fs content filename base = Inr cfg \<Longrightarrow>
   get_category cfg n = find (\<lambda>c. eq_ignore_ascii_case (ct_name c) n) (ac_categories cfg)"
  by (simp add: get_category_first categories_by_name_aux find_filter)

subsection \<open>Includes stay below the directory\<close>

text \<open>
  A path is below a directory when it is the join of the directory with a relative path that has no
  \<^verbatim>\<open>..\<close>. The operating system opens no file at a path with a trailing separator or
  \<^verbatim>\<open>.\<close> component, which is what \<open>file_path\<close> excludes.
\<close>

definition file_path :: "string \<Rightarrow> bool" where
  "file_path p \<longleftrightarrow> path_trim (rev p) = rev p"

definition rel_ok :: "string \<Rightarrow> bool" where
  "rel_ok rel \<longleftrightarrow> rel \<noteq> [] \<and> \<not> is_absolute rel \<and> \<not> contains_sub ''..'' rel"

definition below :: "string \<Rightarrow> string \<Rightarrow> bool" where
  "below dir p \<longleftrightarrow> (\<exists>rel. rel_ok rel \<and> p = path_join dir rel)"

lemma include_target_ok: "include_target line filename lineno = Inr p \<Longrightarrow> rel_ok p"
  by (auto simp: include_target_def rel_ok_def Let_def split: if_splits)

lemma dots_append:
  "a \<noteq> [] \<Longrightarrow> last a = CHR ''/'' \<Longrightarrow>
   contains_sub ''..'' (a @ b) \<longleftrightarrow> contains_sub ''..'' a \<or> contains_sub ''..'' b"
proof (induction a)
  case (Cons c a)
  then show ?case
    by (cases a) (auto simp: contains_sub_def starts_with_def)
qed simp

lemma not_dots_prefix: "\<not> contains_sub ''..'' (a @ b) \<Longrightarrow> \<not> contains_sub ''..'' a"
  by (induction a) (auto simp: contains_sub_def starts_with_def take_Cons' split: if_splits)

lemma rel_ok_prefix: "rel_ok (a @ b) \<Longrightarrow> a \<noteq> [] \<Longrightarrow> rel_ok a"
  using not_dots_prefix [of a b] by (auto simp: rel_ok_def is_absolute_def starts_with_def take_Cons' split: if_splits)

lemma path_trim_Nil [simp]: "path_trim [] = []"
  by (simp add: path_trim.simps)

lemma path_trim_Cons:
  "path_trim (c # r) =
     (if r \<noteq> [] \<and> (c = CHR ''/'' \<or> c = CHR ''.'' \<and> hd r = CHR ''/'') then path_trim r else c # r)"
  by (auto simp: path_trim.simps [of "c # r"])

lemma path_trim_suffix: "suffix (path_trim r) r"
  by (induction r) (auto simp: path_trim_Cons suffix_Cons)

lemma path_trim_idem [simp]: "path_trim (path_trim r) = path_trim r"
  by (induction r) (auto simp: path_trim_Cons)

lemma path_trim_append:
  "path_trim (x @ CHR ''/'' # r) = path_trim (CHR ''/'' # r) \<or>
   (\<exists>x'. x' \<noteq> [] \<and> suffix x' x \<and> path_trim (x @ CHR ''/'' # r) = x' @ CHR ''/'' # r)"
proof (induction x)
  case (Cons c x)
  show ?case
  proof (cases "c = CHR ''/'' \<or> c = CHR ''.'' \<and> hd (x @ CHR ''/'' # r) = CHR ''/''")
    case True
    then have "path_trim ((c # x) @ CHR ''/'' # r) = path_trim (x @ CHR ''/'' # r)"
      by (auto simp: path_trim_Cons)
    then show ?thesis
      unfolding \<open>path_trim ((c # x) @ CHR ''/'' # r) = _\<close>
      using Cons.IH by (blast intro: suffix_ConsI)
  next
    case False
    then have "path_trim ((c # x) @ CHR ''/'' # r) = (c # x) @ CHR ''/'' # r" by (auto simp: path_trim_Cons)
    then show ?thesis by blast
  qed
qed simp

text \<open>A directory \<open>root\<close> as the text before a relative path.\<close>

definition dir_prefix :: "string \<Rightarrow> string" where
  "dir_prefix root = (if root = [] \<or> last root = CHR ''/'' then root else root @ ''/'')"

lemma path_join_prefix: "\<not> is_absolute rel \<Longrightarrow> path_join root rel = dir_prefix root @ rel"
  by (simp add: path_join_def dir_prefix_def)

lemma file_path_slash: "file_path root \<Longrightarrow> root \<noteq> [] \<Longrightarrow> last root = CHR ''/'' \<Longrightarrow> root = ''/''"
proof (cases root rule: rev_cases)
  case (snoc ys y)
  assume "file_path root" "last root = CHR ''/''"
  then have *: "path_trim (CHR ''/'' # rev ys) = CHR ''/'' # rev ys"
    using snoc by (simp add: file_path_def)
  have "ys = []"
  proof (rule ccontr)
    assume "ys \<noteq> []"
    then have "path_trim (rev ys) = CHR ''/'' # rev ys" using * by (simp add: path_trim_Cons)
    then show False using suffix_length_le [OF path_trim_suffix [of "rev ys"]] by simp
  qed
  then show ?thesis using snoc \<open>last root = CHR ''/''\<close> by simp
qed simp

lemma dir_prefix_cases:
  assumes "file_path root" "root \<noteq> []"
  obtains r where "rev (dir_prefix root) = CHR ''/'' # r" "rev (path_trim (CHR ''/'' # r)) = root"
proof (cases "last root = CHR ''/''")
  case True
  then have "root = ''/''" using assms file_path_slash by blast
  then show ?thesis by (intro that [of "[]"]) (simp_all add: dir_prefix_def path_trim_Cons)
next
  case False
  then show ?thesis
    using assms by (intro that [of "rev root"]) (simp_all add: dir_prefix_def path_trim_Cons file_path_def)
qed

lemma rel_ok_suffix: "rel_ok rel \<Longrightarrow> suffix x (rev rel) \<Longrightarrow> x \<noteq> [] \<Longrightarrow> rel_ok (rev x)"
  by (metis Nil_is_rev_conv prefixE rel_ok_prefix rev_rev_ident suffix_to_prefix)

lemma path_parent_below:
  assumes root: "file_path root" and rel: "rel_ok rel" and full: "file_path (path_join root rel)"
    and d: "path_parent (path_join root rel) = Some d"
  shows "file_path d \<and> (d = root \<or> below root d)"
proof -
  let ?full = "dir_prefix root @ rel" and ?up = "dropWhile (\<lambda>c. c \<noteq> CHR ''/'')"
  have join: "path_join root rel' = dir_prefix root @ rel'" if "rel_ok rel'" for rel'
    using that by (simp add: path_join_prefix rel_ok_def)
  have d': "rev d = path_trim (?up (rev ?full))"
    using d full by (auto simp: path_parent_def file_path_def join [OF rel] Let_def split: if_splits)
  then have "file_path d" by (metis file_path_def path_trim_idem)
  moreover have "d = root \<or> below root d"
  proof (cases "root = []")
    case True
    have "suffix (rev d) (rev rel)"
      using d' True suffix_order.trans [OF path_trim_suffix suffix_dropWhile] by (simp add: dir_prefix_def)
    then have "rel_ok d" if "d \<noteq> []"
      using rel_ok_suffix [OF rel] that by fastforce
    then show ?thesis
      using True join by (auto simp: below_def dir_prefix_def)
  next
    case False
    then obtain r where r: "rev (dir_prefix root) = CHR ''/'' # r" "rev (path_trim (CHR ''/'' # r)) = root"
      using dir_prefix_cases root by blast
    have up: "?up (rev ?full) = ?up (rev rel) @ CHR ''/'' # r"
      by (cases "CHR ''/'' \<in> set rel") (auto simp: r dropWhile_append dropWhile_append1)
    show ?thesis
      using path_trim_append [of "?up (rev rel)" r]
    proof (elim disjE exE conjE)
      assume "path_trim (?up (rev rel) @ CHR ''/'' # r) = path_trim (CHR ''/'' # r)"
      then show ?thesis using d' up r by (metis rev_rev_ident)
    next
      fix x assume x: "x \<noteq> []" "suffix x (?up (rev rel))" "path_trim (?up (rev rel) @ CHR ''/'' # r) = x @ CHR ''/'' # r"
      then have "rel_ok (rev x)"
        using rel_ok_suffix [OF rel] suffix_order.trans suffix_dropWhile by blast
      moreover have "rev d = x @ rev (dir_prefix root)" using x(3) d' up r by simp
      then have "d = dir_prefix root @ rev x" by (metis rev_append rev_rev_ident)
      ultimately show ?thesis using join by (auto simp: below_def)
    qed
  qed
  ultimately show ?thesis by blast
qed

lemma dots_slash: "contains_sub ''..'' (a @ ''/'') \<longleftrightarrow> contains_sub ''..'' a"
proof (induction a)
  case (Cons c a)
  then show ?case by (cases a) (auto simp: contains_sub_def starts_with_def)
qed (simp add: contains_sub_def starts_with_def)

lemma rel_ok_join: "rel_ok a \<Longrightarrow> rel_ok b \<Longrightarrow> rel_ok (dir_prefix a @ b)"
  using dots_append [of "dir_prefix a" b] dots_append [of "a @ ''/''" b] dots_append [of a b] dots_slash [of a]
  by (cases a) (auto simp: rel_ok_def dir_prefix_def is_absolute_def starts_with_def)

lemma below_trans:
  assumes "below root d" "below d p"
  shows "below root p"
proof -
  obtain a b where ab: "rel_ok a" "d = path_join root a" "rel_ok b" "p = path_join d b"
    using assms by (auto simp: below_def)
  then have "p = path_join root (dir_prefix a @ b)"
    using rel_ok_join [of a b] by (auto simp: path_join_prefix rel_ok_def) (auto simp: dir_prefix_def)
  with ab rel_ok_join show ?thesis unfolding below_def by blast
qed

text \<open>The parser reads the file system only below the directory it starts from.\<close>

lemma do_include_confined:
  assumes dir: "file_path base" "base = root \<or> below root base"
    and files: "\<And>p c. fs p = Some c \<Longrightarrow> file_path p" and agree: "\<And>p. below root p \<Longrightarrow> fs' p = fs p"
    and inc: "\<And>content filename d cats. file_path d \<Longrightarrow> d = root \<or> below root d \<Longrightarrow>
      inc' content filename d cats = inc content filename d cats"
  shows "do_include inc' fs' filename base lineno line cats = do_include inc fs filename base lineno line cats"
proof (cases "include_target line filename lineno")
  case (Inr rel)
  then have ok: "rel_ok rel" by (rule include_target_ok)
  let ?p = "path_join base rel"
  have "below base ?p" using ok by (auto simp: below_def)
  then have "below root ?p" using dir below_trans by blast
  then have fs': "fs' ?p = fs ?p" by (rule agree)
  have next_dir: "file_path d \<and> (d = root \<or> below root d)" if "path_parent ?p = Some d" "fs ?p = Some c" for d c
    using path_parent_below [OF dir(1) ok files [OF that(2)] that(1)] dir(2) below_trans by blast
  show ?thesis
    using next_dir inc dir by (auto simp: do_include_def Inr fs' Let_def split: option.split)
qed (simp add: do_include_def)

lemma parse_config_lines_confined:
  assumes "\<And>filename lineno line cats. do_include inc' fs' filename base lineno line cats = do_include inc fs filename base lineno line cats"
  shows "parse_config_lines inc' fs' filename base lineno ls st = parse_config_lines inc fs filename base lineno ls st"
proof (induction ls arbitrary: lineno st)
  case (Cons l ls)
  have "parse_config_line inc' fs' filename base lineno l st = parse_config_line inc fs filename base lineno l st"
    unfolding parse_config_line_def assms ..
  then show ?case using Cons.IH by (simp split: sum.split)
qed simp

lemma parse_content_inner_confined:
  assumes files: "\<And>p c. fs p = Some c \<Longrightarrow> file_path p" and agree: "\<And>p. below root p \<Longrightarrow> fs' p = fs p"
  shows "file_path base \<Longrightarrow> base = root \<or> below root base \<Longrightarrow>
    parse_content_inner fs' depth content filename base cats = parse_content_inner fs depth content filename base cats"
proof (induction "Suc MAX_INCLUDE_DEPTH - depth" arbitrary: depth content filename base cats rule: less_induct)
  case less
  show ?case
  proof (cases "MAX_INCLUDE_DEPTH < depth")
    case False
    have "do_include (parse_content_inner fs' (Suc depth)) fs' filename base lineno line cats =
          do_include (parse_content_inner fs (Suc depth)) fs filename base lineno line cats" for filename lineno line cats
      using less False by (intro do_include_confined [where root = root]) (auto simp: files agree)
    then have "parse_config_lines (parse_content_inner fs' (Suc depth)) fs' filename base 1 ls st =
          parse_config_lines (parse_content_inner fs (Suc depth)) fs filename base 1 ls st" for ls st
      by (rule parse_config_lines_confined)
    then show ?thesis
      by (simp add: parse_content_inner.simps [of _ depth] del: One_nat_def)
  qed (simp add: parse_content_inner.simps)
qed

lemma file_path_parent: "path_parent p = Some d \<Longrightarrow> file_path d"
  by (auto simp: path_parent_def file_path_def Let_def split: if_splits)

text \<open>
  (C14) Including files cannot escape the directory of the configuration file: two file systems
  that agree on that file and on everything below its directory give the same configuration, or the
  same error, whatever they hold elsewhere.
\<close>

theorem config_load_confined:
  assumes "\<forall>p c. fs p = Some c \<longrightarrow> file_path p"
    and "path_parent path = Some dir"
    and "fs' path = fs path"
    and "\<forall>p. below dir p \<longrightarrow> fs' p = fs p"
  shows "config_load fs' path = config_load fs path"
proof -
  have "parse_content_inner fs' 0 content path dir [] = parse_content_inner fs 0 content path dir []" for content
    using assms file_path_parent [OF assms(2)]
    by (intro parse_content_inner_confined [where root = dir]) auto
  then show ?thesis
    by (simp add: config_load_def config_of_content_def assms split: option.split)
qed

definition sample_fs :: file_system where
  "sample_fs p =
     (if p = ''etc/a.conf'' then Some (''#include b.conf'' @ [CHR 0x0A])
      else if p = ''etc/b.conf'' then Some ''[x]'' else None)"

theorem config_load_confined_witness:
  "config_load (sample_fs(''passwd'' \<mapsto> ''[y]'')) ''etc/a.conf'' = config_load sample_fs ''etc/a.conf'' \<and>
   map_sum id (map ct_name \<circ> ac_categories) (config_load sample_fs ''etc/a.conf'') = Inr [''x'']"
proof -
  have "\<not> below ''etc'' ''passwd''"
    by (auto simp: below_def path_join_def is_absolute_def starts_with_def split: if_splits)
  then have agree: "\<forall>p. below ''etc'' p \<longrightarrow> (sample_fs(''passwd'' \<mapsto> ''[y]'')) p = sample_fs p" by auto
  have files: "\<forall>p c. sample_fs p = Some c \<longrightarrow> file_path p"
    by (auto simp: sample_fs_def file_path_def path_trim_Cons split: if_splits)
  have dir: "path_parent ''etc/a.conf'' = Some ''etc''" by code_simp
  have "map_sum id (map ct_name \<circ> ac_categories) (config_load sample_fs ''etc/a.conf'') = Inr [''x'']"
    by code_simp
  moreover have "(sample_fs(''passwd'' \<mapsto> ''[y]'')) ''etc/a.conf'' = sample_fs ''etc/a.conf''" by simp
  ultimately show ?thesis using config_load_confined [OF files dir _ agree] by blast
qed

end
