(* ===== verification/Config_Roundtrip.thy ===== *)
theory Config_Roundtrip
  imports Config_File
begin

section \<open>Writing and reading a configuration\<close>

text \<open>
  The text of a list of categories in the format the reader of \<^verbatim>\<open>asterisk-config\<close> documents, and
  that reading it gives back the categories, with every semicolon of a value escaped. What a name, a
  value or a template may contain is stated by the predicates \<open>wf_*\<close>.
\<close>

subsection \<open>The text of a configuration\<close>

definition escape_semicolons :: "string \<Rightarrow> string" where
  "escape_semicolons v = concat (map (\<lambda>c. if c = CHR '';'' then [CHR 0x5C, c] else [c]) v)"

definition show_variable :: "variable \<Rightarrow> string" where
  "show_variable v = cv_name v @ (if cv_is_object v then ''=>'' else ''='') @ escape_semicolons (cv_value v)"

definition show_modifier :: "category \<Rightarrow> string" where
  "show_modifier c =
     (case ct_template_name c of
        None \<Rightarrow> if ct_is_template c then ''(!)'' else []
      | Some t \<Rightarrow> ''('' @ t @ (if ct_is_template c then '',!'' else []) @ '')'')"

definition show_header :: "category \<Rightarrow> string" where
  "show_header c = ''['' @ ct_name c @ '']'' @ show_modifier c"

definition show_category :: "category \<Rightarrow> string list" where
  "show_category c = show_header c # map show_variable (ct_variables c)"

definition show_config :: "category list \<Rightarrow> string" where
  "show_config cats = concat (map (\<lambda>l. l @ [CHR 0x0A]) (concat (map show_category cats)))"

definition plain :: "string \<Rightarrow> bool" where
  "plain s \<longleftrightarrow> trimmed s \<and> s \<noteq> [] \<and> list_all (\<lambda>c. c \<noteq> CHR '';'' \<and> c \<noteq> CHR 0x22 \<and> c \<noteq> CHR 0x0A) s"

definition wf_variable :: "variable \<Rightarrow> bool" where
  "wf_variable v \<longleftrightarrow> plain (cv_name v) \<and> CHR ''='' \<notin> set (cv_name v) \<and>
     hd (cv_name v) \<notin> {CHR ''['', CHR ''#'', CHR ''/''} \<and>
     trimmed (cv_value v) \<and> CHR 0x22 \<notin> set (cv_value v) \<and> CHR 0x0A \<notin> set (cv_value v) \<and>
     (\<not> cv_is_object v \<longrightarrow> \<not> contains_sub ''=>'' (CHR ''='' # cv_value v)) \<and> \<not> cv_inherited v"

definition wf_category :: "category \<Rightarrow> bool" where
  "wf_category c \<longleftrightarrow> plain (ct_name c) \<and> CHR '']'' \<notin> set (ct_name c) \<and>
     (case ct_template_name c of
        None \<Rightarrow> True
      | Some t \<Rightarrow> plain t \<and> CHR '')'' \<notin> set t \<and> CHR '','' \<notin> set t \<and> t \<noteq> ''!'') \<and>
     list_all wf_variable (ct_variables c)"

text \<open>The categories with the file and the line each of their parts is printed on.\<close>

fun place_variables :: "string \<Rightarrow> nat \<Rightarrow> variable list \<Rightarrow> variable list" where
  "place_variables f n [] = []"
| "place_variables f n (v # vs) = v\<lparr>cv_file := f, cv_lineno := n\<rparr> # place_variables f (Suc n) vs"

definition place_category :: "string \<Rightarrow> nat \<Rightarrow> category \<Rightarrow> category" where
  "place_category f n c =
     c\<lparr>ct_variables := place_variables f (Suc n) (ct_variables c), ct_file := f, ct_lineno := n\<rparr>"

fun place_categories :: "string \<Rightarrow> nat \<Rightarrow> category list \<Rightarrow> category list" where
  "place_categories f n [] = []"
| "place_categories f n (c # cs) =
     place_category f n c # place_categories f (n + length (show_category c)) cs"

subsection \<open>Lines\<close>

lemma escape_Nil [simp]: "escape_semicolons [] = []"
  by (simp add: escape_semicolons_def)

lemma escape_Cons:
  "escape_semicolons (c # v) = (if c = CHR '';'' then [CHR 0x5C, c] else [c]) @ escape_semicolons v"
  by (simp add: escape_semicolons_def)

lemma escape_hd: "v \<noteq> [] \<Longrightarrow> hd (escape_semicolons v) = (if hd v = CHR '';'' then CHR 0x5C else hd v)"
  by (cases v) (simp_all add: escape_Cons)

lemma escape_not_Nil [simp]: "escape_semicolons v = [] \<longleftrightarrow> v = []"
  by (cases v) (simp_all add: escape_Cons)

lemma unescape_Cons: "s = [] \<or> hd s \<noteq> CHR '';'' \<Longrightarrow> unescape_semicolons (a # s) = a # unescape_semicolons s"
  by (cases s) auto

lemma unescape_escape [simp]: "unescape_semicolons (escape_semicolons v) = v"
proof (induction v)
  case (Cons c v)
  have "v = [] \<or> hd (escape_semicolons v) \<noteq> CHR '';''" by (cases v) (auto simp: escape_Cons)
  with Cons show ?case by (auto simp: escape_Cons unescape_Cons)
qed simp

lemma last_escape: "v \<noteq> [] \<Longrightarrow> last (escape_semicolons v) = last v"
  by (induction v) (auto simp: escape_Cons)

lemma trimmed_escape: "trimmed v \<Longrightarrow> trimmed (escape_semicolons v)"
  by (auto simp: trimmed_def escape_hd last_escape) (simp add: is_ws_def split: if_splits)

lemma set_escape: "set (escape_semicolons v) \<subseteq> insert (CHR 0x5C) (set v)"
  by (auto simp: escape_semicolons_def split: if_splits)

lemma strip_comment_escape: "CHR 0x22 \<notin> set v \<Longrightarrow> strip_comment_from False e (escape_semicolons v) = escape_semicolons v"
  by (induction v arbitrary: e) (auto simp: escape_Cons)

lemma strip_comment_from_plain:
  "list_all (\<lambda>c. c \<noteq> CHR '';'' \<and> c \<noteq> CHR 0x22) a \<Longrightarrow>
   \<exists>e'. strip_comment_from False e (a @ s) = a @ strip_comment_from False e' s"
  by (induction a arbitrary: e) auto

lemma contains_arrow_Cons:
  "contains_sub ''=>'' (x # y # s) \<longleftrightarrow> x = CHR ''='' \<and> y = CHR ''>'' \<or> contains_sub ''=>'' (y # s)"
  by (auto simp: contains_sub_def starts_with_def)

lemma arrow_escape: "contains_sub ''=>'' (x # escape_semicolons v) \<Longrightarrow> contains_sub ''=>'' (x # v)"
  by (induction v arbitrary: x) (auto simp: escape_Cons contains_arrow_Cons split: if_splits)

lemma find_arrow: "CHR ''='' \<notin> set a \<Longrightarrow> find_sub ''=>'' (a @ ''=>'' @ s) = Some (length a)"
  by (induction a) (auto simp: starts_with_def)

lemma find_no_arrow: "CHR ''='' \<notin> set a \<Longrightarrow> \<not> contains_sub ''=>'' s \<Longrightarrow> find_sub ''=>'' (a @ s) = None"
  by (induction a) (auto simp: starts_with_def contains_sub_def)

text \<open>A line that starts with a plain text and continues with an escaped one is read as it is.\<close>

definition readable :: "string \<Rightarrow> bool" where
  "readable l \<longleftrightarrow> trimmed l \<and> l \<noteq> [] \<and> strip_inline_comment l = l \<and> hd l \<notin> {CHR '';'', CHR ''/'', CHR ''#''} \<and>
     CHR 0x0A \<notin> set l"

lemma readable_append:
  assumes "plain a" "hd a \<notin> {CHR ''/'', CHR ''#''}" "trimmed v" "CHR 0x22 \<notin> set v" "CHR 0x0A \<notin> set v"
    "s = ''='' \<or> s = ''=>''"
  shows "readable (a @ s @ escape_semicolons v)"
proof -
  have sp: "list_all (\<lambda>c. c \<noteq> CHR '';'' \<and> c \<noteq> CHR 0x22) (a @ s)"
  proof -
    have "list_all (\<lambda>c. c \<noteq> CHR '';'' \<and> c \<noteq> CHR 0x22) s" using assms(6) by (elim disjE) simp_all
    moreover have "list_all (\<lambda>c. c \<noteq> CHR '';'' \<and> c \<noteq> CHR 0x22) a"
      using assms(1) by (simp add: plain_def list_all_iff)
    ultimately show ?thesis by (simp only: list_all_append simp_thms)
  qed
  obtain e where "strip_comment_from False False ((a @ s) @ escape_semicolons v) =
      (a @ s) @ strip_comment_from False e (escape_semicolons v)"
    using strip_comment_from_plain [OF sp] by blast
  then have "strip_inline_comment (a @ s @ escape_semicolons v) = a @ s @ escape_semicolons v"
    using assms by (simp add: strip_inline_comment_def strip_comment_escape)
  moreover have "hd a \<noteq> CHR '';''" "\<not> is_ws (hd a)" "a \<noteq> []" "CHR 0x0A \<notin> set a"
    using assms(1) by (auto simp: plain_def list_all_iff trimmed_def)
  moreover have "trimmed (escape_semicolons v)" using assms by (simp add: trimmed_escape)
  moreover have "CHR 0x0A \<notin> set (escape_semicolons v)" using set_escape [of v] assms(5) by auto
  moreover have "s \<noteq> []" "\<not> is_ws (last s)" "CHR 0x0A \<notin> set s" using assms(6) by (auto simp: is_ws_def)
  ultimately show ?thesis
    using assms(2) by (cases "escape_semicolons v = []") (simp_all add: readable_def trimmed_def)
qed

lemma parse_config_line_readable:
  assumes "readable l"
  shows "parse_config_line inc fs filename base lineno l st =
     (if starts_with ''['' l
      then (case parse_category_header l filename lineno of
              Inl e \<Rightarrow> Inl e
            | Inr (name, is_template, template_name) \<Rightarrow>
                Inr (Some \<lparr>ct_name = name, ct_is_template = is_template, ct_variables = [],
                       ct_template_name = template_name, ct_file = filename, ct_lineno = lineno\<rparr>,
                     flush_category st))
      else case st of
             (None, cats) \<Rightarrow> Inr st
           | (Some c, cats) \<Rightarrow>
               (case parse_variable l filename lineno of
                  Inl e \<Rightarrow> Inl e
                | Inr (name, val, is_object) \<Rightarrow>
                    Inr (Some (c\<lparr>ct_variables := ct_variables c @
                           [\<lparr>cv_name = name, cv_value = val, cv_file = filename, cv_lineno = lineno,
                             cv_is_object = is_object, cv_inherited = False\<rparr>]\<rparr>), cats)))"
proof -
  obtain c cs where l: "l = c # cs" using assms by (cases l) (auto simp: readable_def)
  have "c \<notin> {CHR '';'', CHR ''/'', CHR ''#''}" and t: "trim l = l" "strip_inline_comment l = l"
    using assms by (auto simp: readable_def l)
  then have "\<not> starts_with '';'' l" "\<not> starts_with ''//'' l" "\<not> starts_with ''#include'' l" "\<not> starts_with ''#exec'' l"
    by (auto simp: l starts_with_def)
  moreover have "l \<noteq> []" by (simp add: l)
  ultimately show ?thesis
    unfolding parse_config_line_def Let_def t by (simp only: if_False simp_thms)
qed

lemma parse_variable_show:
  assumes "wf_variable v"
  shows "parse_variable (show_variable v) f n = Inr (cv_name v, cv_value v, cv_is_object v)"
proof -
  have n: "CHR ''='' \<notin> set (cv_name v)" "trim (cv_name v) = cv_name v" "cv_name v \<noteq> []"
    and e: "trim (escape_semicolons (cv_value v)) = escape_semicolons (cv_value v)"
    using assms by (auto simp: wf_variable_def plain_def trimmed_escape)
  show ?thesis
  proof (cases "cv_is_object v")
    case True
    then show ?thesis
      using n e find_arrow [OF n(1), of "escape_semicolons (cv_value v)"]
      by (simp add: parse_variable_def show_variable_def)
  next
    case False
    then have "\<not> contains_sub ''=>'' (CHR ''='' # escape_semicolons (cv_value v))"
      using assms arrow_escape by (auto simp: wf_variable_def)
    then show ?thesis
      using False n e find_no_arrow [OF n(1), of "CHR ''='' # escape_semicolons (cv_value v)"]
        find_char_append [OF n(1), of "escape_semicolons (cv_value v)"]
      by (simp add: parse_variable_def show_variable_def)
  qed
qed

lemma readable_show_variable: "wf_variable v \<Longrightarrow> readable (show_variable v) \<and> \<not> starts_with ''['' (show_variable v)"
  using readable_append [of "cv_name v" "cv_value v" "if cv_is_object v then ''=>'' else ''=''"]
  by (cases "cv_name v") (auto simp: wf_variable_def plain_def show_variable_def starts_with_def)

lemma parse_show_variable:
  assumes "wf_variable v"
  shows "parse_config_line inc fs f base n (show_variable v) (Some c, cats) =
    Inr (Some (c\<lparr>ct_variables := ct_variables c @ [v\<lparr>cv_file := f, cv_lineno := n\<rparr>]\<rparr>), cats)"
  using readable_show_variable [OF assms] assms
  by (simp add: parse_config_line_readable parse_variable_show wf_variable_def)

lemma parse_show_variables:
  "list_all wf_variable vs \<Longrightarrow>
   parse_config_lines inc fs f base n (map show_variable vs @ ls) (Some c, cats) =
   parse_config_lines inc fs f base (n + length vs) ls
     (Some (c\<lparr>ct_variables := ct_variables c @ place_variables f n vs\<rparr>), cats)"
  by (induction vs arbitrary: n c) (simp_all add: parse_show_variable)

lemma split_char_last: "d \<notin> set b \<Longrightarrow> d \<notin> set a \<Longrightarrow> split_char d (a @ d # b) = [a, b]"
  by simp

lemma category_modifier_show:
  assumes "wf_category c"
  shows "case show_modifier c of
      [] \<Rightarrow> (ct_is_template c, ct_template_name c) = (False, None)
    | p # m \<Rightarrow> p = CHR ''('' \<and> (\<exists>mo. m = mo @ '')'' \<and> CHR '')'' \<notin> set mo \<and> trimmed mo \<and>
        category_modifier mo = (ct_is_template c, ct_template_name c))"
proof (cases "ct_template_name c")
  case None
  then show ?thesis by (auto simp: show_modifier_def category_modifier_def trimmed_def is_ws_def)
next
  case (Some t)
  then have t: "trimmed t" "t \<noteq> []" "CHR '')'' \<notin> set t" "CHR '','' \<notin> set t" "t \<noteq> ''!''"
    using assms by (auto simp: wf_category_def plain_def)
  have b: "trim ''!'' = ''!''" "trimmed ''!''" by (simp_all add: trimmed_def is_ws_def)
  have ws: "\<not> is_ws CHR ''!''" by (simp add: is_ws_def)
  show ?thesis
  proof (cases "ct_is_template c")
    case True
    have "split_char CHR '','' (t @ '',!'') = [t, ''!'']" using t split_char_last [of "CHR '',''" "''!''" t] by simp
    moreover have "t @ '',!'' \<noteq> ''!''" by (cases t) simp_all
    ultimately show ?thesis
      using t b ws Some True by (auto simp: show_modifier_def category_modifier_def trimmed_def intro!: exI [of _ "t @ '',!''"])
  next
    case False
    then show ?thesis
      using t Some by (auto simp: show_modifier_def category_modifier_def)
  qed
qed

lemma parse_category_header_show:
  assumes wf: "wf_category c"
  shows "parse_category_header (''['' @ ct_name c @ '']'' @ show_modifier c) f n =
    Inr (ct_name c, ct_is_template c, ct_template_name c)"
proof -
  let ?nm = "ct_name c" and ?m = "show_modifier c"
  let ?l = "''['' @ ?nm @ '']'' @ ?m"
  have nm: "trim ?nm = ?nm" "?nm \<noteq> []" "CHR '']'' \<notin> set ?nm"
    using wf by (auto simp: wf_category_def plain_def)
  have m: "?m = [] \<or> last ?m = CHR '')''" "?m = [] \<or> hd ?m = CHR ''(''"
    using category_modifier_show [OF wf] by (auto split: list.splits)
  have ws: "\<not> is_ws CHR ''[''" "\<not> is_ws CHR '']''" "\<not> is_ws CHR ''(''" "\<not> is_ws CHR '')''"
    by (simp_all add: is_ws_def)
  have l: "trim ?l = ?l" and tm: "trim ?m = ?m"
    using m ws by (auto simp: trimmed_def intro!: trim_id)
  have pos: "find_char CHR '']'' ?l = Some (Suc (length ?nm))"
    using find_char_append [of "CHR '']''" "CHR ''['' # ?nm" ?m] nm by simp
  have parts: "drop 1 (take (Suc (length ?nm)) ?l) = ?nm" "drop (Suc (length ?nm) + 1) ?l = ?m" by simp_all
  have hdr: "parse_category_header ?l f n =
      (case strip_prefix ''('' ?m of
         None \<Rightarrow> Inr (?nm, False, None)
       | Some rest \<Rightarrow> (case find_char CHR '')'' rest of
           None \<Rightarrow> Inl (ParseError f n (''missing closing '' @ [CHR 0x27, CHR '')'', CHR 0x27] @ '' in category modifier''))
         | Some close_paren \<Rightarrow> Inr (?nm, category_modifier (trim (take close_paren rest)))))"
    unfolding parse_category_header_def Let_def l pos option.case parts nm(1) tm by (simp add: nm)
  show ?thesis
  proof (cases ?m)
    case Nil
    then show ?thesis using hdr category_modifier_show [OF wf] by (simp add: strip_prefix_def starts_with_def)
  next
    case (Cons p m)
    then obtain mo where "p = CHR ''(''" "m = mo @ '')''" "CHR '')'' \<notin> set mo" "trimmed mo"
        "category_modifier mo = (ct_is_template c, ct_template_name c)"
      using category_modifier_show [OF wf] by auto
    moreover have "strip_prefix ''('' ?m = Some m"
      using Cons \<open>p = CHR ''(''\<close> by (simp add: strip_prefix_def starts_with_def)
    ultimately show ?thesis using hdr find_char_append [of "CHR '')''" mo "[]"] by simp
  qed
qed

lemma modifier_chars:
  "wf_category c \<Longrightarrow> list_all (\<lambda>x. x \<noteq> CHR '';'' \<and> x \<noteq> CHR 0x22 \<and> x \<noteq> CHR 0x0A) (show_modifier c)"
  by (cases "ct_template_name c"; cases "ct_is_template c") (simp_all add: show_modifier_def wf_category_def plain_def)

lemma readable_show_header:
  assumes wf: "wf_category c"
  shows "readable (show_header c)"
proof -
  let ?l = "''['' @ ct_name c @ '']'' @ show_modifier c"
  have chars: "list_all (\<lambda>x. x \<noteq> CHR '';'' \<and> x \<noteq> CHR 0x22 \<and> x \<noteq> CHR 0x0A) ?l"
    using modifier_chars [OF wf] wf by (simp add: wf_category_def plain_def)
  then have "list_all (\<lambda>c. c \<noteq> CHR '';'' \<and> c \<noteq> CHR 0x22) ?l" by (rule list.pred_mono_strong) simp
  then have "strip_inline_comment ?l = ?l"
    using strip_comment_from_plain [of ?l False "[]"] by (auto simp: strip_inline_comment_def)
  moreover have "show_modifier c = [] \<or> last (show_modifier c) = CHR '')''"
    using category_modifier_show [OF wf] by (auto split: list.splits)
  then have "trimmed ?l" by (auto simp: trimmed_def is_ws_def)
  moreover have "CHR 0x0A \<notin> set ?l" using chars unfolding list_all_iff by blast
  ultimately show ?thesis by (simp add: readable_def show_header_def)
qed

lemma parse_show_header:
  "wf_category c \<Longrightarrow>
   parse_config_line inc fs f base n (show_header c) st =
     Inr (Some (c\<lparr>ct_variables := [], ct_file := f, ct_lineno := n\<rparr>), flush_category st)"
  using readable_show_header [of c] parse_category_header_show [of c f n]
  by (simp add: parse_config_line_readable show_header_def starts_with_def)

subsection \<open>Whole files\<close>

lemma parse_show_categories:
  "list_all wf_category cats \<Longrightarrow>
   parse_config_lines inc fs f base n (concat (map show_category cats)) st =
     Inr (flush_category st @ place_categories f n cats)"
proof (induction cats arbitrary: n st)
  case (Cons c cats)
  then have c: "wf_category c" and "list_all wf_category cats" by simp_all
  then show ?case
    using Cons.IH wf_category_def [of c]
    by (simp add: show_category_def parse_show_header parse_show_variables place_category_def flush_category_def)
qed simp

lemma readable_line: "readable l \<Longrightarrow> CHR 0x0A \<notin> set l \<and> (l = [] \<or> last l \<noteq> CHR 0x0D)"
  by (auto simp: readable_def trimmed_def is_ws_def)

lemma readable_show_category: "wf_category c \<Longrightarrow> l \<in> set (show_category c) \<Longrightarrow> readable l"
  using readable_show_header readable_show_variable by (auto simp: show_category_def wf_category_def list_all_iff)

lemma str_lines_show_config:
  "list_all wf_category cats \<Longrightarrow> str_lines (show_config cats) = concat (map show_category cats)"
  unfolding show_config_def
  by (rule str_lines_terminated) (auto simp: list_all_iff dest!: readable_show_category dest: readable_line)

text \<open>
  (C11) Reading the text of a list of categories gives them back: names, template marks, inheritance,
  the order of the variables, both kinds of assignment and values with semicolons, each part at the
  line it was written on; templates are then applied as for any file.
\<close>

theorem config_roundtrip:
  assumes "list_all wf_category cats"
  shows "config_from_str fs (show_config cats) filename =
    Inr (apply_templates (rebuild_index
      \<lparr>ac_filename = filename, ac_categories = place_categories filename 1 cats, ac_category_index = []\<rparr>))"
  using assms
  by (simp add: config_from_str_def config_of_content_def parse_content_inner.simps [of fs 0] str_lines_show_config
      parse_show_categories flush_category_def MAX_INCLUDE_DEPTH_def del: One_nat_def)

definition sample_categories :: "category list" where
  "sample_categories =
    [\<lparr>ct_name = ''base'', ct_is_template = True,
      ct_variables = [\<lparr>cv_name = ''type'', cv_value = ''friend'', cv_file = [], cv_lineno = 0,
        cv_is_object = False, cv_inherited = False\<rparr>],
      ct_template_name = None, ct_file = [], ct_lineno = 0\<rparr>,
     \<lparr>ct_name = ''alice'', ct_is_template = False,
      ct_variables = [\<lparr>cv_name = ''contact'', cv_value = ''sip:a;transport=udp'', cv_file = [], cv_lineno = 0,
        cv_is_object = True, cv_inherited = False\<rparr>],
      ct_template_name = Some ''base'', ct_file = [], ct_lineno = 0\<rparr>]"

theorem config_roundtrip_witness:
  "list_all wf_category sample_categories \<and>
   config_from_str (\<lambda>_. None) (show_config sample_categories) ''a.conf'' =
     Inr (apply_templates (rebuild_index \<lparr>ac_filename = ''a.conf'',
       ac_categories = place_categories ''a.conf'' 1 sample_categories, ac_category_index = []\<rparr>))"
proof -
  have wf: "list_all wf_category sample_categories" by code_simp
  then show ?thesis using config_roundtrip [OF wf] by blast
qed

end
