(* ===== verification/Rtp_Packet.thy ===== *)
theory Rtp_Packet
  imports Ast_Types Rust_Net Config_File
begin

section \<open>RTP packets, telephone events and ports\<close>

text \<open>
  The wire formats and the port allocation of \<^verbatim>\<open>crates/asterisk-sip/src/rtp/mod.rs\<close>: the RTP
  header with its CSRC list, extension and padding, the RFC 4733 telephone event, the RFC 5761 test
  that separates RTCP from RTP on one socket, the RTCP reports, and the allocator that binds one UDP
  port of an inclusive range. A datagram is its bytes. Binding a socket is the operating system's:
  the outcome for each port is an argument of the allocator.
\<close>

subsection \<open>The RTP header\<close>

definition RTP_HEADER_SIZE :: nat where
  "RTP_HEADER_SIZE = 12"

definition RTP_MAX_MTU :: nat where
  "RTP_MAX_MTU = 1500"

definition usize_max :: nat where
  "usize_max = 2 ^ 64 - 1"

record rtp_header =
  rh_version :: u8
  rh_padding :: bool
  rh_extension :: bool
  rh_csrc_count :: u8
  rh_marker :: bool
  rh_payload_type :: u8
  rh_sequence :: u16
  rh_timestamp :: u32
  rh_ssrc :: u32

definition rtp_header_parse :: "u8 list \<Rightarrow> rtp_header asterisk_result" where
  "rtp_header_parse data =
     (if length data < RTP_HEADER_SIZE then Inl (ParseErr ''RTP packet too short'')
      else let version = drop_bit 6 (data ! 0) AND 3
           in if version \<noteq> 2 then Inl (ParseErr (''Invalid RTP version: '' @ show_nat (unat version)))
              else Inr \<lparr>rh_version = version,
                rh_padding = (data ! 0 AND 0x20 \<noteq> 0),
                rh_extension = (data ! 0 AND 0x10 \<noteq> 0),
                rh_csrc_count = data ! 0 AND 0x0F,
                rh_marker = (data ! 1 AND 0x80 \<noteq> 0),
                rh_payload_type = data ! 1 AND 0x7F,
                rh_sequence = u16_from_be (data ! 2) (data ! 3),
                rh_timestamp = u32_from_be (data ! 4) (data ! 5) (data ! 6) (data ! 7),
                rh_ssrc = u32_from_be (data ! 8) (data ! 9) (data ! 10) (data ! 11)\<rparr>)"

definition header_size :: "rtp_header \<Rightarrow> nat" where
  "header_size h = RTP_HEADER_SIZE + unat (rh_csrc_count h) * 4"

definition rtp_first_byte :: "rtp_header \<Rightarrow> u8" where
  "rtp_first_byte h =
     push_bit 6 (rh_version h) OR (if rh_padding h then 0x20 else 0)
       OR (if rh_extension h then 0x10 else 0) OR (rh_csrc_count h AND 0x0F)"

definition rtp_second_byte :: "rtp_header \<Rightarrow> u8" where
  "rtp_second_byte h = (if rh_marker h then 0x80 else 0) OR (rh_payload_type h AND 0x7F)"

definition rtp_header_to_bytes :: "rtp_header \<Rightarrow> u8 list" where
  "rtp_header_to_bytes h =
     [rtp_first_byte h, rtp_second_byte h]
     @ u16_to_be (rh_sequence h) @ u32_to_be (rh_timestamp h) @ u32_to_be (rh_ssrc h)"

definition build_rtp_packet :: "rtp_header \<Rightarrow> u8 list \<Rightarrow> u8 list" where
  "build_rtp_packet h payload = rtp_header_to_bytes h @ payload"

definition skip_extension :: "u8 list \<Rightarrow> rtp_header \<Rightarrow> nat \<Rightarrow> nat asterisk_result" where
  "skip_extension data h offset =
     (if \<not> rh_extension h then Inr offset
      else if length data < offset + 4 then Inl (ParseErr ''RTP extension header truncated'')
      else let extension_words = unat (u16_from_be (data ! (offset + 2)) (data ! (offset + 3)));
               offset' = offset + (4 + extension_words * 4)
           in if usize_max < offset' then Inl (ParseErr ''RTP extension length overflow'')
              else if length data < offset' then Inl (ParseErr ''RTP extension truncated'')
              else Inr offset')"

definition payload_end_of :: "u8 list \<Rightarrow> rtp_header \<Rightarrow> nat \<Rightarrow> nat asterisk_result" where
  "payload_end_of data h offset =
     (if \<not> rh_padding h then Inr (length data)
      else if data = [] then Inl (ParseErr ''RTP padding missing'')
      else let padding_len = unat (last data)
           in if padding_len = 0 \<or> length data - offset < padding_len
              then Inl (ParseErr ''Invalid RTP padding length'')
              else Inr (length data - padding_len))"

definition parse_rtp_header :: "u8 list \<Rightarrow> (rtp_header \<times> u8 list) asterisk_result" where
  "parse_rtp_header data =
     (case rtp_header_parse data of Inl e \<Rightarrow> Inl e
      | Inr h \<Rightarrow>
          if length data < header_size h then Inl (ParseErr ''RTP packet truncated'')
          else case skip_extension data h (header_size h) of Inl e \<Rightarrow> Inl e
          | Inr offset \<Rightarrow>
              (case payload_end_of data h offset of Inl e \<Rightarrow> Inl e
               | Inr payload_end \<Rightarrow> Inr (h, drop offset (take payload_end data))))"

subsection \<open>Telephone events\<close>

record dtmf_event =
  de_event :: u8
  de_end :: bool
  de_volume :: u8
  de_duration :: u16

definition dtmf_flag_byte :: "dtmf_event \<Rightarrow> u8" where
  "dtmf_flag_byte e = (if de_end e then 0x80 else 0) OR (de_volume e AND 0x3F)"

definition dtmf_event_to_bytes :: "dtmf_event \<Rightarrow> u8 list" where
  "dtmf_event_to_bytes e = [de_event e, dtmf_flag_byte e] @ u16_to_be (de_duration e)"

definition dtmf_event_from_bytes :: "u8 list \<Rightarrow> dtmf_event option" where
  "dtmf_event_from_bytes data =
     (if length data < 4 then None
      else Some \<lparr>de_event = data ! 0, de_end = (data ! 1 AND 0x80 \<noteq> 0), de_volume = data ! 1 AND 0x3F,
                 de_duration = u16_from_be (data ! 2) (data ! 3)\<rparr>)"

definition event_to_digit :: "u8 \<Rightarrow> char" where
  "event_to_digit event =
     (if event \<le> 9 then char_of (unat (48 + event))
      else if event = 10 then CHR ''*'' else if event = 11 then CHR ''#''
      else if event = 12 then CHR ''A'' else if event = 13 then CHR ''B''
      else if event = 14 then CHR ''C'' else if event = 15 then CHR ''D'' else CHR ''?'')"

definition digit_to_event :: "char \<Rightarrow> u8" where
  "digit_to_event digit =
     (if is_digit digit then of_char digit - 48
      else if digit = CHR ''*'' then 10 else if digit = CHR ''#'' then 11
      else if digit = CHR ''A'' \<or> digit = CHR ''a'' then 12
      else if digit = CHR ''B'' \<or> digit = CHR ''b'' then 13
      else if digit = CHR ''C'' \<or> digit = CHR ''c'' then 14
      else if digit = CHR ''D'' \<or> digit = CHR ''d'' then 15 else 0)"

subsection \<open>RTCP\<close>

definition RTCP_PT_SR :: u8 where "RTCP_PT_SR = 200"
definition RTCP_PT_RR :: u8 where "RTCP_PT_RR = 201"
definition RTCP_PT_RANGE_START :: u8 where "RTCP_PT_RANGE_START = 200"
definition RTCP_PT_RANGE_END :: u8 where "RTCP_PT_RANGE_END = 213"

definition is_rtcp_packet :: "u8 list \<Rightarrow> bool" where
  "is_rtcp_packet data \<longleftrightarrow>
     2 \<le> length data \<and> RTCP_PT_RANGE_START \<le> data ! 1 \<and> data ! 1 \<le> RTCP_PT_RANGE_END"

text \<open>The two reports: \<open>secs\<close> and \<open>nanos\<close> are the wall clock since the Unix epoch.\<close>

definition rtcp_sr :: "u32 \<Rightarrow> u64 \<Rightarrow> u32 \<Rightarrow> u32 \<Rightarrow> u32 \<Rightarrow> u32 \<Rightarrow> u8 list" where
  "rtcp_sr ssrc secs nanos packet_count octet_count rtp_timestamp =
     (let ntp_secs = (ucast secs :: u32) + 2208988800;
          ntp_frac = push_bit 32 (ucast nanos :: u64) div 1000000000
      in [0x80, RTCP_PT_SR] @ u16_to_be 6 @ u32_to_be ssrc @ u32_to_be ntp_secs
         @ u32_to_be (ucast ntp_frac) @ u32_to_be rtp_timestamp
         @ u32_to_be packet_count @ u32_to_be octet_count)"

definition rtcp_rr :: "u32 \<Rightarrow> u32 \<Rightarrow> u8 \<Rightarrow> u32 \<Rightarrow> u32 \<Rightarrow> u32 \<Rightarrow> u8 list" where
  "rtcp_rr ssrc remote_ssrc fraction_lost cumulative_lost highest_seq jitter =
     [0x81, RTCP_PT_RR] @ u16_to_be 7 @ u32_to_be ssrc @ u32_to_be remote_ssrc
     @ [fraction_lost, ucast (drop_bit 16 cumulative_lost AND 0xFF),
        ucast (drop_bit 8 cumulative_lost AND 0xFF), ucast (cumulative_lost AND 0xFF)]
     @ u32_to_be highest_seq @ u32_to_be jitter @ u32_to_be 0 @ u32_to_be 0"

datatype muxed_packet = MuxRtp rtp_header "u8 list" | MuxRtcp "u8 list"

definition recv_muxed :: "bool \<Rightarrow> u8 list \<Rightarrow> muxed_packet asterisk_result" where
  "recv_muxed mux_enabled datagram =
     (let buf = take RTP_MAX_MTU datagram
      in if mux_enabled \<and> is_rtcp_packet buf then Inr (MuxRtcp buf)
         else case parse_rtp_header buf of Inl e \<Rightarrow> Inl e
              | Inr (h, payload) \<Rightarrow> Inr (MuxRtp h payload))"

definition sdp_offers_rtcp_mux :: "(string \<times> string option) list \<Rightarrow> bool" where
  "sdp_offers_rtcp_mux attributes \<longleftrightarrow> (\<exists>(name, _) \<in> set attributes. name = ''rtcp-mux'')"

definition rtcp_mux_negotiated :: "(string \<times> string option) list \<Rightarrow> (string \<times> string option) list \<Rightarrow> bool" where
  "rtcp_mux_negotiated local_attrs remote_attrs \<longleftrightarrow>
     sdp_offers_rtcp_mux local_attrs \<and> sdp_offers_rtcp_mux remote_attrs"

subsection \<open>Ports\<close>

definition DEFAULT_RTP_PORT_START :: u16 where "DEFAULT_RTP_PORT_START = 10000"
definition DEFAULT_RTP_PORT_END :: u16 where "DEFAULT_RTP_PORT_END = 20000"

record rtp_port_range =
  pr_start :: u16
  pr_end :: u16

definition rtp_port_range_new :: "u16 \<Rightarrow> u16 \<Rightarrow> rtp_port_range asterisk_result" where
  "rtp_port_range_new s e =
     (if s = 0 \<or> e = 0 then Inl (InvalidArgument ''RTP port range must not include port 0'')
      else if e < s then Inl (InvalidArgument (''RTP port range start '' @ show_nat (unat s)
             @ '' exceeds end '' @ show_nat (unat e)))
      else Inr \<lparr>pr_start = s, pr_end = e\<rparr>)"

definition parse_rtp_port :: "string option \<Rightarrow> u16 \<Rightarrow> string \<Rightarrow> u16 asterisk_result" where
  "parse_rtp_port v dflt name =
     (case v of
        Some s \<Rightarrow> (case parse_u16 (trim s) of
            Some p \<Rightarrow> Inr p
          | None \<Rightarrow> Inl (InvalidArgument (name @ '' must be an integer from 1 through 65535, got ''
                           @ [CHR 0x27] @ s @ [CHR 0x27])))
      | None \<Rightarrow> Inr dflt)"

definition rtp_port_range_from_config :: "asterisk_config \<Rightarrow> rtp_port_range asterisk_result" where
  "rtp_port_range_from_config cfg =
     (case parse_rtp_port (config_get_variable cfg ''general'' ''rtpstart'') DEFAULT_RTP_PORT_START ''rtpstart'' of
        Inl e \<Rightarrow> Inl e
      | Inr s \<Rightarrow> (case parse_rtp_port (config_get_variable cfg ''general'' ''rtpend'') DEFAULT_RTP_PORT_END ''rtpend'' of
            Inl e \<Rightarrow> Inl e
          | Inr e \<Rightarrow> rtp_port_range_new s e))"

definition port_capacity :: "rtp_port_range \<Rightarrow> u32" where
  "port_capacity r = ucast (pr_end r) - ucast (pr_start r) + 1"

definition DEFAULT_RTP_TIMEOUT_SECS :: nat where "DEFAULT_RTP_TIMEOUT_SECS = 300"

definition rtp_timeout_from_config :: "asterisk_config \<Rightarrow> nat option asterisk_result" where
  "rtp_timeout_from_config cfg =
     (case config_get_variable cfg ''general'' ''rtptimeout'' of
        None \<Rightarrow> Inr (Some DEFAULT_RTP_TIMEOUT_SECS)
      | Some raw \<Rightarrow> (case parse_unsigned (2 ^ 64 - 1) (trim raw) of
            None \<Rightarrow> Inl (InvalidArgument (''rtptimeout must be a non-negative integer number of seconds, got ''
                           @ [CHR 0x27] @ raw @ [CHR 0x27]))
          | Some secs \<Rightarrow> Inr (if secs = 0 then None else Some secs)))"

datatype bind_outcome = Bound | AddrInUse | BindError asterisk_error

record rtp_port_allocator =
  pa_range :: rtp_port_range
  pa_next_offset :: u32

definition rtp_port_allocator_new :: "rtp_port_range \<Rightarrow> rtp_port_allocator" where
  "rtp_port_allocator_new r = \<lparr>pa_range = r, pa_next_offset = 0\<rparr>"

function allocate_from :: "(u16 \<Rightarrow> bind_outcome) \<Rightarrow> rtp_port_range \<Rightarrow> u32 \<Rightarrow> nat \<Rightarrow> u16 asterisk_result" where
  "allocate_from bind r first attempt =
     (let capacity = port_capacity r
      in if unat capacity \<le> attempt
         then Inl (IoError (''RTP port range '' @ show_nat (unat (pr_start r)) @ ''-''
                     @ show_nat (unat (pr_end r)) @ '' exhausted''))
         else let offset = (first + of_nat attempt) mod capacity;
                  port = ucast (ucast (pr_start r) + offset)
              in case bind port of
                   Bound \<Rightarrow> Inr port
                 | AddrInUse \<Rightarrow> allocate_from bind r first (Suc attempt)
                 | BindError e \<Rightarrow> Inl e)"
  by pat_completeness auto
termination
  by (relation "measure (\<lambda>(_, r, _, attempt). unat (port_capacity r) - attempt)") auto

definition allocate :: "(u16 \<Rightarrow> bind_outcome) \<Rightarrow> rtp_port_allocator \<Rightarrow> rtp_port_allocator \<times> u16 asterisk_result" where
  "allocate bind a =
     (let first = pa_next_offset a mod port_capacity (pa_range a)
      in (a\<lparr>pa_next_offset := pa_next_offset a + 1\<rparr>, allocate_from bind (pa_range a) first 0))"

declare allocate_from.simps [simp del]

subsection \<open>Encoding and decoding\<close>

text \<open>Bytes are compared bit by bit; a flag and a masked field of one byte are read back.\<close>

lemma u8_bits:
  "a = (b :: u8) \<longleftrightarrow> (bit a 0 = bit b 0 \<and> bit a 1 = bit b 1 \<and> bit a 2 = bit b 2 \<and> bit a 3 = bit b 3 \<and>
     bit a 4 = bit b 4 \<and> bit a 5 = bit b 5 \<and> bit a 6 = bit b 6 \<and> bit a 7 = bit b 7)" (is "_ \<longleftrightarrow> ?bits")
proof
  assume *: ?bits
  show "a = b"
  proof (rule bit_word_eqI)
    fix n assume "n < LENGTH(8)"
    then have "n = 0 \<or> n = 1 \<or> n = 2 \<or> n = 3 \<or> n = 4 \<or> n = 5 \<or> n = 6 \<or> n = 7" by auto
    then show "bit a n = bit b n" using * by (elim disjE) simp_all
  qed
qed simp

lemma and_mask_small: "unat x < 2 ^ n \<Longrightarrow> x AND mask n = (x :: u8)"
  by (simp add: word_eq_iff_unsigned [where ?'a = nat] unsigned_take_bit_eq take_bit_nat_eq_self
      take_bit_eq_mask [symmetric])

lemma and_7F [simp]: "x < 128 \<Longrightarrow> x AND 0x7F = (x :: u8)"
  using and_mask_small [of x 7] by (simp add: word_less_nat_alt mask_eq_exp_minus_1)

lemma and_3F [simp]: "x < 64 \<Longrightarrow> x AND 0x3F = (x :: u8)"
  using and_mask_small [of x 6] by (simp add: word_less_nat_alt mask_eq_exp_minus_1)

lemma and_0F [simp]: "x < 16 \<Longrightarrow> x AND 0x0F = (x :: u8)"
  using and_mask_small [of x 4] by (simp add: word_less_nat_alt mask_eq_exp_minus_1)

lemma and_7F_less: "x AND 0x7F < (128 :: u8)"
proof -
  have "x AND mask 7 < (128 :: u8)"
    using take_bit_nat_less_exp [of 7 "unat x"]
    by (simp add: word_less_nat_alt take_bit_eq_mask [symmetric] unsigned_take_bit_eq)
  then show ?thesis by (simp add: mask_eq_exp_minus_1)
qed

lemma rtp_second_byte_fields [simp]:
  "(rtp_second_byte h AND 0x80 = 0) \<longleftrightarrow> \<not> rh_marker h"
  "rtp_second_byte h AND 0x7F = rh_payload_type h AND 0x7F"
  unfolding u8_bits rtp_second_byte_def by (simp_all add: bit_simps)

lemma dtmf_flag_byte_fields [simp]:
  "(dtmf_flag_byte e AND 0x80 = 0) \<longleftrightarrow> \<not> de_end e"
  "dtmf_flag_byte e AND 0x3F = de_volume e AND 0x3F"
  unfolding u8_bits dtmf_flag_byte_def by (simp_all add: bit_simps)

lemma rtp_first_byte_fields:
  "rh_version h = 2 \<Longrightarrow> drop_bit 6 (rtp_first_byte h) AND 3 = 2"
  "(rtp_first_byte h AND 0x20 = 0) \<longleftrightarrow> \<not> rh_padding h"
  "(rtp_first_byte h AND 0x10 = 0) \<longleftrightarrow> \<not> rh_extension h"
  "rtp_first_byte h AND 0x0F = rh_csrc_count h AND 0x0F"
  unfolding u8_bits rtp_first_byte_def by (simp_all add: bit_simps)

definition wf_rtp_header :: "rtp_header \<Rightarrow> bool" where
  "wf_rtp_header h \<longleftrightarrow> rh_version h = 2 \<and> rh_csrc_count h < 16 \<and> rh_payload_type h < 128"

lemma length_rtp_header [simp]: "length (rtp_header_to_bytes h) = RTP_HEADER_SIZE"
  by (simp add: rtp_header_to_bytes_def RTP_HEADER_SIZE_def)

lemma rtp_header_parse_to_bytes:
  assumes "wf_rtp_header h"
  shows "rtp_header_parse (rtp_header_to_bytes h @ payload) = Inr h"
  using assms
  by (simp add: rtp_header_parse_def wf_rtp_header_def RTP_HEADER_SIZE_def rtp_header_to_bytes_def
      u16_to_be_def u32_to_be_def rtp_first_byte_fields)

lemma build_parse_aux:
  assumes "wf_rtp_header h" "\<not> rh_padding h" "\<not> rh_extension h" "rh_csrc_count h = 0"
  shows "parse_rtp_header (build_rtp_packet h payload) = Inr (h, payload)"
  using assms
  by (simp add: parse_rtp_header_def build_rtp_packet_def rtp_header_parse_to_bytes header_size_def
      skip_extension_def payload_end_of_def)

lemma skip_extension_bounds:
  "skip_extension data h off = Inr off' \<Longrightarrow> off \<le> length data \<Longrightarrow> off \<le> off' \<and> off' \<le> length data"
  by (auto simp: skip_extension_def Let_def split: if_splits)

lemma payload_end_bounds:
  "payload_end_of data h off = Inr e \<Longrightarrow> off \<le> length data \<Longrightarrow>
   off \<le> e \<and> e \<le> length data \<and>
   (if rh_padding h then data \<noteq> [] \<and> 0 < unat (last data) \<and> unat (last data) \<le> length data - off \<and>
      e = length data - unat (last data) else e = length data)"
  by (auto simp: payload_end_of_def Let_def split: if_splits)

lemma parse_rtp_header_infix:
  assumes "parse_rtp_header data = Inr (h, payload)"
  shows "\<exists>pre post. data = pre @ payload @ post \<and> header_size h \<le> length pre \<and>
    (if rh_padding h then post \<noteq> [] \<and> unat (last post) = length post else post = [])"
proof -
  obtain off e where off: "header_size h \<le> length data" "skip_extension data h (header_size h) = Inr off"
    and e: "payload_end_of data h off = Inr e" and p: "payload = drop off (take e data)"
    using assms by (auto simp: parse_rtp_header_def split: sum.splits if_splits)
  have o: "header_size h \<le> off" "off \<le> length data" using skip_extension_bounds [OF off(2,1)] by auto
  note b = payload_end_bounds [OF e o(2)]
  have data: "data = take off data @ payload @ drop e data"
    using b append_take_drop_id [of off "take e data"] append_take_drop_id [of e data]
    by (simp add: p min_absorb1 flip: append.assoc)
  have "if rh_padding h then drop e data \<noteq> [] \<and> unat (last (drop e data)) = length (drop e data) else drop e data = []"
    using b by (cases "rh_padding h") (auto simp: last_drop)
  with data o show ?thesis by (intro exI [of _ "take off data"] exI [of _ "drop e data"]) auto
qed

lemma dtmf_event_roundtrip_aux:
  "de_volume e < 64 \<Longrightarrow> dtmf_event_from_bytes (dtmf_event_to_bytes e) = Some e"
  by (simp add: dtmf_event_from_bytes_def dtmf_event_to_bytes_def u16_to_be_def)

lemma event_digit_roundtrip:
  assumes "event \<le> 15"
  shows "digit_to_event (event_to_digit event) = event"
proof -
  have "unat event < 16" using assms by (simp add: word_le_nat_alt)
  then have "event \<in> set (map of_nat [0..<16])" by (auto intro!: image_eqI [of _ _ "unat event"])
  moreover have "list_all (\<lambda>e. digit_to_event (event_to_digit e) = e) (map of_nat [0..<16])" by code_simp
  ultimately show ?thesis by (simp only: list_all_iff)
qed

lemma unat_rtp_second_byte: "unat (rtp_second_byte h) = (if rh_marker h then 128 else 0) + unat (rh_payload_type h AND 0x7F)"
proof -
  let ?y = "rh_payload_type h AND 0x7F"
  have "(128 AND 127 :: u8) = 0" by simp
  then have "\<not> (bit (128 :: u8) n \<and> bit (127 :: u8) n)" for n by (metis bit_0_eq bit_and_iff bot_apply bot_bool_def)
  then have "rtp_second_byte h = (if rh_marker h then 128 else 0) + ?y"
    unfolding rtp_second_byte_def by (subst disjunctive_add) (auto simp: bit_simps)
  moreover have "unat ?y < 128" using and_7F_less [of "rh_payload_type h"] by (simp add: word_less_nat_alt)
  ultimately show ?thesis by (simp add: unat_word_ariths)
qed

lemma is_rtcp_build:
  "is_rtcp_packet (build_rtp_packet h payload) \<longleftrightarrow>
   rh_marker h \<and> 72 \<le> unat (rh_payload_type h AND 0x7F) \<and> unat (rh_payload_type h AND 0x7F) \<le> 85"
proof -
  have "is_rtcp_packet (build_rtp_packet h payload) \<longleftrightarrow>
      200 \<le> unat (rtp_second_byte h) \<and> unat (rtp_second_byte h) \<le> 213"
    by (simp add: is_rtcp_packet_def build_rtp_packet_def rtp_header_to_bytes_def RTCP_PT_RANGE_START_def
        RTCP_PT_RANGE_END_def word_le_nat_alt)
  moreover have "unat (rh_payload_type h AND 0x7F) < 128"
    using and_7F_less [of "rh_payload_type h"] by (simp add: word_less_nat_alt)
  ultimately show ?thesis unfolding unat_rtp_second_byte by (cases "rh_marker h") simp_all
qed

subsection \<open>The allocator visits every port of its range\<close>

definition wf_range :: "rtp_port_range \<Rightarrow> bool" where
  "wf_range r \<longleftrightarrow> 0 < pr_start r \<and> pr_start r \<le> pr_end r"

lemma rtp_port_range_new_wf: "rtp_port_range_new s e = Inr r \<Longrightarrow> wf_range r"
  by (auto simp: rtp_port_range_new_def wf_range_def word_neq_0_conv split: if_splits)

lemma ucast_of_nat: "(ucast (w :: u16) :: u32) = of_nat (unat w)"
  by simp

lemma ucast_down_of_nat: "(ucast (of_nat n :: u32) :: u16) = of_nat n"
  by (rule bit_word_eqI) (simp add: bit_simps)

lemma unat_u16_bound: "unat (w :: u16) < 65536"
  using unsigned_less [of w, where ?'a = nat] by simp

lemma unat_capacity:
  assumes "wf_range r"
  shows "unat (port_capacity r) = unat (pr_end r) - unat (pr_start r) + 1"
    "0 < unat (port_capacity r)" "unat (port_capacity r) < 65536"
proof -
  have le: "unat (pr_start r) \<le> unat (pr_end r)" "0 < unat (pr_start r)"
    using assms by (simp_all add: wf_range_def word_le_nat_alt word_less_nat_alt)
  have b: "unat (pr_end r) < 65536" by (rule unat_u16_bound)
  have cap: "port_capacity r = of_nat (unat (pr_end r) - unat (pr_start r) + 1)"
    using le unfolding port_capacity_def ucast_of_nat by (simp only: of_nat_add of_nat_diff of_nat_1)
  have "unat (pr_end r) - unat (pr_start r) + 1 < 2 ^ 32" using b by simp
  then show *: "unat (port_capacity r) = unat (pr_end r) - unat (pr_start r) + 1"
    unfolding cap by (rule unat_of_nat_u32)
  show "0 < unat (port_capacity r)" "unat (port_capacity r) < 65536" using * le b by simp_all
qed

definition port_at :: "rtp_port_range \<Rightarrow> u32 \<Rightarrow> nat \<Rightarrow> u16" where
  "port_at r first k = of_nat (unat (pr_start r) + (unat first + k) mod unat (port_capacity r))"

lemma port_at_eq:
  assumes "wf_range r" "first < port_capacity r" "k < unat (port_capacity r)"
  shows "ucast (ucast (pr_start r) + (first + of_nat k) mod port_capacity r :: u32) = port_at r first k"
proof -
  let ?c = "unat (port_capacity r)"
  note cap = unat_capacity [OF assms(1)]
  have f: "unat first < ?c" using assms(2) by (simp add: word_less_nat_alt)
  have sum: "first + of_nat k = of_nat (unat first + k)" by simp
  have "unat first + k < 2 ^ 32" using f assms(3) cap by simp
  then have "unat (first + of_nat k) = unat first + k" unfolding sum by (rule unat_of_nat_u32)
  then have "unat ((first + of_nat k) mod port_capacity r) = (unat first + k) mod ?c"
    by (simp add: unat_mod)
  then have "(first + of_nat k) mod port_capacity r = of_nat ((unat first + k) mod ?c)"
    by (metis of_nat_unat ucast_id)
  then show ?thesis
    unfolding port_at_def ucast_of_nat by (simp only: of_nat_add [symmetric] ucast_down_of_nat)
qed

lemma port_at_bounds:
  assumes "wf_range r"
  shows "pr_start r \<le> port_at r first k \<and> port_at r first k \<le> pr_end r"
proof -
  note cap = unat_capacity [OF assms]
  let ?n = "unat (pr_start r) + (unat first + k) mod unat (port_capacity r)"
  have "(unat first + k) mod unat (port_capacity r) < unat (port_capacity r)" using cap(2) by (rule mod_less_divisor)
  moreover have "unat (pr_start r) \<le> unat (pr_end r)" using assms by (simp add: wf_range_def word_le_nat_alt)
  ultimately have n: "unat (pr_start r) \<le> ?n" "?n \<le> unat (pr_end r)" using cap(1) by linarith+
  then have "?n < 2 ^ 16" using unat_u16_bound [of "pr_end r"] by simp
  then have "unat (port_at r first k) = ?n" unfolding port_at_def by (rule unat_of_nat_u16)
  with n show ?thesis by (simp add: word_le_nat_alt)
qed

lemma port_at_covers:
  assumes "wf_range r" "first < port_capacity r" "pr_start r \<le> p" "p \<le> pr_end r"
  shows "\<exists>k < unat (port_capacity r). port_at r first k = p"
proof -
  let ?c = "unat (port_capacity r)" and ?d = "unat p - unat (pr_start r)"
  note cap = unat_capacity [OF assms(1)]
  have f: "unat first < ?c" using assms(2) by (simp add: word_less_nat_alt)
  have d: "?d < ?c" "unat (pr_start r) \<le> unat p" using assms cap(1) by (auto simp: word_le_nat_alt)
  define k where "k = (?d + (?c - unat first)) mod ?c"
  have "(unat first + k) mod ?c = (?d + ?c) mod ?c"
    unfolding k_def mod_add_right_eq using f by (simp add: add.commute add.left_commute)
  also have "\<dots> = ?d" using d(1) by (simp only: mod_add_self2 mod_less)
  finally have "port_at r first k = of_nat (unat p)" using d(2) by (simp add: port_at_def)
  moreover have "k < ?c" using cap(2) by (simp add: k_def)
  ultimately show ?thesis by auto
qed

lemma allocate_from_spec:
  assumes "wf_range r" "first < port_capacity r"
    and "\<forall>p. pr_start r \<le> p \<and> p \<le> pr_end r \<longrightarrow> bind p = Bound \<or> bind p = AddrInUse"
  shows "case allocate_from bind r first k of
      Inr p \<Rightarrow> pr_start r \<le> p \<and> p \<le> pr_end r \<and> bind p = Bound
    | Inl _ \<Rightarrow> \<forall>j. k \<le> j \<and> j < unat (port_capacity r) \<longrightarrow> bind (port_at r first j) = AddrInUse"
  using assms
proof (induction bind r first k rule: allocate_from.induct)
  case (1 bind r first k)
  show ?case
  proof (cases "unat (port_capacity r) \<le> k")
    case True
    then show ?thesis by (auto simp: allocate_from.simps [of bind r first k])
  next
    case False
    then have eq: "allocate_from bind r first k = (case bind (port_at r first k) of
        Bound \<Rightarrow> Inr (port_at r first k) | AddrInUse \<Rightarrow> allocate_from bind r first (Suc k) | BindError e \<Rightarrow> Inl e)"
      using "1.prems" by (simp add: allocate_from.simps [of bind r first k] port_at_eq Let_def split: bind_outcome.split)
    have "bind (port_at r first k) = Bound \<or> bind (port_at r first k) = AddrInUse"
      using "1.prems" port_at_bounds by blast
    then show ?thesis
    proof
      assume "bind (port_at r first k) = AddrInUse"
      moreover from this have "case allocate_from bind r first (Suc k) of
          Inr p \<Rightarrow> pr_start r \<le> p \<and> p \<le> pr_end r \<and> bind p = Bound
        | Inl _ \<Rightarrow> \<forall>j. Suc k \<le> j \<and> j < unat (port_capacity r) \<longrightarrow> bind (port_at r first j) = AddrInUse"
        using False "1.prems" port_at_eq [of r first k] by (intro "1.IH") auto
      ultimately show ?thesis
        unfolding eq by (auto split: sum.splits) (metis Suc_leI le_neq_implies_less)
    qed (use port_at_bounds "1.prems" in \<open>simp add: eq\<close>)
  qed
qed

text \<open>
  (C32) The allocator never leaves its range and never gives up while a port is free: when the only
  reason a bind fails is that the port is in use, it returns a port of the range that could be bound, or
  an error when every port of the range is in use, whatever its round-robin position.
\<close>

theorem allocate_finds_free_port:
  assumes "rtp_port_range_new s e = Inr (pa_range a)"
    and "\<forall>p. s \<le> p \<and> p \<le> e \<longrightarrow> bind p = Bound \<or> bind p = AddrInUse"
  shows "case snd (allocate bind a) of
      Inr p \<Rightarrow> s \<le> p \<and> p \<le> e \<and> bind p = Bound
    | Inl _ \<Rightarrow> \<forall>p. s \<le> p \<and> p \<le> e \<longrightarrow> bind p = AddrInUse"
proof -
  let ?r = "pa_range a" and ?f = "pa_next_offset a mod port_capacity (pa_range a)"
  have wf: "wf_range ?r" using assms(1) by (rule rtp_port_range_new_wf)
  have r: "pr_start ?r = s" "pr_end ?r = e"
    using assms(1) by (auto simp: rtp_port_range_new_def split: if_splits dest!: sym [of "\<lparr>pr_start = s, pr_end = e\<rparr>"])
  have f: "?f < port_capacity ?r"
    using unat_capacity(2) [OF wf] by (simp add: word_less_nat_alt unat_mod)
  from allocate_from_spec [OF wf f, of bind 0] assms(2) show ?thesis
    unfolding allocate_def Let_def r snd_conv
    using port_at_covers [OF wf f] unfolding r by (auto split: sum.splits)
qed

theorem allocate_finds_free_port_witness:
  "\<exists>p. snd (allocate (\<lambda>p. if p = 10 then AddrInUse else Bound)
          (rtp_port_allocator_new \<lparr>pr_start = 10, pr_end = 11\<rparr>)) = Inr p \<and> 10 \<le> p \<and> p \<le> 11 \<and> p \<noteq> 10"
proof -
  let ?a = "rtp_port_allocator_new \<lparr>pr_start = 10, pr_end = 11\<rparr>"
  let ?bind = "\<lambda>p :: u16. if p = 10 then AddrInUse else Bound"
  have "rtp_port_range_new 10 11 = Inr (pa_range ?a)"
    by (simp add: rtp_port_range_new_def rtp_port_allocator_new_def)
  moreover have "\<forall>p. 10 \<le> p \<and> p \<le> 11 \<longrightarrow> ?bind p = Bound \<or> ?bind p = AddrInUse" by simp
  ultimately have "case snd (allocate ?bind ?a) of
      Inr p \<Rightarrow> 10 \<le> p \<and> p \<le> 11 \<and> ?bind p = Bound
    | Inl _ \<Rightarrow> \<forall>p. 10 \<le> p \<and> p \<le> 11 \<longrightarrow> ?bind p = AddrInUse"
    by (rule allocate_finds_free_port)
  moreover have "\<not> (\<forall>p. 10 \<le> p \<and> p \<le> 11 \<longrightarrow> ?bind p = AddrInUse)"
    by (intro notI, drule spec [of _ 11]) simp
  ultimately show ?thesis by (auto split: sum.splits if_splits)
qed

end
