(* ===== verification/Rtp_Session.thy ===== *)
theory Rtp_Session
  imports Rtp_Packet
begin

section \<open>RTP sessions\<close>

text \<open>
  The sessions of \<^verbatim>\<open>crates/asterisk-sip/src/rtp/mod.rs\<close>: sending voice frames and RFC 4733
  digits, and the ingress checks of \<^verbatim>\<open>recv_frame\<close>. The atomics and locks of the struct are
  fields of one record, the counters wrap as \<^verbatim>\<open>fetch_add\<close> does. What a \<^verbatim>\<open>send_to\<close>
  answers and what \<^verbatim>\<open>recv_from\<close> delivers are arguments; the clock is an argument \<open>now\<close>.
  A statistics snapshot is the statistics record itself.
\<close>

subsection \<open>The session\<close>

definition NO_DTMF_PAYLOAD_TYPE :: u8 where
  "NO_DTMF_PAYLOAD_TYPE = 255"

record rtp_stats =
  st_remote_addr :: "socket_addr option"
  st_packets_sent :: u32
  st_packets_received :: u32
  st_octets_sent :: u32
  st_octets_received :: u32
  st_voice_frames_sent :: u64
  st_voice_frames_received :: u64
  st_dtmf_digits_sent :: u64
  st_dtmf_digits_received :: u64
  st_discarded_wrong_source :: u64
  st_discarded_wrong_payload_type :: u64
  st_discarded_malformed :: u64
  st_discarded_unstable_ssrc :: u64

record rtp_timing_rebase =
  rb_source :: rtp_timing
  rb_destination :: rtp_timing

record rtp_session =
  rs_ssrc :: u32
  rs_inbound_ssrc :: "u32 option"
  rs_sequence :: u16
  rs_timestamp :: u32
  rs_payload_type :: u8
  rs_dtmf_payload_type :: u8
  rs_last_dtmf_end :: "(u32 \<times> u32 \<times> u8) option"
  rs_outbound_timing :: "rtp_timing_rebase option"
  rs_samples_per_packet :: u32
  rs_stats :: rtp_stats
  rs_last_inbound :: nat

definition rtp_stats_default :: rtp_stats where
  "rtp_stats_default = \<lparr>st_remote_addr = None, st_packets_sent = 0, st_packets_received = 0, st_octets_sent = 0,
     st_octets_received = 0, st_voice_frames_sent = 0, st_voice_frames_received = 0, st_dtmf_digits_sent = 0,
     st_dtmf_digits_received = 0, st_discarded_wrong_source = 0, st_discarded_wrong_payload_type = 0,
     st_discarded_malformed = 0, st_discarded_unstable_ssrc = 0\<rparr>"

definition rtp_session_from_socket :: "u32 \<Rightarrow> nat \<Rightarrow> rtp_session" where
  "rtp_session_from_socket ssrc now = \<lparr>rs_ssrc = ssrc, rs_inbound_ssrc = None, rs_sequence = 0, rs_timestamp = 0,
     rs_payload_type = 0, rs_dtmf_payload_type = NO_DTMF_PAYLOAD_TYPE, rs_last_dtmf_end = None,
     rs_outbound_timing = None, rs_samples_per_packet = 160, rs_stats = rtp_stats_default, rs_last_inbound = now\<rparr>"

definition inbound_idle :: "nat \<Rightarrow> rtp_session \<Rightarrow> nat" where
  "inbound_idle now s = now - rs_last_inbound s"

definition mark_inbound_active :: "nat \<Rightarrow> rtp_session \<Rightarrow> rtp_session" where
  "mark_inbound_active now s = s\<lparr>rs_last_inbound := now\<rparr>"

definition remote_addr :: "rtp_session \<Rightarrow> socket_addr option" where
  "remote_addr s = st_remote_addr (rs_stats s)"

definition update_stats :: "(rtp_stats \<Rightarrow> rtp_stats) \<Rightarrow> rtp_session \<Rightarrow> rtp_session" where
  "update_stats f s = s\<lparr>rs_stats := f (rs_stats s)\<rparr>"

definition set_remote_addr :: "socket_addr \<Rightarrow> rtp_session \<Rightarrow> rtp_session" where
  "set_remote_addr a = update_stats (\<lambda>t. t\<lparr>st_remote_addr := Some a\<rparr>)"

definition set_payload_type :: "u8 \<Rightarrow> rtp_session \<Rightarrow> rtp_session" where
  "set_payload_type pt s = s\<lparr>rs_payload_type := pt AND 0x7F\<rparr>"

definition dtmf_payload_type :: "rtp_session \<Rightarrow> u8 option" where
  "dtmf_payload_type s =
     (if rs_dtmf_payload_type s = NO_DTMF_PAYLOAD_TYPE then None else Some (rs_dtmf_payload_type s))"

definition set_dtmf_payload_type :: "u8 \<Rightarrow> rtp_session \<Rightarrow> rtp_session" where
  "set_dtmf_payload_type pt s =
     s\<lparr>rs_dtmf_payload_type := if pt \<le> 0x7F then pt else NO_DTMF_PAYLOAD_TYPE\<rparr>"

definition clear_dtmf_payload_type :: "rtp_session \<Rightarrow> rtp_session" where
  "clear_dtmf_payload_type s = s\<lparr>rs_dtmf_payload_type := NO_DTMF_PAYLOAD_TYPE\<rparr>"

subsection \<open>Sending\<close>

text \<open>
  The sequence number and the timestamp of the next voice packet: a frame with source timing keeps
  the distances of its source from the first frame of the mapping, any other continues the session's
  own clock.
\<close>

definition next_timing :: "u32 \<Rightarrow> rtp_timing option \<Rightarrow> rtp_session \<Rightarrow> rtp_session \<times> u16 \<times> u32" where
  "next_timing samples source_timing s =
     (case source_timing of
        Some source \<Rightarrow>
          (let rebase = (case rs_outbound_timing s of
                 Some rb \<Rightarrow> rb
               | None \<Rightarrow> \<lparr>rb_source = source, rb_destination =
                   \<lparr>rt_sequence = rs_sequence s, rt_timestamp = rs_timestamp s\<rparr>\<rparr>);
               sequence = rt_sequence (rb_destination rebase)
                 + (rt_sequence source - rt_sequence (rb_source rebase));
               timestamp = rt_timestamp (rb_destination rebase)
                 + (rt_timestamp source - rt_timestamp (rb_source rebase))
           in (s\<lparr>rs_outbound_timing := Some rebase, rs_sequence := sequence + 1,
                 rs_timestamp := timestamp + samples\<rparr>, sequence, timestamp))
      | None \<Rightarrow>
          (s\<lparr>rs_outbound_timing := None, rs_sequence := rs_sequence s + 1,
             rs_timestamp := rs_timestamp s + rs_samples_per_packet s\<rparr>,
           rs_sequence s, rs_timestamp s))"

definition voice_header :: "rtp_session \<Rightarrow> u16 \<Rightarrow> u32 \<Rightarrow> rtp_header" where
  "voice_header s sq ts =
     \<lparr>rh_version = 2, rh_padding = False, rh_extension = False, rh_csrc_count = 0, rh_marker = False,
      rh_payload_type = rs_payload_type s, rh_sequence = sq, rh_timestamp = ts, rh_ssrc = rs_ssrc s\<rparr>"

type_synonym send_result = "rtp_session \<times> (u8 list \<times> socket_addr) list \<times> unit asterisk_result"

definition count_voice_sent :: "u8 list \<Rightarrow> rtp_stats \<Rightarrow> rtp_stats" where
  "count_voice_sent data t =
     t\<lparr>st_packets_sent := st_packets_sent t + 1, st_octets_sent := st_octets_sent t + of_nat (length data),
       st_voice_frames_sent := st_voice_frames_sent t + (if data = [] then 0 else 1)\<rparr>"

definition send_frame :: "asterisk_error option \<Rightarrow> frame \<Rightarrow> rtp_session \<Rightarrow> send_result" where
  "send_frame send_error f s =
     (case f of
        Voice _ samples data _ _ _ source_timing \<Rightarrow>
          (case remote_addr s of
             None \<Rightarrow> (s, [], Inl (InvalidArgument ''No remote address''))
           | Some remote \<Rightarrow>
               (case next_timing samples source_timing s of
                  (s1, sq, ts) \<Rightarrow>
                    (case send_error of
                       Some e \<Rightarrow> (s1, [], Inl e)
                     | None \<Rightarrow>
                         (update_stats (count_voice_sent data) s1,
                          [(build_rtp_packet (voice_header s1 sq ts) data, remote)], Inr ()))))
      | _ \<Rightarrow> (s, [], Inr ()))"

definition dtmf_header :: "rtp_session \<Rightarrow> u8 \<Rightarrow> bool \<Rightarrow> u16 \<Rightarrow> u32 \<Rightarrow> rtp_header" where
  "dtmf_header s pt marker sq ts =
     \<lparr>rh_version = 2, rh_padding = False, rh_extension = False, rh_csrc_count = 0, rh_marker = marker,
      rh_payload_type = pt, rh_sequence = sq, rh_timestamp = ts, rh_ssrc = rs_ssrc s\<rparr>"

definition dtmf_begin_packet :: "rtp_session \<Rightarrow> u8 \<Rightarrow> u8 \<Rightarrow> u16 \<Rightarrow> u32 \<Rightarrow> u16 \<Rightarrow> u8 list" where
  "dtmf_begin_packet s pt event sq ts i =
     build_rtp_packet (dtmf_header s pt (i = 0) (sq + i) ts)
       (dtmf_event_to_bytes \<lparr>de_event = event, de_end = False, de_volume = 10, de_duration = 160 * (i + 1)\<rparr>)"

definition dtmf_end_packet :: "rtp_session \<Rightarrow> u8 \<Rightarrow> u8 \<Rightarrow> u16 \<Rightarrow> u32 \<Rightarrow> u16 \<Rightarrow> u16 \<Rightarrow> u8 list" where
  "dtmf_end_packet s pt event sq ts duration i =
     build_rtp_packet (dtmf_header s pt False (sq + (3 + i)) ts)
       (dtmf_event_to_bytes \<lparr>de_event = event, de_end = True, de_volume = 10, de_duration = duration\<rparr>)"

definition count_dtmf_packet :: "rtp_stats \<Rightarrow> rtp_stats" where
  "count_dtmf_packet t = t\<lparr>st_packets_sent := st_packets_sent t + 1, st_octets_sent := st_octets_sent t + 4\<rparr>"

text \<open>The sends of one digit in order; the first one that fails ends the function.\<close>

fun send_packets :: "socket_addr \<Rightarrow> (u8 list \<times> asterisk_error option) list \<Rightarrow> rtp_session
    \<Rightarrow> rtp_session \<times> (u8 list \<times> socket_addr) list \<times> asterisk_error option" where
  "send_packets remote [] s = (s, [], None)"
| "send_packets remote ((p, Some e) # ps) s = (s, [], Some e)"
| "send_packets remote ((p, None) # ps) s =
     (case send_packets remote ps (update_stats count_dtmf_packet s) of
        (s', sent, e) \<Rightarrow> (s', (p, remote) # sent, e))"

definition send_dtmf :: "(nat \<Rightarrow> asterisk_error option) \<Rightarrow> char \<Rightarrow> u16 \<Rightarrow> rtp_session \<Rightarrow> send_result" where
  "send_dtmf send_error digit duration_samples s =
     (case remote_addr s of
        None \<Rightarrow> (s, [], Inl (InvalidArgument ''No remote address''))
      | Some remote \<Rightarrow>
          (case dtmf_payload_type s of
             None \<Rightarrow> (s, [], Inl (InvalidArgument ''telephone-event was not negotiated''))
           | Some pt \<Rightarrow>
               (let event = digit_to_event digit; start_seq = rs_sequence s; start_ts = rs_timestamp s;
                    s1 = s\<lparr>rs_outbound_timing := None, rs_sequence := start_seq + 1\<rparr>;
                    packets = map (dtmf_begin_packet s pt event start_seq start_ts) [0, 1, 2]
                      @ map (dtmf_end_packet s pt event start_seq start_ts duration_samples) [0, 1, 2]
                in case send_packets remote (zip packets (map send_error [0..<6])) s1 of
                     (s2, sent, Some e) \<Rightarrow> (s2, sent, Inl e)
                   | (s2, sent, None) \<Rightarrow>
                       (update_stats (\<lambda>t. t\<lparr>st_dtmf_digits_sent := st_dtmf_digits_sent t + 1\<rparr>)
                          (s2\<lparr>rs_sequence := start_seq + 6\<rparr>), sent, Inr ()))))"

subsection \<open>Receiving\<close>

definition latch_remote :: "socket_addr \<Rightarrow> rtp_session \<Rightarrow> rtp_session \<times> bool" where
  "latch_remote src s =
     (if remote_addr s \<noteq> None then (s, False)
      else (update_stats (\<lambda>t. t\<lparr>st_remote_addr := Some src\<rparr>) s, True))"

definition count_wrong_source :: "rtp_stats \<Rightarrow> rtp_stats" where
  "count_wrong_source t = t\<lparr>st_discarded_wrong_source := st_discarded_wrong_source t + 1\<rparr>"

definition count_wrong_payload_type :: "rtp_stats \<Rightarrow> rtp_stats" where
  "count_wrong_payload_type t = t\<lparr>st_discarded_wrong_payload_type := st_discarded_wrong_payload_type t + 1\<rparr>"

definition count_malformed :: "rtp_stats \<Rightarrow> rtp_stats" where
  "count_malformed t = t\<lparr>st_discarded_malformed := st_discarded_malformed t + 1\<rparr>"

definition count_unstable_ssrc :: "rtp_stats \<Rightarrow> rtp_stats" where
  "count_unstable_ssrc t = t\<lparr>st_discarded_unstable_ssrc := st_discarded_unstable_ssrc t + 1\<rparr>"

definition count_received :: "u8 list \<Rightarrow> rtp_stats \<Rightarrow> rtp_stats" where
  "count_received payload t =
     t\<lparr>st_packets_received := st_packets_received t + 1,
       st_octets_received := st_octets_received t + of_nat (length payload)\<rparr>"

definition dtmf_frame :: "rtp_header \<Rightarrow> dtmf_event \<Rightarrow> rtp_session \<Rightarrow> rtp_session \<times> frame" where
  "dtmf_frame h ev s =
     (let digit = event_to_digit (de_event ev); event_key = (rh_ssrc h, rh_timestamp h, de_event ev)
      in if \<not> de_end ev then (s, DtmfBegin digit)
         else if rs_last_dtmf_end s = Some event_key then (s, NullFrame)
         else (update_stats (\<lambda>t. t\<lparr>st_dtmf_digits_received := st_dtmf_digits_received t + 1\<rparr>)
                 (s\<lparr>rs_last_dtmf_end := Some event_key\<rparr>),
               DtmfEnd digit (ucast (de_duration ev) div 8)))"

definition voice_samples :: "u8 \<Rightarrow> u8 list \<Rightarrow> u32" where
  "voice_samples pt payload =
     (if pt = 0 \<or> pt = 8 then of_nat (length payload) else of_nat (length payload) div 2)"

definition voice_frame :: "rtp_header \<Rightarrow> u8 list \<Rightarrow> rtp_session \<Rightarrow> rtp_session \<times> frame" where
  "voice_frame h payload s =
     (if payload = [] then s
      else update_stats (\<lambda>t. t\<lparr>st_voice_frames_received := st_voice_frames_received t + 1\<rparr>) s,
      frame_voice_with_rtp_timing (ucast (rh_payload_type h)) (voice_samples (rh_payload_type h) payload) payload
        (rh_sequence h) (rh_timestamp h))"

text \<open>The rest of the loop body for a packet whose source, framing and payload type are accepted.\<close>

definition accept_packet ::
  "nat \<Rightarrow> socket_addr \<Rightarrow> rtp_header \<Rightarrow> u8 list \<Rightarrow> dtmf_event option \<Rightarrow> rtp_session \<Rightarrow> rtp_session \<times> frame option" where
  "accept_packet now src h payload ev s =
     (if (case rs_inbound_ssrc s of Some expected \<Rightarrow> expected \<noteq> rh_ssrc h | None \<Rightarrow> False)
      then (update_stats count_unstable_ssrc s, None)
      else let s1 = s\<lparr>rs_inbound_ssrc := Some (rh_ssrc h)\<rparr>;
               s2 = (fst (latch_remote src s1))\<lparr>rs_last_inbound := now\<rparr>;
               s3 = update_stats (count_received payload) s2
           in map_prod id Some (case ev of Some e \<Rightarrow> dtmf_frame h e s3 | None \<Rightarrow> voice_frame h payload s3))"

definition recv_datagram :: "nat \<Rightarrow> u8 list \<Rightarrow> socket_addr \<Rightarrow> rtp_session \<Rightarrow> rtp_session \<times> frame option" where
  "recv_datagram now datagram src s =
     (let packet = take RTP_MAX_MTU datagram in
      if is_rtcp_packet packet then (s, None)
      else if (case remote_addr s of Some remote \<Rightarrow> remote \<noteq> src | None \<Rightarrow> False)
      then (update_stats count_wrong_source s, None)
      else case parse_rtp_header packet of
             Inl _ \<Rightarrow> (update_stats count_malformed s, None)
           | Inr (h, payload) \<Rightarrow>
               (let is_dtmf = (dtmf_payload_type s = Some (rh_payload_type h)) in
                if rh_payload_type h \<noteq> rs_payload_type s \<and> \<not> is_dtmf
                then (update_stats count_wrong_payload_type s, None)
                else if \<not> is_dtmf then accept_packet now src h payload None s
                else case dtmf_event_from_bytes payload of
                       Some ev \<Rightarrow>
                         if de_event ev \<le> 15 then accept_packet now src h payload (Some ev) s
                         else (update_stats count_malformed s, None)
                     | None \<Rightarrow> (update_stats count_malformed s, None)))"

text \<open>
  \<^verbatim>\<open>recv_frame\<close> on the outcomes of \<^verbatim>\<open>recv_from\<close>, each with the time it arrives:
  \<^const>\<open>None\<close> when they run out and the task still waits.
\<close>

type_synonym arrival = "nat \<times> (asterisk_error + (u8 list \<times> socket_addr))"

fun recv_frame :: "arrival list \<Rightarrow> rtp_session \<Rightarrow> (rtp_session \<times> frame asterisk_result \<times> arrival list) option" where
  "recv_frame [] s = None"
| "recv_frame ((now, Inl e) # as) s = Some (s, Inl e, as)"
| "recv_frame ((now, Inr (datagram, src)) # as) s =
     (case recv_datagram now datagram src s of
        (s', Some f) \<Rightarrow> Some (s', Inr f, as)
      | (s', None) \<Rightarrow> recv_frame as s')"

text \<open>All frames of a sequence of datagrams, as the reader task takes them one after the other.\<close>

fun recv_all :: "(nat \<times> u8 list \<times> socket_addr) list \<Rightarrow> rtp_session \<Rightarrow> rtp_session \<times> frame list" where
  "recv_all [] s = (s, [])"
| "recv_all ((now, datagram, src) # ds) s =
     (case recv_datagram now datagram src s of
        (s1, f) \<Rightarrow> (case recv_all ds s1 of
          (s2, fs) \<Rightarrow> (s2, (case f of Some x \<Rightarrow> x # fs | None \<Rightarrow> fs))))"

subsection \<open>What a datagram can change\<close>

named_theorems rtp_frame \<open>fields an update leaves alone\<close>

lemma update_stats_fields [rtp_frame, simp]:
  "rs_ssrc (update_stats f s) = rs_ssrc s" "rs_inbound_ssrc (update_stats f s) = rs_inbound_ssrc s"
  "rs_sequence (update_stats f s) = rs_sequence s" "rs_timestamp (update_stats f s) = rs_timestamp s"
  "rs_payload_type (update_stats f s) = rs_payload_type s"
  "rs_dtmf_payload_type (update_stats f s) = rs_dtmf_payload_type s"
  "rs_last_dtmf_end (update_stats f s) = rs_last_dtmf_end s"
  "rs_outbound_timing (update_stats f s) = rs_outbound_timing s"
  "rs_last_inbound (update_stats f s) = rs_last_inbound s"
  "rs_stats (update_stats f s) = f (rs_stats s)"
  "dtmf_payload_type (update_stats f s) = dtmf_payload_type s"
  by (simp_all add: update_stats_def dtmf_payload_type_def)

lemma counters_keep_remote [rtp_frame, simp]:
  "st_remote_addr (count_voice_sent d t) = st_remote_addr t"
  "st_remote_addr (count_dtmf_packet t) = st_remote_addr t"
  "st_remote_addr (count_wrong_source t) = st_remote_addr t"
  "st_remote_addr (count_wrong_payload_type t) = st_remote_addr t"
  "st_remote_addr (count_malformed t) = st_remote_addr t"
  "st_remote_addr (count_unstable_ssrc t) = st_remote_addr t"
  "st_remote_addr (count_received p t) = st_remote_addr t"
  by (simp_all add: count_voice_sent_def count_dtmf_packet_def count_wrong_source_def
      count_wrong_payload_type_def count_malformed_def count_unstable_ssrc_def count_received_def)

lemma remote_addr_update [simp]: "remote_addr (update_stats f s) = st_remote_addr (f (rs_stats s))"
  by (simp add: remote_addr_def)

lemma latch_remote_fields [simp]:
  "rs_inbound_ssrc (fst (latch_remote src s)) = rs_inbound_ssrc s"
  "rs_payload_type (fst (latch_remote src s)) = rs_payload_type s"
  "rs_last_dtmf_end (fst (latch_remote src s)) = rs_last_dtmf_end s"
  "dtmf_payload_type (fst (latch_remote src s)) = dtmf_payload_type s"
  "remote_addr (fst (latch_remote src s)) = (case remote_addr s of Some r \<Rightarrow> Some r | None \<Rightarrow> Some src)"
  by (auto simp: latch_remote_def split: option.split)

text \<open>A session locked onto a source: the address and the SSRC of its media are known.\<close>

definition locked :: "socket_addr \<Rightarrow> u32 \<Rightarrow> rtp_session \<Rightarrow> bool" where
  "locked src ssrc s \<longleftrightarrow> remote_addr s = Some src \<and> rs_inbound_ssrc s = Some ssrc"

definition locks_to :: "socket_addr \<Rightarrow> u32 \<Rightarrow> rtp_session \<Rightarrow> bool" where
  "locks_to src ssrc s \<longleftrightarrow>
     remote_addr s \<in> {None, Some src} \<and> rs_inbound_ssrc s \<in> {None, Some ssrc}"

definition core :: "rtp_session \<Rightarrow> socket_addr option \<times> u32 option \<times> nat \<times> u8 \<times> u8" where
  "core s = (remote_addr s, rs_inbound_ssrc s, rs_last_inbound s, rs_payload_type s, rs_dtmf_payload_type s)"

lemma core_dtmf_frame [simp]: "core (fst (dtmf_frame h ev s)) = core s"
  by (simp add: dtmf_frame_def core_def Let_def) (simp add: remote_addr_def)

lemma core_voice_frame [simp]: "core (fst (voice_frame h payload s)) = core s"
  by (simp add: voice_frame_def core_def) (simp add: remote_addr_def)

lemma core_accept:
  assumes "accept_packet now src h payload ev s = (s', Some f)"
  shows "core s' = ((case remote_addr s of Some r \<Rightarrow> Some r | None \<Rightarrow> Some src), Some (rh_ssrc h), now,
      rs_payload_type s, rs_dtmf_payload_type s) \<and> rs_inbound_ssrc s \<in> {None, Some (rh_ssrc h)}"
proof -
  let ?s1 = "s\<lparr>rs_inbound_ssrc := Some (rh_ssrc h)\<rparr>"
  let ?s2 = "(fst (latch_remote src ?s1))\<lparr>rs_last_inbound := now\<rparr>"
  let ?s3 = "update_stats (count_received payload) ?s2"
  have ok: "rs_inbound_ssrc s \<in> {None, Some (rh_ssrc h)}"
    using assms by (auto simp: accept_packet_def split: if_splits option.splits)
  then have "s' = fst (case ev of Some e \<Rightarrow> dtmf_frame h e ?s3 | None \<Rightarrow> voice_frame h payload ?s3)"
    using assms by (auto simp: accept_packet_def Let_def map_prod_def split: if_splits option.splits prod.splits)
  then have "core s' = core ?s3" by (simp split: option.splits)
  also have "\<dots> = ((case remote_addr s of Some r \<Rightarrow> Some r | None \<Rightarrow> Some src), Some (rh_ssrc h), now,
      rs_payload_type s, rs_dtmf_payload_type s)"
    by (auto simp: core_def latch_remote_def remote_addr_def split: option.split)
  finally show ?thesis using ok by blast
qed

lemma accept_packet_reject:
  "accept_packet now src h payload ev s = (s', None) \<Longrightarrow> s' = update_stats count_unstable_ssrc s"
  by (auto simp: accept_packet_def Let_def map_prod_def split: if_splits option.splits prod.splits)

text \<open>The discard counters are all a rejected datagram can change.\<close>

definition without_discards :: "rtp_session \<Rightarrow> rtp_session" where
  "without_discards = update_stats (\<lambda>t. t\<lparr>st_discarded_wrong_source := 0, st_discarded_wrong_payload_type := 0,
     st_discarded_malformed := 0, st_discarded_unstable_ssrc := 0\<rparr>)"

lemma without_discards_count [simp]:
  "without_discards (update_stats count_wrong_source s) = without_discards s"
  "without_discards (update_stats count_wrong_payload_type s) = without_discards s"
  "without_discards (update_stats count_malformed s) = without_discards s"
  "without_discards (update_stats count_unstable_ssrc s) = without_discards s"
  by (simp_all add: without_discards_def update_stats_def count_wrong_source_def count_wrong_payload_type_def
      count_malformed_def count_unstable_ssrc_def)

lemma recv_datagram_reject:
  "recv_datagram now datagram src s = (s', None) \<Longrightarrow> without_discards s' = without_discards s"
  by (auto simp: recv_datagram_def Let_def dest!: accept_packet_reject split: if_splits option.splits sum.splits)

lemma recv_datagram_accept:
  assumes "recv_datagram now datagram src s = (s', Some f)"
  obtains h payload ev where "parse_rtp_header (take RTP_MAX_MTU datagram) = Inr (h, payload)"
    "remote_addr s \<in> {None, Some src}" "accept_packet now src h payload ev s = (s', Some f)"
  using assms
  by (auto simp: recv_datagram_def Let_def split: if_splits option.splits sum.splits)

lemma core_without_discards [simp]: "core (without_discards s) = core s"
  by (simp add: core_def without_discards_def) (simp add: remote_addr_def)

lemma locked_recv_datagram:
  assumes "locked src ssrc s"
  shows "locked src ssrc (fst (recv_datagram now datagram src' s))"
proof (cases "recv_datagram now datagram src' s")
  case (Pair s' f)
  show ?thesis
  proof (cases f)
    case None
    then have "core s' = core s" using recv_datagram_reject [of now datagram src' s s'] Pair core_without_discards by metis
    then show ?thesis using assms Pair by (simp add: core_def locked_def)
  next
    case (Some x)
    then obtain h payload ev where "accept_packet now src' h payload ev s = (s', Some x)"
      using Pair recv_datagram_accept by blast
    then show ?thesis using assms core_accept [of now src' h payload ev s s' x] Pair by (auto simp: core_def locked_def)
  qed
qed

lemma locked_recv_all: "locked src ssrc s \<Longrightarrow> locked src ssrc (fst (recv_all ds s))"
proof (induction ds arbitrary: s)
  case (Cons d ds)
  obtain now datagram src' where d: "d = (now, datagram, src')" by (cases d)
  have "locked src ssrc (fst (recv_datagram now datagram src' s))" using Cons.prems by (rule locked_recv_datagram)
  then show ?case using Cons.IH by (simp add: d case_prod_beta)
qed simp

definition datagram_ssrc :: "u8 list \<Rightarrow> u32 option" where
  "datagram_ssrc datagram =
     (case parse_rtp_header (take RTP_MAX_MTU datagram) of Inr (h, _) \<Rightarrow> Some (rh_ssrc h) | Inl _ \<Rightarrow> None)"

lemma recv_accept_locks:
  assumes "recv_datagram now datagram src s = (s', Some f)"
  obtains ssrc where "datagram_ssrc datagram = Some ssrc" "locks_to src ssrc s" "locked src ssrc s'"
proof -
  obtain h payload ev where p: "parse_rtp_header (take RTP_MAX_MTU datagram) = Inr (h, payload)"
      and r: "remote_addr s \<in> {None, Some src}" and a: "accept_packet now src h payload ev s = (s', Some f)"
    using assms by (rule recv_datagram_accept)
  show thesis
    using p r core_accept [OF a] by (intro that [of "rh_ssrc h"])
      (auto simp: datagram_ssrc_def locks_to_def locked_def core_def split: option.splits)
qed

text \<open>
  (C20) Once a session has accepted a packet, every packet it accepts later comes from the same
  address and carries the same SSRC, whatever datagrams arrive in between, and media is still sent to
  that address.
\<close>

theorem media_source_locked:
  assumes "recv_datagram now1 d1 src1 s = (s1, Some f1)"
    and "recv_all ds s1 = (s2, fs)"
    and "recv_datagram now2 d2 src2 s2 = (s3, Some f2)"
  shows "src2 = src1 \<and> datagram_ssrc d2 = datagram_ssrc d1 \<and> remote_addr s3 = Some src1"
proof -
  obtain ssrc1 where 1: "datagram_ssrc d1 = Some ssrc1" "locked src1 ssrc1 s1"
    using assms(1) by (rule recv_accept_locks)
  obtain ssrc2 where 2: "datagram_ssrc d2 = Some ssrc2" "locks_to src2 ssrc2 s2" "locked src2 ssrc2 s3"
    using assms(3) by (rule recv_accept_locks)
  have "locked src1 ssrc1 s2" using locked_recv_all [OF 1(2), of ds] assms(2) by simp
  with 1 2 show ?thesis by (auto simp: locked_def locks_to_def)
qed

text \<open>
  (C31) Traffic that is never accepted has no effect beyond the discard counters: it cannot set or
  move the remote address, fix the SSRC, consume a digit or postpone the inactivity timeout.
\<close>

theorem rejected_traffic_inert:
  assumes "recv_all ds s = (s', [])"
  shows "without_discards s' = without_discards s \<and> inbound_idle now s' = inbound_idle now s"
proof -
  have "without_discards s' = without_discards s" using assms
  proof (induction ds arbitrary: s)
    case (Cons d ds)
    obtain t datagram src' where d: "d = (t, datagram, src')" by (cases d)
    obtain s1 f where 1: "recv_datagram t datagram src' s = (s1, f)" by fastforce
    then have "f = None" "recv_all ds s1 = (s', [])"
      using Cons.prems by (auto simp: d split: prod.splits option.splits)
    then show ?case using Cons.IH recv_datagram_reject 1 by metis
  qed simp
  moreover from this have "core s' = core s" by (metis core_without_discards)
  ultimately show ?thesis by (simp add: core_def inbound_idle_def)
qed

subsection \<open>From one session to another\<close>

lemma wf_session_headers:
  "pt < 128 \<Longrightarrow> parse_rtp_header (build_rtp_packet (dtmf_header a pt m sq ts) payload) =
     Inr (dtmf_header a pt m sq ts, payload)"
  "rs_payload_type a < 128 \<Longrightarrow> parse_rtp_header (build_rtp_packet (voice_header a sq ts) payload) =
     Inr (voice_header a sq ts, payload)"
  by (rule build_parse_aux; simp add: wf_rtp_header_def dtmf_header_def voice_header_def)+

lemma length_packet [simp]: "length (build_rtp_packet h payload) = RTP_HEADER_SIZE + length payload"
  by (simp add: build_rtp_packet_def)

lemma accept_packet_locks:
  assumes "locks_to src (rh_ssrc h) b"
  obtains s3 where "rs_last_dtmf_end s3 = rs_last_dtmf_end b"
    "accept_packet now src h payload ev b =
      map_prod id Some (case ev of Some e \<Rightarrow> dtmf_frame h e s3 | None \<Rightarrow> voice_frame h payload s3)"
proof -
  let ?s2 = "(fst (latch_remote src (b\<lparr>rs_inbound_ssrc := Some (rh_ssrc h)\<rparr>)))\<lparr>rs_last_inbound := now\<rparr>"
  show thesis
    using assms by (intro that [of "update_stats (count_received payload) ?s2"])
      (auto simp: accept_packet_def locks_to_def Let_def)
qed

text \<open>
  (C8) A voice frame one session sends is received by its peer with the same bytes: the peer, on the
  same payload type and not locked to another source, returns a voice frame with the sender's data,
  sequence number and timestamp.
\<close>

theorem voice_frame_delivered:
  assumes "send_frame None (Voice codec samples data ms sqno st timing) a = (a', [(packet, dst)], Inr ())"
    and "next_timing samples timing a = (a1, sq, ts)"
    and "rs_payload_type a < 128" "rs_payload_type b = rs_payload_type a"
    and "dtmf_payload_type b \<noteq> Some (rs_payload_type a)"
    and "locks_to src (rs_ssrc a) b"
    and "length data \<le> RTP_MAX_MTU - RTP_HEADER_SIZE"
  shows "\<exists>b'. recv_datagram now packet src b =
    (b', Some (frame_voice_with_rtp_timing (ucast (rs_payload_type a))
      (voice_samples (rs_payload_type a) data) data sq ts))"
proof -
  have a1: "rs_payload_type a1 = rs_payload_type a" "rs_ssrc a1 = rs_ssrc a"
    using assms(2) by (auto simp: next_timing_def Let_def split: option.splits)
  let ?h = "voice_header a1 sq ts"
  have p: "packet = build_rtp_packet ?h data"
    using assms(1,2) by (auto simp: send_frame_def split: option.splits)
  have mtu: "take RTP_MAX_MTU packet = packet" using assms(7) by (simp add: p RTP_MAX_MTU_def RTP_HEADER_SIZE_def)
  have "\<not> is_rtcp_packet packet" by (simp add: p is_rtcp_build voice_header_def)
  moreover have "parse_rtp_header packet = Inr (?h, data)" using assms(3) a1 by (simp add: p wf_session_headers)
  moreover have l: "locks_to src (rh_ssrc ?h) b" using assms(6) a1 by (simp add: voice_header_def)
  ultimately have "recv_datagram now packet src b = accept_packet now src ?h data None b"
    using assms(4,5) a1 by (auto simp: recv_datagram_def Let_def mtu locks_to_def voice_header_def)
  moreover obtain s3 where "accept_packet now src ?h data None b =
      map_prod id Some (case None of Some e \<Rightarrow> dtmf_frame ?h e s3 | None \<Rightarrow> voice_frame ?h data s3)"
    by (rule accept_packet_locks [OF l])
  ultimately show ?thesis
    using a1 by (simp add: voice_frame_def voice_header_def)
qed

lemma recv_datagram_dtmf:
  assumes "take RTP_MAX_MTU p = p" "\<not> is_rtcp_packet p" "parse_rtp_header p = Inr (h, payload)"
    and "dtmf_payload_type b = Some (rh_payload_type h)" "dtmf_event_from_bytes payload = Some e" "de_event e \<le> 15"
    and "remote_addr b = None \<or> remote_addr b = Some src"
  shows "recv_datagram now p src b = accept_packet now src h payload (Some e) b"
  using assms(7) by (elim disjE) (simp_all add: recv_datagram_def Let_def assms(1-6))

lemma recv_dtmf_packet:
  assumes "dtmf_payload_type b = Some pt" "pt < 128" "\<not> (m \<and> 72 \<le> unat pt \<and> unat pt \<le> 85)"
    and "locks_to src (rs_ssrc a) b" and "de_event e \<le> 15" "de_volume e < 64"
  obtains b' where "locked src (rs_ssrc a) b'" "dtmf_payload_type b' = Some pt"
    "rs_last_dtmf_end b' = (if de_end e then Some (rs_ssrc a, ts, de_event e) else rs_last_dtmf_end b)"
    "recv_datagram now (build_rtp_packet (dtmf_header a pt m sq ts) (dtmf_event_to_bytes e)) src b =
      (b', Some (if \<not> de_end e then DtmfBegin (event_to_digit (de_event e))
        else if rs_last_dtmf_end b = Some (rs_ssrc a, ts, de_event e) then NullFrame
        else DtmfEnd (event_to_digit (de_event e)) (ucast (de_duration e) div 8)))"
proof -
  let ?h = "dtmf_header a pt m sq ts"
  let ?p = "build_rtp_packet ?h (dtmf_event_to_bytes e)"
  let ?f = "if \<not> de_end e then DtmfBegin (event_to_digit (de_event e))
        else if rs_last_dtmf_end b = Some (rs_ssrc a, ts, de_event e) then NullFrame
        else DtmfEnd (event_to_digit (de_event e)) (ucast (de_duration e) div 8)"
  have mtu: "take RTP_MAX_MTU ?p = ?p"
    by (simp add: RTP_MAX_MTU_def RTP_HEADER_SIZE_def dtmf_event_to_bytes_def)
  have "\<not> is_rtcp_packet ?p" using assms(2,3) by (auto simp: is_rtcp_build dtmf_header_def)
  moreover have ph: "parse_rtp_header ?p = Inr (?h, dtmf_event_to_bytes e)" using assms(2) by (rule wf_session_headers)
  moreover have l: "locks_to src (rh_ssrc ?h) b" using assms(4) by (simp add: dtmf_header_def)
  moreover have "dtmf_payload_type b = Some (rh_payload_type ?h)" using assms(1) by (simp add: dtmf_header_def)
  moreover have "remote_addr b = None \<or> remote_addr b = Some src" using assms(4) by (simp add: locks_to_def)
  ultimately have r: "recv_datagram now ?p src b = accept_packet now src ?h (dtmf_event_to_bytes e) (Some e) b"
    using recv_datagram_dtmf [OF mtu] dtmf_event_roundtrip_aux assms(5,6) by blast
  obtain s3 where s3: "rs_last_dtmf_end s3 = rs_last_dtmf_end b"
    "accept_packet now src ?h (dtmf_event_to_bytes e) (Some e) b = map_prod id Some (case Some e of
       Some e \<Rightarrow> dtmf_frame ?h e s3 | None \<Rightarrow> voice_frame ?h (dtmf_event_to_bytes e) s3)"
    by (rule accept_packet_locks [OF l])
  define b' where "b' = fst (dtmf_frame ?h e s3)"
  have f: "dtmf_frame ?h e s3 = (b', ?f)"
    using s3(1) by (auto simp: b'_def dtmf_frame_def dtmf_header_def Let_def)
  then have acc: "accept_packet now src ?h (dtmf_event_to_bytes e) (Some e) b = (b', Some ?f)"
    using s3(2) by simp
  have last: "rs_last_dtmf_end b' = (if de_end e then Some (rs_ssrc a, ts, de_event e) else rs_last_dtmf_end b)"
    using s3(1) by (auto simp: b'_def dtmf_frame_def dtmf_header_def Let_def)
  have "locked src (rs_ssrc a) b'" "dtmf_payload_type b' = Some pt"
    using core_accept [OF acc] l assms(1)
    by (auto simp: core_def locked_def locks_to_def dtmf_header_def dtmf_payload_type_def split: option.splits if_splits)
  then show thesis using r acc last by (intro that [of b']) auto
qed

lemma unat_of_nat_u8: "n < 2 ^ 8 \<Longrightarrow> unat (of_nat n :: u8) = n"
  by (simp add: unsigned_of_nat take_bit_nat_eq_self)

lemma digit_to_event_le: "digit_to_event digit \<le> 15"
proof (cases "is_digit digit")
  case True
  then have d: "48 \<le> (of_char digit :: nat)" "(of_char digit :: nat) \<le> 57" by (simp_all add: is_digit_iff)
  have "digit_to_event digit = of_nat (of_char digit - 48)"
    using True d by (simp add: digit_to_event_def of_nat_diff of_nat_of_char)
  moreover have "unat (of_nat (of_char digit - 48) :: u8) = of_char digit - 48"
    using d by (intro unat_of_nat_u8) simp
  ultimately show ?thesis using d by (simp only: word_le_nat_alt) simp
qed (simp add: digit_to_event_def)

lemma locked_locks_to: "locked src ssrc b \<Longrightarrow> locks_to src ssrc b"
  by (simp add: locked_def locks_to_def)

definition dtmf_packets :: "rtp_session \<Rightarrow> u8 \<Rightarrow> char \<Rightarrow> u16 \<Rightarrow> u8 list list" where
  "dtmf_packets a pt digit duration =
     map (dtmf_begin_packet a pt (digit_to_event digit) (rs_sequence a) (rs_timestamp a)) [0, 1, 2]
     @ map (dtmf_end_packet a pt (digit_to_event digit) (rs_sequence a) (rs_timestamp a) duration) [0, 1, 2]"

lemma send_packets_ok:
  "\<exists>s'. send_packets remote (map (\<lambda>p. (p, None)) ps) s = (s', map (\<lambda>p. (p, remote)) ps, None) \<and>
     rs_ssrc s' = rs_ssrc s \<and> rs_timestamp s' = rs_timestamp s \<and> rs_dtmf_payload_type s' = rs_dtmf_payload_type s"
proof (induction ps arbitrary: s)
  case (Cons p ps)
  obtain s' where "send_packets remote (map (\<lambda>p. (p, None)) ps) (update_stats count_dtmf_packet s) =
      (s', map (\<lambda>p. (p, remote)) ps, None)" "rs_ssrc s' = rs_ssrc s" "rs_timestamp s' = rs_timestamp s"
      "rs_dtmf_payload_type s' = rs_dtmf_payload_type s"
    using Cons.IH [of "update_stats count_dtmf_packet s"] by auto
  then show ?case by simp
qed simp

lemma send_dtmf_ok:
  assumes "send_dtmf (\<lambda>_. None) digit duration a = (a', sent, Inr ())"
  obtains pt where "dtmf_payload_type a = Some pt" "map fst sent = dtmf_packets a pt digit duration"
    "rs_ssrc a' = rs_ssrc a" "rs_timestamp a' = rs_timestamp a" "dtmf_payload_type a' = dtmf_payload_type a"
proof -
  obtain remote pt where r: "remote_addr a = Some remote" "dtmf_payload_type a = Some pt"
    using assms by (auto simp: send_dtmf_def split: option.splits)
  let ?s1 = "a\<lparr>rs_outbound_timing := None, rs_sequence := rs_sequence a + 1\<rparr>"
  have zip: "zip (dtmf_packets a pt digit duration) (map (\<lambda>_ :: nat. None) [0..<6]) =
      map (\<lambda>p. (p, None)) (dtmf_packets a pt digit duration)"
    by (simp add: dtmf_packets_def upt_rec)
  obtain s2 where s2: "send_packets remote (map (\<lambda>p. (p, None)) (dtmf_packets a pt digit duration)) ?s1 =
      (s2, map (\<lambda>p. (p, remote)) (dtmf_packets a pt digit duration), None)"
    "rs_ssrc s2 = rs_ssrc a" "rs_timestamp s2 = rs_timestamp a" "rs_dtmf_payload_type s2 = rs_dtmf_payload_type a"
    using send_packets_ok [of remote "dtmf_packets a pt digit duration" ?s1] by auto
  have "send_dtmf (\<lambda>_. None) digit duration a =
      (update_stats (\<lambda>t. t\<lparr>st_dtmf_digits_sent := st_dtmf_digits_sent t + 1\<rparr>) (s2\<lparr>rs_sequence := rs_sequence a + 6\<rparr>),
       map (\<lambda>p. (p, remote)) (dtmf_packets a pt digit duration), Inr ())"
    unfolding send_dtmf_def r option.case Let_def dtmf_packets_def [symmetric] zip s2(1) prod.case ..
  then show thesis
    using assms r s2 by (intro that [of pt]) (auto simp: dtmf_payload_type_def comp_def)
qed

lemma recv_all_step:
  "recv_datagram now p src b = (b', Some f) \<Longrightarrow> recv_all ((now, p, src) # ds) b = (case recv_all ds b' of (s, fs) \<Rightarrow> (s, f # fs))"
  by simp

definition dtmf_key :: "rtp_session \<Rightarrow> char \<Rightarrow> u32 \<times> u32 \<times> u8" where
  "dtmf_key a digit = (rs_ssrc a, rs_timestamp a, digit_to_event digit)"

definition heard :: "char \<Rightarrow> char" where
  "heard digit = event_to_digit (digit_to_event digit)"

definition dtmf_ready :: "socket_addr \<Rightarrow> rtp_session \<Rightarrow> u8 \<Rightarrow> rtp_session \<Rightarrow> bool" where
  "dtmf_ready src a pt b \<longleftrightarrow> dtmf_payload_type b = Some pt \<and> locks_to src (rs_ssrc a) b \<and>
     pt < 128 \<and> \<not> (72 \<le> unat pt \<and> unat pt \<le> 85)"

lemma recv_dtmf_begin:
  assumes "dtmf_ready src a pt b"
  obtains b' where "dtmf_ready src a pt b'" "rs_last_dtmf_end b' = rs_last_dtmf_end b"
    "recv_datagram now (dtmf_begin_packet a pt (digit_to_event digit) (rs_sequence a) (rs_timestamp a) i) src b =
      (b', Some (DtmfBegin (heard digit)))"
proof -
  let ?e = "\<lparr>de_event = digit_to_event digit, de_end = False, de_volume = 10, de_duration = 160 * (i + 1)\<rparr>"
  have r: "dtmf_payload_type b = Some pt" "pt < 128" "\<not> ((i = 0) \<and> 72 \<le> unat pt \<and> unat pt \<le> 85)"
    "locks_to src (rs_ssrc a) b" "de_event ?e \<le> 15" "de_volume ?e < 64"
    using assms digit_to_event_le by (auto simp: dtmf_ready_def)
  show thesis
    by (rule recv_dtmf_packet [OF r], rule that)
      (use assms in \<open>simp_all add: dtmf_ready_def locked_locks_to dtmf_begin_packet_def heard_def\<close>)
qed

lemma recv_dtmf_end:
  assumes "dtmf_ready src a pt b"
  obtains b' where "dtmf_ready src a pt b'" "rs_last_dtmf_end b' = Some (dtmf_key a digit)"
    "recv_datagram now (dtmf_end_packet a pt (digit_to_event digit) (rs_sequence a) (rs_timestamp a) duration i) src b =
      (b', Some (if rs_last_dtmf_end b = Some (dtmf_key a digit) then NullFrame
                 else DtmfEnd (heard digit) (ucast duration div 8)))"
proof -
  let ?e = "\<lparr>de_event = digit_to_event digit, de_end = True, de_volume = 10, de_duration = duration\<rparr>"
  have r: "dtmf_payload_type b = Some pt" "pt < 128" "\<not> (False \<and> 72 \<le> unat pt \<and> unat pt \<le> 85)"
    "locks_to src (rs_ssrc a) b" "de_event ?e \<le> 15" "de_volume ?e < 64"
    using assms digit_to_event_le by (auto simp: dtmf_ready_def)
  show thesis
    by (rule recv_dtmf_packet [OF r, where now = now and sq = "rs_sequence a + (3 + i)" and ts = "rs_timestamp a"], rule that)
      (use assms in \<open>simp_all add: dtmf_ready_def locked_locks_to dtmf_end_packet_def heard_def dtmf_key_def\<close>)
qed

lemma recv_dtmf_packets:
  assumes b: "dtmf_ready src a pt b"
  obtains b' where "dtmf_ready src a pt b'" "rs_last_dtmf_end b' = Some (dtmf_key a digit)"
    "recv_all (map (\<lambda>p. (now, p, src)) (dtmf_packets a pt digit duration)) b =
      (b', [DtmfBegin (heard digit), DtmfBegin (heard digit), DtmfBegin (heard digit),
        if rs_last_dtmf_end b = Some (dtmf_key a digit) then NullFrame else DtmfEnd (heard digit) (ucast duration div 8),
        NullFrame, NullFrame])"
proof -
  let ?bp = "dtmf_begin_packet a pt (digit_to_event digit) (rs_sequence a) (rs_timestamp a)"
  let ?ep = "dtmf_end_packet a pt (digit_to_event digit) (rs_sequence a) (rs_timestamp a) duration"
  obtain b1 where 1: "dtmf_ready src a pt b1" "rs_last_dtmf_end b1 = rs_last_dtmf_end b"
    "recv_datagram now (?bp 0) src b = (b1, Some (DtmfBegin (heard digit)))" by (rule recv_dtmf_begin [OF b])
  obtain b2 where 2: "dtmf_ready src a pt b2" "rs_last_dtmf_end b2 = rs_last_dtmf_end b1"
    "recv_datagram now (?bp 1) src b1 = (b2, Some (DtmfBegin (heard digit)))" by (rule recv_dtmf_begin [OF 1(1)])
  obtain b3 where 3: "dtmf_ready src a pt b3" "rs_last_dtmf_end b3 = rs_last_dtmf_end b2"
    "recv_datagram now (?bp 2) src b2 = (b3, Some (DtmfBegin (heard digit)))" by (rule recv_dtmf_begin [OF 2(1)])
  obtain b4 where 4: "dtmf_ready src a pt b4" "rs_last_dtmf_end b4 = Some (dtmf_key a digit)"
    "recv_datagram now (?ep 0) src b3 = (b4, Some (if rs_last_dtmf_end b3 = Some (dtmf_key a digit) then NullFrame
       else DtmfEnd (heard digit) (ucast duration div 8)))" by (rule recv_dtmf_end [OF 3(1)])
  obtain b5 where 5: "dtmf_ready src a pt b5" "rs_last_dtmf_end b5 = Some (dtmf_key a digit)"
    "recv_datagram now (?ep 1) src b4 = (b5, Some (if rs_last_dtmf_end b4 = Some (dtmf_key a digit) then NullFrame
       else DtmfEnd (heard digit) (ucast duration div 8)))" by (rule recv_dtmf_end [OF 4(1)])
  obtain b6 where 6: "dtmf_ready src a pt b6" "rs_last_dtmf_end b6 = Some (dtmf_key a digit)"
    "recv_datagram now (?ep 2) src b5 = (b6, Some (if rs_last_dtmf_end b5 = Some (dtmf_key a digit) then NullFrame
       else DtmfEnd (heard digit) (ucast duration div 8)))" by (rule recv_dtmf_end [OF 5(1)])
  show thesis
    by (rule that [OF 6(1,2)]) (simp add: dtmf_packets_def 1(2,3) 2(2,3) 3(2,3) 4(2,3) 5(2,3) 6(3))
qed


text \<open>
  Sending the same digit twice with no voice frame in between, as for the number 11, loses the
  second digit: the timestamp is not advanced, so its end events carry the key of the first and are taken
  for repetitions.
\<close>

theorem dtmf_repeat_lost:
  assumes "send_dtmf (\<lambda>_. None) digit duration a = (a1, sent1, Inr ())"
    and "send_dtmf (\<lambda>_. None) digit duration a1 = (a2, sent2, Inr ())"
    and "dtmf_payload_type a = Some pt" "dtmf_ready src a pt b"
    and "recv_all (map (\<lambda>(p, _). (now, p, src)) sent1) b = (b1, frames1)"
  shows "snd (recv_all (map (\<lambda>(p, _). (now, p, src)) sent2) b1) =
    [DtmfBegin (heard digit), DtmfBegin (heard digit), DtmfBegin (heard digit), NullFrame, NullFrame, NullFrame]"
proof -
  have deliver: "map (\<lambda>(p, _). (now, p, src)) sent = map (\<lambda>p. (now, p, src)) (map fst sent)" for sent :: "(u8 list \<times> socket_addr) list"
    by (simp add: case_prod_beta)
  have 1: "map fst sent1 = dtmf_packets a pt digit duration" "rs_ssrc a1 = rs_ssrc a" "rs_timestamp a1 = rs_timestamp a"
      "dtmf_payload_type a1 = Some pt"
    using assms(1,3) by (auto elim: send_dtmf_ok)
  then have 2: "map fst sent2 = dtmf_packets a1 pt digit duration" using assms(2) by (auto elim: send_dtmf_ok)
  have key: "dtmf_key a1 digit = dtmf_key a digit" using 1 by (simp add: dtmf_key_def)
  obtain b' where "dtmf_ready src a pt b'" "rs_last_dtmf_end b' = Some (dtmf_key a digit)" "b1 = b'"
    using recv_dtmf_packets [OF assms(4), where digit = digit and now = now and duration = duration] assms(5) unfolding deliver 1(1) by (metis Pair_inject)
  then have ready: "dtmf_ready src a1 pt b1" and last: "rs_last_dtmf_end b1 = Some (dtmf_key a1 digit)"
    using 1 key by (simp_all add: dtmf_ready_def)
  show ?thesis unfolding deliver 2
    by (rule recv_dtmf_packets [OF ready, where digit = digit and now = now and duration = duration]) (use last in simp)
qed

lemma send_voice_ok:
  assumes "send_frame None (Voice codec samples data ms sqno st timing) s = (s', [(packet, dst)], Inr ())"
    and "rs_payload_type s < 128"
  obtains s1 sq ts where "next_timing samples timing s = (s1, sq, ts)" "s' = update_stats (count_voice_sent data) s1"
    "parse_rtp_header packet = Inr (voice_header s1 sq ts, data)"
    "rs_payload_type s1 = rs_payload_type s" "rs_ssrc s1 = rs_ssrc s"
proof -
  obtain s1 sq ts where n: "next_timing samples timing s = (s1, sq, ts)" by (cases "next_timing samples timing s")
  then have f: "rs_payload_type s1 = rs_payload_type s" "rs_ssrc s1 = rs_ssrc s"
    by (auto simp: next_timing_def Let_def split: option.splits)
  have "s' = update_stats (count_voice_sent data) s1" "packet = build_rtp_packet (voice_header s1 sq ts) data"
    using assms(1) n by (auto simp: send_frame_def split: option.splits)
  then show thesis using f assms(2) by (intro that [OF n]) (simp_all add: wf_session_headers)
qed

text \<open>
  (C33) Bridging keeps the timing of the source: two consecutive frames that carry the RTP timing of
  their source leave with the same differences of sequence numbers and timestamps, modulo the width of
  the fields, so the gaps of lost packets survive; the SSRC is the session's.
\<close>

theorem source_gaps_preserved:
  assumes "send_frame None (Voice c1 n1 d1 m1 q1 k1 (Some t1)) s = (s1, [(p1, x1)], Inr ())"
    and "send_frame None (Voice c2 n2 d2 m2 q2 k2 (Some t2)) s1 = (s2, [(p2, x2)], Inr ())"
    and "rs_payload_type s < 128"
  shows "\<exists>h1 h2. parse_rtp_header p1 = Inr (h1, d1) \<and> parse_rtp_header p2 = Inr (h2, d2) \<and>
    rh_sequence h2 - rh_sequence h1 = rt_sequence t2 - rt_sequence t1 \<and>
    rh_timestamp h2 - rh_timestamp h1 = rt_timestamp t2 - rt_timestamp t1 \<and>
    rh_ssrc h1 = rs_ssrc s \<and> rh_ssrc h2 = rs_ssrc s"
proof -
  obtain u1 sq1 ts1 where 1: "next_timing n1 (Some t1) s = (u1, sq1, ts1)" "s1 = update_stats (count_voice_sent d1) u1"
      "parse_rtp_header p1 = Inr (voice_header u1 sq1 ts1, d1)" "rs_payload_type u1 = rs_payload_type s" "rs_ssrc u1 = rs_ssrc s"
    using assms(1,3) by (rule send_voice_ok)
  have "rs_payload_type s1 < 128" using assms(3) 1 by simp
  with assms(2) obtain u2 sq2 ts2 where 2: "next_timing n2 (Some t2) s1 = (u2, sq2, ts2)"
      "parse_rtp_header p2 = Inr (voice_header u2 sq2 ts2, d2)" "rs_ssrc u2 = rs_ssrc s1"
    by (rule send_voice_ok)
  have "sq2 - sq1 = rt_sequence t2 - rt_sequence t1 \<and> ts2 - ts1 = rt_timestamp t2 - rt_timestamp t1"
    using 1(1,2) 2(1) by (auto simp: next_timing_def Let_def split: option.splits)
  then show ?thesis using 1 2 by (auto simp: voice_header_def)
qed

subsection \<open>Two sessions and an intruder\<close>

definition alice :: rtp_session where
  "alice = set_dtmf_payload_type 101 (set_remote_addr (''b'', 9) (rtp_session_from_socket 7 0))"

definition bob :: rtp_session where
  "bob = set_dtmf_payload_type 101 (rtp_session_from_socket 8 0)"

definition alice_packet :: "u8 list" where
  "alice_packet = build_rtp_packet (voice_header alice 1 2) [3]"

definition timed_voice :: "u16 \<Rightarrow> u32 \<Rightarrow> frame" where
  "timed_voice sq ts = frame_voice_with_rtp_timing 0 1 [3] sq ts"

theorem media_source_locked_witness:
  "\<exists>s1 f1 s2 fs s3 f2. recv_datagram 1 alice_packet (''a'', 9) bob = (s1, Some f1) \<and>
     recv_all [(2, alice_packet, (''x'', 9))] s1 = (s2, fs) \<and>
     recv_datagram 3 alice_packet (''a'', 9) s2 = (s3, Some f2) \<and> remote_addr s3 = Some (''a'', 9)"
proof -
  obtain s1 f1 where 1: "recv_datagram 1 alice_packet (''a'', 9) bob = (s1, f1)" by fastforce
  obtain s2 fs where 2: "recv_all [(2, alice_packet, (''x'', 9))] s1 = (s2, fs)" by fastforce
  obtain s3 f2 where 3: "recv_datagram 3 alice_packet (''a'', 9) s2 = (s3, f2)" by fastforce
  have "(case recv_datagram 1 alice_packet (''a'', 9) bob of (s1, f1) \<Rightarrow> f1 \<noteq> None \<and>
      (case recv_all [(2, alice_packet, (''x'', 9))] s1 of (s2, fs) \<Rightarrow>
        snd (recv_datagram 3 alice_packet (''a'', 9) s2) \<noteq> None))" by code_simp
  then obtain x1 x2 where f: "f1 = Some x1" "f2 = Some x2" using 1 2 3 by auto
  show ?thesis
    using media_source_locked [OF 1 [unfolded f] 2 3 [unfolded f]] 1 2 3 f by blast
qed

theorem rejected_traffic_inert_witness:
  "\<exists>s'. recv_all [(1, [0, 1], (''x'', 9)), (2, [128, 200], (''x'', 9))] alice = (s', []) \<and>
     without_discards s' = without_discards alice \<and> inbound_idle 5 s' = inbound_idle 5 alice"
proof -
  obtain s' fs where 1: "recv_all [(1, [0, 1], (''x'', 9)), (2, [128, 200], (''x'', 9))] alice = (s', fs)" by fastforce
  have "snd (recv_all [(1, [0, 1], (''x'', 9)), (2, [128, 200], (''x'', 9))] alice) = []" by code_simp
  then have "fs = []" using 1 by simp
  with 1 rejected_traffic_inert [of _ alice s' 5] show ?thesis by blast
qed

lemma send_result_cases:
  obtains s' sent where "snd (snd r) = Inr () \<Longrightarrow> r = (s', sent, Inr ())"
  by (cases r) auto

theorem voice_frame_delivered_witness:
  "\<exists>a' packet dst b'. send_frame None (timed_voice 4 5) alice = (a', [(packet, dst)], Inr ()) \<and>
     recv_datagram 1 packet (''a'', 9) bob = (b', Some (frame_voice_with_rtp_timing 0 1 [3] 0 0))"
proof -
  obtain a1 sq ts where n: "next_timing 1 (Some \<lparr>rt_sequence = 4, rt_timestamp = 5\<rparr>) alice = (a1, sq, ts)"
    using prod_cases3 by blast
  have "snd (next_timing 1 (Some \<lparr>rt_sequence = 4, rt_timestamp = 5\<rparr>) alice) = (0, 0)" by code_simp
  then have 0: "sq = 0" "ts = 0" using n by simp_all
  have "remote_addr alice = Some (''b'', 9)" by code_simp
  then have sent: "send_frame None (Voice 0 1 [3] 0 (ucast (4 :: u16)) 0 (Some \<lparr>rt_sequence = 4, rt_timestamp = 5\<rparr>)) alice =
      (update_stats (count_voice_sent [3]) a1, [(build_rtp_packet (voice_header a1 sq ts) [3], (''b'', 9))], Inr ())"
    by (simp add: send_frame_def n)
  have h: "rs_payload_type alice < 128" "rs_payload_type bob = rs_payload_type alice"
      "dtmf_payload_type bob \<noteq> Some (rs_payload_type alice)" "length [3 :: u8] \<le> RTP_MAX_MTU - RTP_HEADER_SIZE"
      "rs_payload_type alice = 0" "voice_samples 0 [3] = 1"
    by code_simp+
  have l: "locks_to (''a'', 9) (rs_ssrc alice) bob"
    by (simp add: locks_to_def remote_addr_def bob_def set_dtmf_payload_type_def rtp_session_from_socket_def rtp_stats_default_def)
  from voice_frame_delivered [OF sent n h(1-3) l h(4), of 1] show ?thesis
    using sent h(5,6) 0 by (auto simp: timed_voice_def frame_voice_with_rtp_timing_def)
qed

lemma bob_ready: "dtmf_ready (''a'', 9) alice 101 bob"
proof -
  have "dtmf_payload_type bob = Some 101" "(101 :: u8) < 128" "unat (101 :: u8) = 101" by code_simp+
  moreover have "locks_to (''a'', 9) (rs_ssrc alice) bob"
    by (simp add: locks_to_def remote_addr_def bob_def set_dtmf_payload_type_def rtp_session_from_socket_def rtp_stats_default_def)
  ultimately show ?thesis by (simp add: dtmf_ready_def)
qed


theorem dtmf_repeat_lost_witness:
  "\<exists>a1 sent1 a2 sent2. send_dtmf (\<lambda>_. None) CHR ''1'' 160 alice = (a1, sent1, Inr ()) \<and>
     send_dtmf (\<lambda>_. None) CHR ''1'' 160 a1 = (a2, sent2, Inr ()) \<and>
     snd (recv_all (map (\<lambda>(p, _). (1, p, (''a'', 9))) sent2)
       (fst (recv_all (map (\<lambda>(p, _). (1, p, (''a'', 9))) sent1) bob))) =
     [DtmfBegin CHR ''1'', DtmfBegin CHR ''1'', DtmfBegin CHR ''1'', NullFrame, NullFrame, NullFrame]"
proof -
  let ?send = "send_dtmf (\<lambda>_. None) CHR ''1'' 160"
  have ok: "snd (snd (?send alice)) = Inr ()" "snd (snd (?send (fst (?send alice)))) = Inr ()" by code_simp+
  then obtain a1 sent1 where s1: "?send alice = (a1, sent1, Inr ())" by (metis send_result_cases)
  then have "snd (snd (?send a1)) = Inr ()" using ok(2) by simp
  then obtain a2 sent2 where s2: "?send a1 = (a2, sent2, Inr ())" by (metis send_result_cases)
  obtain b1 fs where r: "recv_all (map (\<lambda>(p, _). (1, p, (''a'', 9))) sent1) bob = (b1, fs)" by fastforce
  have h: "dtmf_payload_type alice = Some 101" "heard CHR ''1'' = CHR ''1''" by code_simp+
  show ?thesis
    using dtmf_repeat_lost [OF s1 s2 h(1) bob_ready r] s1 s2 r unfolding h(2) by auto
qed

theorem source_gaps_preserved_witness:
  "\<exists>s1 p1 x1 s2 p2 x2 h1 h2. send_frame None (timed_voice 65535 5) alice = (s1, [(p1, x1)], Inr ()) \<and>
     send_frame None (timed_voice 2 485) s1 = (s2, [(p2, x2)], Inr ()) \<and>
     parse_rtp_header p1 = Inr (h1, [3]) \<and> parse_rtp_header p2 = Inr (h2, [3]) \<and>
     rh_sequence h2 - rh_sequence h1 = 3 \<and> rh_timestamp h2 - rh_timestamp h1 = 480"
proof -
  have voice: "timed_voice sq ts = Voice 0 1 [3] 0 (ucast sq) 0 (Some \<lparr>rt_sequence = sq, rt_timestamp = ts\<rparr>)" for sq ts
    by (simp add: timed_voice_def frame_voice_with_rtp_timing_def)
  have sends: "\<exists>s' p. send_frame None (timed_voice sq ts) s = (s', [(p, (''b'', 9))], Inr ()) \<and> remote_addr s' = Some (''b'', 9)"
    if "remote_addr s = Some (''b'', 9)" for s sq ts
    using that by (auto simp: voice send_frame_def next_timing_def Let_def) (simp_all add: remote_addr_def)
  have "remote_addr alice = Some (''b'', 9)" "rs_payload_type alice < 128" by code_simp+
  then obtain s1 p1 s2 p2 where 1: "send_frame None (timed_voice 65535 5) alice = (s1, [(p1, (''b'', 9))], Inr ())"
    and 2: "send_frame None (timed_voice 2 485) s1 = (s2, [(p2, (''b'', 9))], Inr ())"
    using sends by metis
  from source_gaps_preserved [OF 1 [unfolded voice] 2 [unfolded voice]] \<open>rs_payload_type alice < 128\<close> show ?thesis
    using 1 2 by auto
qed

end
