(* ===== verification/Jitter_Buffer.thy ===== *)
theory Jitter_Buffer
  imports Complex_Main Ast_Types
begin

section \<open>Jitter buffers\<close>

text \<open>
  The buffers of \<^verbatim>\<open>crates/asterisk-sip/src/rtp/jitter_buffer.rs\<close>: the fixed one, the adaptive one
  and the enhanced one that wraps it, behind the trait \<^verbatim>\<open>JitterBuffer\<close>. A
  \<^verbatim>\<open>BTreeMap\<close> is an association list with increasing keys, a \<^verbatim>\<open>Duration\<close> a number of
  nanoseconds, the \<^verbatim>\<open>f64\<close> estimates are rationals (the estimate turns out to be zero at all
  times, where the arithmetic of \<^verbatim>\<open>f64\<close> is exact). Where a \<^verbatim>\<open>u32\<close> product overflows or
  \<^verbatim>\<open>clamp\<close> meets an empty interval the code panics: \<^const>\<open>None\<close>.
\<close>

subsection \<open>Ordered maps\<close>

type_synonym ('k, 'v) btree = "('k \<times> 'v) list"

fun bt_insert :: "'k::linorder \<Rightarrow> 'v \<Rightarrow> ('k, 'v) btree \<Rightarrow> ('k, 'v) btree" where
  "bt_insert k v [] = [(k, v)]"
| "bt_insert k v ((k', v') # m) =
     (if k < k' then (k, v) # (k', v') # m
      else if k = k' then (k, v) # m else (k', v') # bt_insert k v m)"

definition bt_remove :: "'k \<Rightarrow> ('k, 'v) btree \<Rightarrow> ('k, 'v) btree" where
  "bt_remove k m = filter (\<lambda>(k', _). k' \<noteq> k) m"

definition bt_wf :: "('k::linorder, 'v) btree \<Rightarrow> bool" where
  "bt_wf m \<longleftrightarrow> sorted_wrt (<) (map fst m)"

subsection \<open>The trait\<close>

datatype jb_result = JbOk frame | PlcMarker | NotReady | JbEmpty

definition as_millis_u32 :: "nat \<Rightarrow> u32" where
  "as_millis_u32 d = of_nat (d div 1000000)"

definition mul_u32 :: "u32 \<Rightarrow> u32 \<Rightarrow> u32 option" where
  "mul_u32 a b = (if unat a * unat b < 2 ^ 32 then Some (a * b) else None)"

definition delay_samples :: "nat \<Rightarrow> u32 \<Rightarrow> u32 option" where
  "delay_samples d rate = map_option (\<lambda>p. p div 1000) (mul_u32 (as_millis_u32 d) rate)"

definition past :: "u32 \<Rightarrow> u32 \<Rightarrow> bool" where
  "past playout_ts ts \<longleftrightarrow> (let diff = playout_ts - ts in 0 < diff \<and> diff < 0x80000000)"

definition evict_oldest :: "nat \<Rightarrow> (u32, frame) btree \<Rightarrow> (u32, frame) btree" where
  "evict_oldest max_frames b =
     (if max_frames \<le> length b then (case b of (oldest, _) # _ \<Rightarrow> bt_remove oldest b | [] \<Rightarrow> b) else b)"

text \<open>
  The part of \<^verbatim>\<open>get\<close> the two buffers share: drop what is too old, then look for the frame of
  the playout timestamp, then for a frame past due. The result says whether anything was too old.
\<close>

definition too_old :: "u32 \<Rightarrow> (u32, frame) btree \<Rightarrow> u32 list" where
  "too_old playout_ts b = takeWhile (past playout_ts) (map fst b)"

definition take_due :: "u32 \<Rightarrow> (u32, frame) btree \<Rightarrow> (u32, frame) btree \<times> frame option" where
  "take_due playout_ts b =
     (let b1 = fold bt_remove (too_old playout_ts b) b
      in case map_of b1 playout_ts of
           Some f \<Rightarrow> (bt_remove playout_ts b1, Some f)
         | None \<Rightarrow>
             (case b1 of
                (key, f) # _ \<Rightarrow> if past playout_ts key then (bt_remove key b1, Some f) else (b1, None)
              | [] \<Rightarrow> (b1, None)))"

definition overdue :: "u32 \<Rightarrow> u32 \<Rightarrow> u32 option \<Rightarrow> bool" where
  "overdue target_delay timestamp first =
     (case first of
        Some ft \<Rightarrow> (let elapsed = timestamp - ft in target_delay < elapsed \<and> elapsed < 0x80000000)
      | None \<Rightarrow> False)"

subsection \<open>The fixed buffer\<close>

record fixed_jb =
  fj_buffer :: "(u32, frame) btree"
  fj_target_delay :: u32
  fj_target_delay_duration :: nat
  fj_sample_rate :: u32
  fj_first_timestamp :: "u32 option"
  fj_max_frames :: nat

definition fixed_new :: "nat \<Rightarrow> u32 \<Rightarrow> fixed_jb option" where
  "fixed_new target_delay sample_rate =
     map_option (\<lambda>d. \<lparr>fj_buffer = [], fj_target_delay = d, fj_target_delay_duration = target_delay,
       fj_sample_rate = sample_rate, fj_first_timestamp = None, fj_max_frames = 200\<rparr>)
       (delay_samples target_delay sample_rate)"

definition fixed_put :: "frame \<Rightarrow> u32 \<Rightarrow> fixed_jb \<Rightarrow> fixed_jb" where
  "fixed_put f timestamp j =
     j\<lparr>fj_first_timestamp := (if fj_first_timestamp j = None then Some timestamp else fj_first_timestamp j),
       fj_buffer := bt_insert timestamp f (evict_oldest (fj_max_frames j) (fj_buffer j))\<rparr>"

definition fixed_get :: "u32 \<Rightarrow> fixed_jb \<Rightarrow> fixed_jb \<times> jb_result" where
  "fixed_get timestamp j =
     (if fj_buffer j = [] then (j, JbEmpty)
      else let playout_ts = timestamp - fj_target_delay j
           in case take_due playout_ts (fj_buffer j) of
                (b, Some f) \<Rightarrow> (j\<lparr>fj_buffer := b\<rparr>, JbOk f)
              | (b, None) \<Rightarrow>
                  (j\<lparr>fj_buffer := b\<rparr>,
                   if (too_old playout_ts (fj_buffer j) \<noteq> [] \<or> fj_first_timestamp j \<noteq> None)
                     \<and> overdue (fj_target_delay j) timestamp (fj_first_timestamp j)
                   then PlcMarker else NotReady))"

definition fixed_reset :: "fixed_jb \<Rightarrow> fixed_jb" where
  "fixed_reset j = j\<lparr>fj_buffer := [], fj_first_timestamp := None\<rparr>"

definition fixed_target_delay_ms :: "fixed_jb \<Rightarrow> u32" where
  "fixed_target_delay_ms j = as_millis_u32 (fj_target_delay_duration j)"

definition fixed_len :: "fixed_jb \<Rightarrow> nat" where
  "fixed_len j = length (fj_buffer j)"

subsection \<open>The adaptive buffer\<close>

record adaptive_jb =
  aj_buffer :: "(u32, frame) btree"
  aj_min_delay :: u32
  aj_target_delay :: u32
  aj_max_delay :: u32
  aj_sample_rate :: u32
  aj_first_timestamp :: "u32 option"
  aj_last_arrival_ts :: "u32 option"
  aj_last_transit :: "int option"
  aj_jitter_estimate :: rat
  aj_max_jitter :: u32
  aj_frames_received :: nat
  aj_max_frames :: nat
  aj_alpha :: rat

definition adaptive_new :: "nat \<Rightarrow> nat \<Rightarrow> nat \<Rightarrow> u32 \<Rightarrow> adaptive_jb option" where
  "adaptive_new min_delay initial_delay max_delay sample_rate =
     (case (delay_samples min_delay sample_rate, delay_samples initial_delay sample_rate,
            delay_samples max_delay sample_rate) of
        (Some mn, Some target, Some mx) \<Rightarrow>
          Some \<lparr>aj_buffer = [], aj_min_delay = mn, aj_target_delay = target, aj_max_delay = mx,
            aj_sample_rate = sample_rate, aj_first_timestamp = None, aj_last_arrival_ts = None,
            aj_last_transit = None, aj_jitter_estimate = 0, aj_max_jitter = 0, aj_frames_received = 0,
            aj_max_frames = 200, aj_alpha = 1 / 16\<rparr>
      | _ \<Rightarrow> None)"

text \<open>\<^verbatim>\<open>as u32\<close> on a float truncates towards zero and saturates.\<close>

definition float_to_u32 :: "rat \<Rightarrow> u32" where
  "float_to_u32 x = of_nat (min (2 ^ 32 - 1) (nat \<lfloor>x\<rfloor>))"

definition update_jitter :: "u32 \<Rightarrow> u32 \<Rightarrow> adaptive_jb \<Rightarrow> adaptive_jb" where
  "update_jitter rtp_timestamp arrival_timestamp j =
     (let transit = uint (arrival_timestamp - rtp_timestamp);
          j1 = (case aj_last_transit j of
                  Some last_transit \<Rightarrow>
                    (let d = of_int \<bar>transit - last_transit\<bar>;
                         estimate = aj_jitter_estimate j + aj_alpha j * (d - aj_jitter_estimate j)
                     in j\<lparr>aj_jitter_estimate := estimate,
                          aj_max_jitter := max (aj_max_jitter j) (float_to_u32 estimate)\<rparr>)
                | None \<Rightarrow> j)
      in j1\<lparr>aj_last_transit := Some transit\<rparr>)"

definition clamp_u32 :: "u32 \<Rightarrow> u32 \<Rightarrow> u32 \<Rightarrow> u32 option" where
  "clamp_u32 x lo hi = (if hi < lo then None else Some (if x < lo then lo else if hi < x then hi else x))"

definition adapt_delay :: "adaptive_jb \<Rightarrow> adaptive_jb option" where
  "adapt_delay j =
     (let desired = float_to_u32 (aj_jitter_estimate j * 2)
      in case clamp_u32 desired (aj_min_delay j) (aj_max_delay j) of
           None \<Rightarrow> None
         | Some new_target \<Rightarrow>
             Some (if aj_target_delay j < new_target
                   then j\<lparr>aj_target_delay :=
                          min (aj_target_delay j + (new_target - aj_target_delay j) div 2) (aj_max_delay j)\<rparr>
                   else if new_target < aj_target_delay j
                   then let reduction = (aj_target_delay j - new_target) div 8
                        in j\<lparr>aj_target_delay := max (sat_sub (aj_target_delay j) (max reduction 1)) (aj_min_delay j)\<rparr>
                   else j))"

definition adaptive_put :: "frame \<Rightarrow> u32 \<Rightarrow> adaptive_jb \<Rightarrow> adaptive_jb option" where
  "adaptive_put f timestamp j =
     (let j1 = j\<lparr>aj_first_timestamp := (if aj_first_timestamp j = None then Some timestamp else aj_first_timestamp j),
                 aj_frames_received := aj_frames_received j + 1\<rparr>;
          j2 = (if aj_last_arrival_ts j1 \<noteq> None then update_jitter timestamp timestamp j1 else j1);
          j3 = j2\<lparr>aj_last_arrival_ts := Some timestamp\<rparr>
      in map_option (\<lambda>j4. j4\<lparr>aj_buffer := bt_insert timestamp f (evict_oldest (aj_max_frames j4) (aj_buffer j4))\<rparr>)
           (if 10 dvd aj_frames_received j3 then adapt_delay j3 else Some j3))"

definition adaptive_get :: "u32 \<Rightarrow> adaptive_jb \<Rightarrow> adaptive_jb \<times> jb_result" where
  "adaptive_get timestamp j =
     (if aj_buffer j = [] then (j, JbEmpty)
      else let playout_ts = timestamp - aj_target_delay j
           in case take_due playout_ts (aj_buffer j) of
                (b, Some f) \<Rightarrow> (j\<lparr>aj_buffer := b\<rparr>, JbOk f)
              | (b, None) \<Rightarrow>
                  (j\<lparr>aj_buffer := b\<rparr>,
                   if too_old playout_ts (aj_buffer j) \<noteq> [] then PlcMarker
                   else if overdue (aj_target_delay j) timestamp (aj_first_timestamp j) then PlcMarker
                   else NotReady))"

definition adaptive_reset :: "adaptive_jb \<Rightarrow> adaptive_jb" where
  "adaptive_reset j =
     j\<lparr>aj_buffer := [], aj_first_timestamp := None, aj_last_arrival_ts := None, aj_last_transit := None,
       aj_jitter_estimate := 0, aj_max_jitter := 0, aj_frames_received := 0\<rparr>"

definition adaptive_target_delay_ms :: "adaptive_jb \<Rightarrow> u32 option" where
  "adaptive_target_delay_ms j =
     (if aj_sample_rate j = 0 then Some 0
      else map_option (\<lambda>p. p div aj_sample_rate j) (mul_u32 (aj_target_delay j) 1000))"

definition adaptive_len :: "adaptive_jb \<Rightarrow> nat" where
  "adaptive_len j = length (aj_buffer j)"

subsection \<open>The enhanced buffer\<close>

record jb_stats =
  js_jitter_ms :: rat
  js_frames_received :: nat
  js_frames_lost :: nat
  js_late_packets :: nat
  js_buffer_size :: nat
  js_target_delay_ms :: u32
  js_peak_jitter_ms :: rat

definition jb_stats_default :: jb_stats where
  "jb_stats_default = \<lparr>js_jitter_ms = 0, js_frames_received = 0, js_frames_lost = 0, js_late_packets = 0,
     js_buffer_size = 0, js_target_delay_ms = 0, js_peak_jitter_ms = 0\<rparr>"

record enhanced_jb =
  ej_inner :: adaptive_jb
  ej_stats :: jb_stats
  ej_dtx_active :: bool
  ej_consecutive_empty :: nat
  ej_dtx_threshold :: nat
  ej_plc_enabled :: bool
  ej_max_delay_ms :: u32
  ej_min_delay_ms :: u32

definition enhanced_new :: "nat \<Rightarrow> nat \<Rightarrow> nat \<Rightarrow> u32 \<Rightarrow> enhanced_jb option" where
  "enhanced_new min_delay initial_delay max_delay sample_rate =
     map_option (\<lambda>inner. \<lparr>ej_inner = inner,
       ej_stats = jb_stats_default\<lparr>js_target_delay_ms := as_millis_u32 initial_delay\<rparr>,
       ej_dtx_active = False, ej_consecutive_empty = 0, ej_dtx_threshold = 5, ej_plc_enabled = True,
       ej_max_delay_ms = as_millis_u32 max_delay, ej_min_delay_ms = as_millis_u32 min_delay\<rparr>)
       (adaptive_new min_delay initial_delay max_delay sample_rate)"

definition set_plc_enabled :: "bool \<Rightarrow> enhanced_jb \<Rightarrow> enhanced_jb" where
  "set_plc_enabled enabled j = j\<lparr>ej_plc_enabled := enabled\<rparr>"

definition set_max_delay :: "nat \<Rightarrow> enhanced_jb \<Rightarrow> enhanced_jb" where
  "set_max_delay max_delay j = j\<lparr>ej_max_delay_ms := as_millis_u32 max_delay\<rparr>"

definition set_min_delay :: "nat \<Rightarrow> enhanced_jb \<Rightarrow> enhanced_jb" where
  "set_min_delay min_delay j = j\<lparr>ej_min_delay_ms := as_millis_u32 min_delay\<rparr>"

definition enhanced_put :: "frame \<Rightarrow> u32 \<Rightarrow> enhanced_jb \<Rightarrow> enhanced_jb option" where
  "enhanced_put f timestamp j =
     map_option (\<lambda>inner. j\<lparr>ej_inner := inner, ej_dtx_active := False, ej_consecutive_empty := 0,
       ej_stats := (ej_stats j)\<lparr>js_frames_received := js_frames_received (ej_stats j) + 1,
                     js_buffer_size := adaptive_len inner\<rparr>\<rparr>)
       (adaptive_put f timestamp (ej_inner j))"

definition count_result :: "jb_result \<Rightarrow> enhanced_jb \<Rightarrow> enhanced_jb" where
  "count_result r j =
     (case r of
        JbOk _ \<Rightarrow> j\<lparr>ej_consecutive_empty := 0, ej_dtx_active := False\<rparr>
      | PlcMarker \<Rightarrow> j\<lparr>ej_stats := (ej_stats j)\<lparr>js_frames_lost := js_frames_lost (ej_stats j) + 1\<rparr>\<rparr>
      | JbEmpty \<Rightarrow>
          (let n = ej_consecutive_empty j + 1
           in j\<lparr>ej_consecutive_empty := n, ej_dtx_active := ej_dtx_active j \<or> ej_dtx_threshold j \<le> n\<rparr>)
      | NotReady \<Rightarrow> j)"

definition enhanced_get :: "u32 \<Rightarrow> enhanced_jb \<Rightarrow> (enhanced_jb \<times> jb_result) option" where
  "enhanced_get timestamp j =
     (case adaptive_get timestamp (ej_inner j) of
        (inner, r) \<Rightarrow>
          (let j1 = count_result r (j\<lparr>ej_inner := inner\<rparr>);
               rate = of_nat (max (unat (aj_sample_rate inner)) 1)
           in map_option (\<lambda>delay. (j1\<lparr>ej_stats := (ej_stats j1)\<lparr>js_buffer_size := adaptive_len inner,
                js_target_delay_ms := delay, js_jitter_ms := aj_jitter_estimate inner * 1000 / rate,
                js_peak_jitter_ms := of_nat (unat (aj_max_jitter inner)) * 1000 / rate\<rparr>\<rparr>, r))
                (adaptive_target_delay_ms inner)))"

definition enhanced_reset :: "enhanced_jb \<Rightarrow> enhanced_jb" where
  "enhanced_reset j =
     j\<lparr>ej_inner := adaptive_reset (ej_inner j), ej_stats := jb_stats_default, ej_dtx_active := False,
       ej_consecutive_empty := 0\<rparr>"

definition enhanced_len :: "enhanced_jb \<Rightarrow> nat" where
  "enhanced_len j = adaptive_len (ej_inner j)"

subsection \<open>Ordered maps: laws\<close>

lemma set_bt_insert: "set (bt_insert k v m) \<subseteq> insert (k, v) (set m)"
  by (induction m) (auto split: if_splits)

lemma fst_bt_insert: "fst ` set (bt_insert k v m) = insert k (fst ` set m)"
  by (induction k v m rule: bt_insert.induct) (simp_all add: insert_commute)

lemma bt_wf_Cons: "bt_wf ((k, v) # m) \<longleftrightarrow> bt_wf m \<and> (\<forall>k' \<in> fst ` set m. k < k')"
  by (auto simp: bt_wf_def)

lemma bt_wf_insert: "bt_wf m \<Longrightarrow> bt_wf (bt_insert k v m)"
  by (induction m) (auto simp: bt_wf_Cons fst_bt_insert, auto simp: bt_wf_def)

lemma map_of_bt_insert: "map_of (bt_insert k v m) k = Some v"
  by (induction m) auto

lemma bt_wf_remove: "bt_wf m \<Longrightarrow> bt_wf (bt_remove k m)"
  by (induction m) (auto simp: bt_remove_def bt_wf_Cons)

lemma set_bt_remove: "set (bt_remove k m) = {(k', v). (k', v) \<in> set m \<and> k' \<noteq> k}"
  by (auto simp: bt_remove_def)

lemma map_of_bt_remove: "map_of (bt_remove k m) k' = (if k' = k then None else map_of m k')"
  by (induction m) (auto simp: bt_remove_def)

lemma length_bt_remove: "length (bt_remove k m) \<le> length m"
  by (simp add: bt_remove_def)

lemma length_bt_insert: "length (bt_insert k v m) \<le> Suc (length m)"
  by (induction m) auto

lemma bt_remove_head: "bt_wf ((k, v) # m) \<Longrightarrow> bt_remove k ((k, v) # m) = m"
  by (auto simp: bt_remove_def bt_wf_Cons filter_id_conv)

lemma fold_bt_remove_prefix:
  "bt_wf m \<Longrightarrow> fold bt_remove (takeWhile P (map fst m)) m = dropWhile (P \<circ> fst) m"
proof (induction m)
  case (Cons x m)
  obtain k v where x: "x = (k, v)" by (cases x)
  with Cons show ?case using bt_remove_head [of k v m] by (simp add: bt_wf_Cons)
qed simp

lemma bt_wf_dropWhile: "bt_wf m \<Longrightarrow> bt_wf (dropWhile P m)"
  by (induction m) (auto simp: bt_wf_Cons)

text \<open>
  The branch for frames past due is never taken: what remains after the frames too old were dropped
  does not start with one. A frame is released exactly at its playout timestamp.
\<close>

lemma take_due_exact:
  assumes "bt_wf b"
  shows "take_due p b = (bt_remove p (dropWhile (past p \<circ> fst) b), map_of b p)"
proof -
  let ?b1 = "dropWhile (past p \<circ> fst) b"
  have b1: "fold bt_remove (too_old p b) b = ?b1"
    unfolding too_old_def by (rule fold_bt_remove_prefix [OF assms])
  have np: "\<not> past p p" by (simp add: past_def)
  have m: "map_of ?b1 p = map_of b p"
    using np by (induction b) auto
  have hd: "\<not> past p k" if "?b1 = (k, f) # r" for k f r
    using hd_dropWhile [of "past p \<circ> fst" b] that by simp
  have keep: "bt_remove p ?b1 = ?b1" if "map_of ?b1 p = None"
    using that by (force simp: bt_remove_def filter_id_conv map_of_eq_None_iff)
  show ?thesis
    using hd keep by (auto simp: take_due_def b1 m [symmetric] Let_def split: option.split list.split)
qed

subsection \<open>Runs of a buffer\<close>

text \<open>
  A run of the trait's operations with the log of its gets: the timestamp asked for, the target
  delay at that moment and the answer.
\<close>

datatype jb_op = Put frame u32 | Get u32 | Reset

type_synonym jb_log = "(u32 \<times> u32 \<times> jb_result) list"

fun jb_run :: "(frame \<Rightarrow> u32 \<Rightarrow> 's \<Rightarrow> 's option) \<Rightarrow> (u32 \<Rightarrow> 's \<Rightarrow> ('s \<times> jb_result) option) \<Rightarrow> ('s \<Rightarrow> 's) \<Rightarrow>
    ('s \<Rightarrow> u32) \<Rightarrow> jb_op list \<Rightarrow> 's \<Rightarrow> ('s \<times> jb_log) option" where
  "jb_run put get reset delay [] s = Some (s, [])"
| "jb_run put get reset delay (Put f ts # ops) s =
     (case put f ts s of None \<Rightarrow> None | Some s' \<Rightarrow> jb_run put get reset delay ops s')"
| "jb_run put get reset delay (Get t # ops) s =
     (case get t s of
        None \<Rightarrow> None
      | Some (s', r) \<Rightarrow> map_option (\<lambda>(s2, lg). (s2, (t, delay s, r) # lg)) (jb_run put get reset delay ops s'))"
| "jb_run put get reset delay (Reset # ops) s = jb_run put get reset delay ops (reset s)"

definition answered :: "jb_result \<Rightarrow> frame option" where
  "answered r = (case r of JbOk f \<Rightarrow> Some f | _ \<Rightarrow> None)"

locale jitter_buffer =
  fixes put :: "frame \<Rightarrow> u32 \<Rightarrow> 's \<Rightarrow> 's option"
    and get :: "u32 \<Rightarrow> 's \<Rightarrow> ('s \<times> jb_result) option"
    and reset :: "'s \<Rightarrow> 's"
    and delay :: "'s \<Rightarrow> u32"
    and content :: "'s \<Rightarrow> (u32, frame) btree"
    and ok :: "'s \<Rightarrow> bool"
  assumes put_ok: "ok s \<Longrightarrow> put f ts s = Some s' \<Longrightarrow>
      ok s' \<and> content s' = bt_insert ts f (evict_oldest 200 (content s))"
    and get_ok: "ok s \<Longrightarrow> get t s = Some (s', r) \<Longrightarrow>
      ok s' \<and> (if content s = [] then content s' = [] \<and> answered r = None
               else take_due (t - delay s) (content s) = (content s', answered r))"
    and reset_ok: "ok s \<Longrightarrow> ok (reset s) \<and> content (reset s) = []"
begin

definition bounded :: "'s \<Rightarrow> bool" where
  "bounded s \<longleftrightarrow> ok s \<and> bt_wf (content s) \<and> length (content s) \<le> 200"

lemma length_evict: "bt_wf b \<Longrightarrow> length b \<le> 200 \<Longrightarrow> length (evict_oldest 200 b) < 200"
  using bt_remove_head by (fastforce simp: evict_oldest_def split: list.split prod.split)

lemma bt_wf_evict: "bt_wf b \<Longrightarrow> bt_wf (evict_oldest n b)"
  by (auto simp: evict_oldest_def bt_wf_remove split: list.split)

lemma set_evict: "set (evict_oldest n b) \<subseteq> set b"
  by (auto simp: evict_oldest_def set_bt_remove split: list.splits)

lemma bounded_put: "bounded s \<Longrightarrow> put f ts s = Some s' \<Longrightarrow> bounded s' \<and> set (content s') \<subseteq> insert (ts, f) (set (content s))"
  using put_ok [of s f ts s'] length_evict [of "content s"] bt_wf_evict [of "content s" 200]
    length_bt_insert [of ts f "evict_oldest 200 (content s)"] set_bt_insert [of ts f "evict_oldest 200 (content s)"]
    set_evict [of 200 "content s"]
  by (auto simp: bounded_def bt_wf_insert)

lemma bounded_get:
  assumes "bounded s" "get t s = Some (s', r)"
  shows "bounded s' \<and> set (content s') \<subseteq> set (content s) \<and>
    (\<forall>f. r = JbOk f \<longrightarrow> (t - delay s, f) \<in> set (content s) \<and> t - delay s \<notin> fst ` set (content s'))"
proof (cases "content s = []")
  case True
  then show ?thesis using assms get_ok [of s t s' r] by (auto simp: bounded_def answered_def bt_wf_def)
next
  case False
  let ?p = "t - delay s"
  let ?b1 = "dropWhile (past ?p \<circ> fst) (content s)"
  have c: "content s' = bt_remove ?p ?b1" "answered r = map_of (content s) ?p" and o: "ok s'"
    using False assms get_ok [of s t s' r] take_due_exact [of "content s" ?p] by (auto simp: bounded_def)
  have "set (content s') \<subseteq> set (content s)" unfolding c using set_dropWhileD by (fastforce simp: set_bt_remove)
  moreover have "bt_wf (content s')" using assms(1) by (simp add: c bounded_def bt_wf_dropWhile bt_wf_remove)
  moreover have "length (content s') \<le> 200"
    using assms(1) length_bt_remove [of ?p ?b1] length_dropWhile_le [of "past ?p \<circ> fst" "content s"]
    by (simp add: c bounded_def)
  ultimately show ?thesis
    using o c by (auto simp: bounded_def answered_def set_bt_remove dest!: sym [of "Some _"] map_of_SomeD)
qed

lemma bounded_reset: "bounded s \<Longrightarrow> bounded (reset s) \<and> content (reset s) = []"
  using reset_ok by (auto simp: bounded_def bt_wf_def)

lemma run_releases:
  "bounded s \<Longrightarrow> jb_run put get reset delay ops s = Some (s', lg) \<Longrightarrow>
   bounded s' \<and> (\<forall>t d f. (t, d, JbOk f) \<in> set lg \<longrightarrow> (t - d, f) \<in> set (content s) \<or> Put f (t - d) \<in> set ops)"
proof (induction ops arbitrary: s lg)
  case (Cons op ops)
  show ?case
  proof (cases op)
    case (Put f ts)
    then obtain s1 where 1: "put f ts s = Some s1" "jb_run put get reset delay ops s1 = Some (s', lg)"
      using Cons.prems by (auto split: option.splits)
    then show ?thesis using Cons.IH [OF _ 1(2)] bounded_put [OF Cons.prems(1) 1(1)] Put by fastforce
  next
    case (Get t)
    then obtain s1 r lg1 where 1: "get t s = Some (s1, r)" "jb_run put get reset delay ops s1 = Some (s', lg1)"
        "lg = (t, delay s, r) # lg1"
      using Cons.prems by (auto split: option.splits prod.splits)
    then show ?thesis using Cons.IH [OF _ 1(2)] bounded_get [OF Cons.prems(1) 1(1)] Get by fastforce
  next
    case Reset
    then show ?thesis using Cons.IH [of "reset s" lg] bounded_reset [OF Cons.prems(1)] Cons.prems(2) by auto
  qed
qed auto

lemma run_bounded:
  "bounded s \<Longrightarrow> jb_run put get reset delay ops s = Some (s', lg) \<Longrightarrow> length (content s') \<le> 200"
  using run_releases [of s ops s' lg] by (simp add: bounded_def)

end

text \<open>The three buffers implement the trait; the fixed one never panics once it was built.\<close>

definition fixed_ok :: "fixed_jb \<Rightarrow> bool" where
  "fixed_ok j \<longleftrightarrow> fj_max_frames j = 200"

definition adaptive_ok :: "adaptive_jb \<Rightarrow> bool" where
  "adaptive_ok j \<longleftrightarrow> aj_max_frames j = 200"

interpretation fj: jitter_buffer "\<lambda>f ts j. Some (fixed_put f ts j)" "\<lambda>t j. Some (fixed_get t j)" fixed_reset
  fj_target_delay fj_buffer fixed_ok
  by unfold_locales
    (auto simp: fixed_put_def fixed_get_def fixed_reset_def fixed_ok_def answered_def Let_def
      split: if_splits option.splits prod.splits)

lemma adapt_delay_fields:
  "adapt_delay j = Some j' \<Longrightarrow> aj_buffer j' = aj_buffer j \<and> aj_max_frames j' = aj_max_frames j \<and>
     aj_jitter_estimate j' = aj_jitter_estimate j \<and> aj_max_jitter j' = aj_max_jitter j \<and>
     aj_min_delay j' = aj_min_delay j \<and> aj_max_delay j' = aj_max_delay j \<and>
     aj_last_transit j' = aj_last_transit j \<and> aj_alpha j' = aj_alpha j"
  by (auto simp: adapt_delay_def Let_def split: option.splits if_splits)

lemma update_jitter_fields [simp]:
  "aj_buffer (update_jitter a b j) = aj_buffer j" "aj_max_frames (update_jitter a b j) = aj_max_frames j"
  "aj_min_delay (update_jitter a b j) = aj_min_delay j" "aj_max_delay (update_jitter a b j) = aj_max_delay j"
  "aj_target_delay (update_jitter a b j) = aj_target_delay j"
  "aj_frames_received (update_jitter a b j) = aj_frames_received j"
  by (simp_all add: update_jitter_def Let_def split: option.split)

lemma adaptive_put_content:
  "adaptive_ok j \<Longrightarrow> adaptive_put f ts j = Some j' \<Longrightarrow>
   adaptive_ok j' \<and> aj_buffer j' = bt_insert ts f (evict_oldest 200 (aj_buffer j))"
  by (auto simp: adaptive_put_def adaptive_ok_def Let_def dest!: adapt_delay_fields split: if_splits)

lemma adaptive_get_content:
  "adaptive_ok j \<Longrightarrow> adaptive_get t j = (j', r) \<Longrightarrow>
   adaptive_ok j' \<and> (if aj_buffer j = [] then aj_buffer j' = [] \<and> answered r = None
     else take_due (t - aj_target_delay j) (aj_buffer j) = (aj_buffer j', answered r))"
  by (auto simp: adaptive_get_def adaptive_ok_def answered_def Let_def split: if_splits option.splits prod.splits)

interpretation aj: jitter_buffer adaptive_put "\<lambda>t j. Some (adaptive_get t j)" adaptive_reset
  aj_target_delay aj_buffer adaptive_ok
proof unfold_locales
  fix t s s' r assume "adaptive_ok s" "Some (adaptive_get t s) = Some (s', r)"
  then show "adaptive_ok s' \<and> (if aj_buffer s = [] then aj_buffer s' = [] \<and> answered r = None
     else take_due (t - aj_target_delay s) (aj_buffer s) = (aj_buffer s', answered r))"
    by (intro adaptive_get_content) simp_all
qed (auto simp: adaptive_put_content, auto simp: adaptive_reset_def adaptive_ok_def)

lemma count_result_inner [simp]: "ej_inner (count_result r j) = ej_inner j"
  by (simp add: count_result_def Let_def split: jb_result.split)

interpretation ej: jitter_buffer enhanced_put enhanced_get enhanced_reset
  "\<lambda>j. aj_target_delay (ej_inner j)" "\<lambda>j. aj_buffer (ej_inner j)" "\<lambda>j. adaptive_ok (ej_inner j)"
proof unfold_locales
  fix t s s' r assume "adaptive_ok (ej_inner s)" "enhanced_get t s = Some (s', r)"
  moreover from this have "adaptive_get t (ej_inner s) = (ej_inner s', r)"
    by (auto simp: enhanced_get_def Let_def split: prod.splits)
  ultimately show "adaptive_ok (ej_inner s') \<and> (if aj_buffer (ej_inner s) = []
      then aj_buffer (ej_inner s') = [] \<and> answered r = None
      else take_due (t - aj_target_delay (ej_inner s)) (aj_buffer (ej_inner s)) = (aj_buffer (ej_inner s'), answered r))"
    by (intro adaptive_get_content)
qed (auto simp: enhanced_put_def adaptive_put_content, auto simp: enhanced_reset_def adaptive_reset_def adaptive_ok_def)

subsection \<open>The fixed buffer holds frames for its delay\<close>

definition fixed_run :: "jb_op list \<Rightarrow> fixed_jb \<Rightarrow> (fixed_jb \<times> jb_log) option" where
  "fixed_run = jb_run (\<lambda>f ts j. Some (fixed_put f ts j)) (\<lambda>t j. Some (fixed_get t j)) fixed_reset fj_target_delay"

lemma fixed_new_bounded: "fixed_new d rate = Some j \<Longrightarrow> fj.bounded j \<and> fj_buffer j = []"
  by (auto simp: fixed_new_def fj.bounded_def fixed_ok_def bt_wf_def)

lemma fixed_run_simps [simp]:
  "fixed_run [] j = Some (j, [])"
  "fixed_run (Put f ts # ops) j = fixed_run ops (fixed_put f ts j)"
  "fixed_run (Get t # ops) j = map_option (\<lambda>(j2, lg). (j2, (t, fj_target_delay j, snd (fixed_get t j)) # lg))
     (fixed_run ops (fst (fixed_get t j)))"
  "fixed_run (Reset # ops) j = fixed_run ops (fixed_reset j)"
  by (simp_all add: fixed_run_def case_prod_beta)

lemma fixed_run_total: "\<exists>j' lg. fixed_run ops j = Some (j', lg)"
proof (induction ops arbitrary: j)
  case (Cons op ops)
  show ?case
  proof (cases op)
    case (Get t)
    obtain j' lg where "fixed_run ops (fst (fixed_get t j)) = Some (j', lg)" using Cons.IH by blast
    then show ?thesis by (simp add: Get)
  qed (simp_all add: Cons.IH)
qed simp

lemma fixed_delay_kept:
  "fj_target_delay (fixed_put f ts j) = fj_target_delay j" "fj_target_delay (fixed_reset j) = fj_target_delay j"
  "fj_target_delay (fst (fixed_get t j)) = fj_target_delay j"
  by (simp_all add: fixed_put_def fixed_reset_def fixed_get_def Let_def split: option.split prod.split)

lemma fixed_run_delay:
  "fixed_run ops j = Some (j', lg) \<Longrightarrow> \<forall>(t, d, r) \<in> set lg. d = fj_target_delay j"
proof (induction ops arbitrary: j lg)
  case (Cons op ops)
  show ?case
  proof (cases op)
    case (Put f ts)
    then show ?thesis using Cons.prems Cons.IH [of "fixed_put f ts j" lg] by (simp add: fixed_delay_kept)
  next
    case (Get t)
    then obtain lg1 where "fixed_run ops (fst (fixed_get t j)) = Some (j', lg1)"
        "lg = (t, fj_target_delay j, snd (fixed_get t j)) # lg1" using Cons.prems by auto
    then show ?thesis using Cons.IH [of "fst (fixed_get t j)" lg1] by (simp add: fixed_delay_kept)
  next
    case Reset
    then show ?thesis using Cons.prems Cons.IH [of "fixed_reset j" lg] by (simp add: fixed_delay_kept)
  qed
qed simp


text \<open>
  (C34) A frame can be played back: after it was put, asking for its timestamp plus the target
  delay returns it, across the wrap-around of timestamps, whatever the buffer held.
\<close>

theorem fixed_put_get:
  assumes "fixed_new d rate = Some j0" "fixed_run ops j0 = Some (j, lg)"
  shows "snd (fixed_get (ts + fj_target_delay j) (fixed_put f ts j)) = JbOk f"
proof -
  have b: "fj.bounded j"
    using fj.run_releases [of j0 ops j lg] fixed_new_bounded [OF assms(1)] assms(2) by (simp add: fixed_run_def)
  then have wf: "bt_wf (fj_buffer (fixed_put f ts j))"
    using fj.bounded_put [of j f ts "fixed_put f ts j"] by (simp add: fj.bounded_def)
  have c: "fj_buffer (fixed_put f ts j) = bt_insert ts f (evict_oldest (fj_max_frames j) (fj_buffer j))"
      "fj_target_delay (fixed_put f ts j) = fj_target_delay j"
    by (simp_all add: fixed_put_def)
  have m: "map_of (fj_buffer (fixed_put f ts j)) ts = Some f" by (simp add: c map_of_bt_insert)
  then have "fj_buffer (fixed_put f ts j) \<noteq> []" by auto
  then show ?thesis
    by (simp add: fixed_get_def c(2) take_due_exact [OF wf] m)
qed

subsection \<open>The adaptive buffer does not adapt\<close>

definition adaptive_run :: "jb_op list \<Rightarrow> adaptive_jb \<Rightarrow> (adaptive_jb \<times> jb_log) option" where
  "adaptive_run = jb_run adaptive_put (\<lambda>t j. Some (adaptive_get t j)) adaptive_reset aj_target_delay"

definition unadapted :: "u32 \<Rightarrow> u32 \<Rightarrow> adaptive_jb \<Rightarrow> bool" where
  "unadapted mn bound j \<longleftrightarrow> aj_jitter_estimate j = 0 \<and> aj_max_jitter j = 0 \<and> aj_last_transit j \<in> {None, Some 0} \<and>
     aj_min_delay j = mn \<and> aj_target_delay j \<le> bound"

lemma float_to_u32_zero [simp]: "float_to_u32 0 = 0"
  by (simp add: float_to_u32_def)

lemma unadapted_update_jitter: "unadapted mn bound j \<Longrightarrow> unadapted mn bound (update_jitter ts ts j)"
  by (auto simp: unadapted_def update_jitter_def Let_def split: option.splits)

lemma halfway_le:
  assumes "t < m"
  shows "t + (m - t) div 2 \<le> (m :: u32)"
proof -
  have d: "unat ((m - t) div 2) = (unat m - unat t) div 2"
    using assms by (simp add: unat_div unat_sub order_less_imp_le)
  have "unat t < unat m" "unat m < 2 ^ 32"
    using assms unsigned_less [of m, where ?'a = nat] by (simp_all add: word_less_nat_alt)
  then have "unat t + unat ((m - t) div 2) < 2 ^ 32" "unat t + unat ((m - t) div 2) \<le> unat m"
    unfolding d by linarith+
  then show ?thesis by (simp add: word_le_nat_alt unat_word_ariths)
qed

lemma unadapted_adapt_delay:
  assumes "unadapted mn bound j" "mn \<le> bound" "adapt_delay j = Some j'"
  shows "unadapted mn bound j'"
proof -
  have "clamp_u32 0 mn (aj_max_delay j) = Some new_target \<Longrightarrow> new_target = mn" for new_target
    by (auto simp: clamp_u32_def word_gt_0 split: if_splits)
  then have "aj_target_delay j' = (if aj_target_delay j < mn then
        min (aj_target_delay j + (mn - aj_target_delay j) div 2) (aj_max_delay j)
      else if mn < aj_target_delay j then
        max (sat_sub (aj_target_delay j) (max ((aj_target_delay j - mn) div 8) 1)) mn
      else aj_target_delay j)"
    using assms by (auto simp: adapt_delay_def unadapted_def Let_def split: option.splits)
  moreover have "sat_sub a b \<le> a" for a b :: u32 by (simp add: word_le_nat_alt unat_sat_sub)
  ultimately have "aj_target_delay j' \<le> bound"
    using assms(1,2) halfway_le [of "aj_target_delay j" mn]
    by (auto simp: unadapted_def min_def max_def split: if_splits intro: order_trans)
  then show ?thesis using assms(1) adapt_delay_fields [OF assms(3)] by (auto simp: unadapted_def)
qed

lemma unadapted_put:
  assumes "unadapted mn bound j" "mn \<le> bound" "adaptive_put f ts j = Some j'"
  shows "unadapted mn bound j'"
proof -
  define j1 where "j1 = j\<lparr>aj_first_timestamp := (if aj_first_timestamp j = None then Some ts else aj_first_timestamp j),
      aj_frames_received := aj_frames_received j + 1\<rparr>"
  define j3 where "j3 = (if aj_last_arrival_ts j1 \<noteq> None then update_jitter ts ts j1 else j1)\<lparr>aj_last_arrival_ts := Some ts\<rparr>"
  have "unadapted mn bound j1" using assms(1) by (simp add: j1_def unadapted_def)
  then have "unadapted mn bound (if aj_last_arrival_ts j1 \<noteq> None then update_jitter ts ts j1 else j1)"
    using unadapted_update_jitter by simp
  then have u3: "unadapted mn bound j3" by (simp add: j3_def unadapted_def)
  obtain j4 where j4: "(if 10 dvd aj_frames_received j3 then adapt_delay j3 else Some j3) = Some j4"
      "j' = j4\<lparr>aj_buffer := bt_insert ts f (evict_oldest (aj_max_frames j4) (aj_buffer j4))\<rparr>"
    using assms(3) unfolding adaptive_put_def Let_def j1_def [symmetric] j3_def [symmetric] by auto
  then have "unadapted mn bound j4"
    using u3 unadapted_adapt_delay [OF u3 assms(2)] by (auto split: if_splits)
  then show ?thesis by (simp add: j4(2) unadapted_def)
qed

lemma unadapted_run:
  "unadapted mn bound j \<Longrightarrow> mn \<le> bound \<Longrightarrow> adaptive_run ops j = Some (j', lg) \<Longrightarrow> unadapted mn bound j'"
proof (induction ops arbitrary: j lg)
  case (Cons op ops)
  show ?case
  proof (cases op)
    case (Put f ts)
    then obtain j1 where "adaptive_put f ts j = Some j1" "adaptive_run ops j1 = Some (j', lg)"
      using Cons.prems(3) by (auto simp: adaptive_run_def split: option.splits)
    then show ?thesis using Cons unadapted_put by blast
  next
    case (Get t)
    then obtain j1 r lg1 where g: "adaptive_get t j = (j1, r)" "adaptive_run ops j1 = Some (j', lg1)"
      using Cons.prems(3) by (auto simp: adaptive_run_def split: prod.splits)
    then have "unadapted mn bound j1"
      using Cons.prems(1) by (auto simp: adaptive_get_def unadapted_def Let_def split: if_splits option.splits prod.splits)
    then show ?thesis using Cons g by blast
  next
    case Reset
    have "unadapted mn bound (adaptive_reset j)" using Cons.prems(1) by (simp add: adaptive_reset_def unadapted_def)
    then show ?thesis using Cons Reset by (simp add: adaptive_run_def)
  qed
qed (simp add: adaptive_run_def)

text \<open>
  The adaptive buffer never adapts to jitter: it takes the RTP timestamp for the arrival time, so
  over any run its jitter estimate and its peak stay zero and the delay never rises above the larger
  of the initial and the minimal delay.
\<close>

theorem adaptive_never_adapts:
  assumes "adaptive_new min_delay initial_delay max_delay rate = Some j0"
    and "adaptive_run ops j0 = Some (j, lg)"
  shows "aj_jitter_estimate j = 0 \<and> aj_max_jitter j = 0 \<and>
    aj_target_delay j \<le> max (aj_target_delay j0) (aj_min_delay j0)"
proof -
  have "unadapted (aj_min_delay j0) (max (aj_target_delay j0) (aj_min_delay j0)) j0"
    using assms(1) by (auto simp: adaptive_new_def unadapted_def split: option.splits)
  then have "unadapted (aj_min_delay j0) (max (aj_target_delay j0) (aj_min_delay j0)) j"
    using assms(2) by (rule unadapted_run [OF _ max.cobounded2])
  then show ?thesis by (simp add: unadapted_def)
qed

lemma sample_fixed_new:
  "fixed_new 1000000 8000 = Some \<lparr>fj_buffer = [], fj_target_delay = 8, fj_target_delay_duration = 1000000,
     fj_sample_rate = 8000, fj_first_timestamp = None, fj_max_frames = 200\<rparr>"
  by (simp add: fixed_new_def delay_samples_def mul_u32_def as_millis_u32_def)


theorem fixed_put_get_witness:
  "\<exists>j0 j lg. fixed_new 1000000 8000 = Some j0 \<and> fixed_run [Put NullFrame 4] j0 = Some (j, lg) \<and>
     snd (fixed_get (0xFFFFFFFF + fj_target_delay j) (fixed_put (DtmfBegin CHR ''1'') 0xFFFFFFFF j)) = JbOk (DtmfBegin CHR ''1'')"
proof -
  obtain j lg where r: "fixed_run [Put NullFrame 4] \<lparr>fj_buffer = [], fj_target_delay = 8,
      fj_target_delay_duration = 1000000, fj_sample_rate = 8000, fj_first_timestamp = None, fj_max_frames = 200\<rparr> = Some (j, lg)"
    using fixed_run_total by blast
  then show ?thesis using fixed_put_get [OF sample_fixed_new r] sample_fixed_new by blast
qed

lemma adaptive_put_between:
  "\<not> 10 dvd aj_frames_received j + 1 \<Longrightarrow>
   \<exists>j'. adaptive_put f ts j = Some j' \<and> aj_frames_received j' = aj_frames_received j + 1"
  by (simp add: adaptive_put_def Let_def)

theorem adaptive_never_adapts_witness:
  "\<exists>j0 j lg. adaptive_new 1000000 2000000 4000000 8000 = Some j0 \<and>
     adaptive_run [Put NullFrame 4, Put NullFrame 999, Get 12] j0 = Some (j, lg) \<and>
     aj_jitter_estimate j = 0 \<and> aj_target_delay j \<le> 16"
proof -
  obtain j0 where j0: "adaptive_new 1000000 2000000 4000000 8000 = Some j0" "aj_frames_received j0 = 0"
      "max (aj_target_delay j0) (aj_min_delay j0) = 16"
    by (simp add: adaptive_new_def delay_samples_def mul_u32_def as_millis_u32_def)
  obtain j1 where j1: "adaptive_put NullFrame 4 j0 = Some j1" "aj_frames_received j1 = 1"
    using adaptive_put_between [of j0 NullFrame 4] j0(2) by auto
  have "\<not> (10 :: nat) dvd 1 + 1" by presburger
  then obtain j2 where j2: "adaptive_put NullFrame 999 j1 = Some j2"
    using adaptive_put_between [of j1 NullFrame 999, unfolded j1(2)] by blast
  obtain j lg where r: "adaptive_run [Put NullFrame 4, Put NullFrame 999, Get 12] j0 = Some (j, lg)"
    by (cases "adaptive_get 12 j2") (simp add: adaptive_run_def j1 j2)
  show ?thesis using adaptive_never_adapts [OF j0(1) r] j0 r by auto
qed

end
