(* ===== verification/Bridge_Features.thy ===== *)
theory Bridge_Features
  imports Ast_Types
begin

section \<open>In-call features\<close>

text \<open>
  The DTMF feature engine of a bridge, \<^verbatim>\<open>crates/asterisk-core/src/bridge/builtin_features.rs\<close>, and the
  per-channel operations of \<^verbatim>\<open>bridge_channel.rs\<close>. The handlers behind the feature actions only log
  in the code and have no model.
\<close>

subsection \<open>The feature engine\<close>

datatype feature_activation = FA_Caller | FA_Callee | FA_Both

datatype feature_action =
    BlindTransfer | AttendedTransfer | Disconnect | ParkCall | AutoMixMonitor | AutoMonitor

record dtmf_feature =
  df_code :: string
  df_name :: string
  df_activate_on :: feature_activation
  df_action :: feature_action

record features_config =
  fc_blind_transfer_code :: string
  fc_attended_transfer_code :: string
  fc_disconnect_code :: string
  fc_park_code :: string
  fc_automixmon_code :: string
  fc_automon_code :: string
  fc_feature_digit_timeout_ms :: nat

definition features_config_default :: features_config where
  "features_config_default = \<lparr>fc_blind_transfer_code = ''#'', fc_attended_transfer_code = ''*'',
     fc_disconnect_code = [], fc_park_code = [], fc_automixmon_code = [], fc_automon_code = [],
     fc_feature_digit_timeout_ms = 1000\<rparr>"

datatype dtmf_feature_result = PassThrough | Collecting | Triggered feature_action | FeatureTimeout

record builtin_features =
  bf_config :: features_config
  bf_features :: "dtmf_feature list"
  bf_digit_buffers :: "(string, string) hashmap"

definition feature_unless_empty :: "string \<Rightarrow> string \<Rightarrow> feature_activation \<Rightarrow> feature_action \<Rightarrow> dtmf_feature list" where
  "feature_unless_empty code name on action =
     (if code = [] then [] else [\<lparr>df_code = code, df_name = name, df_activate_on = on, df_action = action\<rparr>])"

definition build_feature_list :: "features_config \<Rightarrow> dtmf_feature list" where
  "build_feature_list c =
     feature_unless_empty (fc_blind_transfer_code c) ''Blind Transfer'' FA_Both BlindTransfer
     @ feature_unless_empty (fc_attended_transfer_code c) ''Attended Transfer'' FA_Both AttendedTransfer
     @ feature_unless_empty (fc_disconnect_code c) ''Disconnect'' FA_Both Disconnect
     @ feature_unless_empty (fc_park_code c) ''Park Call'' FA_Caller ParkCall
     @ feature_unless_empty (fc_automixmon_code c) ''Auto MixMonitor'' FA_Both AutoMixMonitor
     @ feature_unless_empty (fc_automon_code c) ''Auto Monitor'' FA_Both AutoMonitor"

definition features_with_config :: "features_config \<Rightarrow> builtin_features" where
  "features_with_config c = \<lparr>bf_config = c, bf_features = build_feature_list c, bf_digit_buffers = []\<rparr>"

definition features_new :: builtin_features where
  "features_new = features_with_config features_config_default"

definition process_dtmf :: "string \<Rightarrow> char \<Rightarrow> builtin_features \<Rightarrow> builtin_features \<times> dtmf_feature_result" where
  "process_dtmf channel_id digit e =
     (let buffer = (case hget (bf_digit_buffers e) channel_id of Some b \<Rightarrow> b | None \<Rightarrow> []) @ [digit];
          cleared = e\<lparr>bf_digit_buffers := hremove channel_id (bf_digit_buffers e)\<rparr>
      in case find (\<lambda>f. buffer = df_code f) (bf_features e) of
           Some f \<Rightarrow> (cleared, Triggered (df_action f))
         | None \<Rightarrow>
             if \<exists>f \<in> set (bf_features e). starts_with buffer (df_code f)
             then (e\<lparr>bf_digit_buffers := hinsert channel_id buffer (bf_digit_buffers e)\<rparr>, Collecting)
             else (cleared, PassThrough))"

definition check_timeout :: "string \<Rightarrow> builtin_features \<Rightarrow> builtin_features \<times> string option" where
  "check_timeout channel_id e =
     (case hget (bf_digit_buffers e) channel_id of
        None \<Rightarrow> (e, None)
      | Some buffer \<Rightarrow>
          if buffer = [] then (e, None)
          else (e\<lparr>bf_digit_buffers := hremove channel_id (bf_digit_buffers e)\<rparr>,
                if \<exists>f \<in> set (bf_features e). starts_with buffer (df_code f) then Some buffer else None))"

definition get_buffered_digits :: "string \<Rightarrow> builtin_features \<Rightarrow> string option" where
  "get_buffered_digits channel_id e = hget (bf_digit_buffers e) channel_id"

definition has_buffered_digits :: "string \<Rightarrow> builtin_features \<Rightarrow> bool" where
  "has_buffered_digits channel_id e \<longleftrightarrow>
     (case hget (bf_digit_buffers e) channel_id of Some b \<Rightarrow> b \<noteq> [] | None \<Rightarrow> False)"

definition clear_buffer :: "string \<Rightarrow> builtin_features \<Rightarrow> builtin_features" where
  "clear_buffer channel_id e = e\<lparr>bf_digit_buffers := hremove channel_id (bf_digit_buffers e)\<rparr>"

definition set_config :: "features_config \<Rightarrow> builtin_features \<Rightarrow> builtin_features" where
  "set_config c e = e\<lparr>bf_features := build_feature_list c, bf_config := c, bf_digit_buffers := []\<rparr>"

subsection \<open>Operations queued for a bridge channel\<close>

datatype bridge_transfer_type = Blind | Attended

datatype bridge_transfer_result = TransferSuccess | TransferFail | InvalidDest | NotPermitted

datatype bridge_channel_action =
    ActDtmfStream string | ActBlindTransfer string string | ActAttendedTransfer string string
  | ActHold | ActUnhold | ActIntervalHook u32 | ActRinging | ActLeave

record bridge_channel_ops =
  bo_channel_id :: string
  bo_action_queue :: "bridge_channel_action list"
  bo_dtmf_buffer :: string
  bo_on_hold :: bool
  bo_transfer_state :: "bridge_transfer_type option"
  bo_frames_written :: u64
  bo_frames_read :: u64

definition bridge_channel_ops_new :: "string \<Rightarrow> bridge_channel_ops" where
  "bridge_channel_ops_new cid = \<lparr>bo_channel_id = cid, bo_action_queue = [], bo_dtmf_buffer = [],
     bo_on_hold = False, bo_transfer_state = None, bo_frames_written = 0, bo_frames_read = 0\<rparr>"

definition queue_action :: "bridge_channel_action \<Rightarrow> bridge_channel_ops \<Rightarrow> bridge_channel_ops" where
  "queue_action a o1 = o1\<lparr>bo_action_queue := bo_action_queue o1 @ [a]\<rparr>"

definition next_action :: "bridge_channel_ops \<Rightarrow> bridge_channel_ops \<times> bridge_channel_action option" where
  "next_action o1 =
     (case bo_action_queue o1 of a # q \<Rightarrow> (o1\<lparr>bo_action_queue := q\<rparr>, Some a) | [] \<Rightarrow> (o1, None))"

definition buffer_dtmf :: "char \<Rightarrow> bridge_channel_ops \<Rightarrow> bridge_channel_ops" where
  "buffer_dtmf d o1 = o1\<lparr>bo_dtmf_buffer := bo_dtmf_buffer o1 @ [d]\<rparr>"

definition initiate_transfer ::
  "bridge_transfer_type \<Rightarrow> string \<Rightarrow> string \<Rightarrow> bridge_channel_ops \<Rightarrow> bridge_channel_ops \<times> bridge_transfer_result" where
  "initiate_transfer ty destination ctxt o1 =
     (if destination = [] then (o1, InvalidDest)
      else (queue_action (case ty of Blind \<Rightarrow> ActBlindTransfer destination ctxt
                                   | Attended \<Rightarrow> ActAttendedTransfer destination ctxt)
              (o1\<lparr>bo_transfer_state := Some ty\<rparr>), TransferSuccess))"

definition bridge_hold :: "bridge_channel_ops \<Rightarrow> bridge_channel_ops" where
  "bridge_hold o1 = (if bo_on_hold o1 then o1 else queue_action ActHold (o1\<lparr>bo_on_hold := True\<rparr>))"

definition bridge_unhold :: "bridge_channel_ops \<Rightarrow> bridge_channel_ops" where
  "bridge_unhold o1 = (if bo_on_hold o1 then queue_action ActUnhold (o1\<lparr>bo_on_hold := False\<rparr>) else o1)"

definition has_pending_actions :: "bridge_channel_ops \<Rightarrow> bool" where
  "has_pending_actions o1 \<longleftrightarrow> bo_action_queue o1 \<noteq> []"

definition clear_dtmf_buffer :: "bridge_channel_ops \<Rightarrow> bridge_channel_ops" where
  "clear_dtmf_buffer o1 = o1\<lparr>bo_dtmf_buffer := []\<rparr>"

definition clear_transfer_state :: "bridge_channel_ops \<Rightarrow> bridge_channel_ops" where
  "clear_transfer_state o1 = o1\<lparr>bo_transfer_state := None\<rparr>"

text \<open>The frame counters panic on overflow, the outer \<^const>\<open>None\<close>.\<close>

definition record_write :: "bridge_channel_ops \<Rightarrow> bridge_channel_ops option" where
  "record_write o1 =
     (if bo_frames_written o1 = - 1 then None else Some (o1\<lparr>bo_frames_written := bo_frames_written o1 + 1\<rparr>))"

definition record_read :: "bridge_channel_ops \<Rightarrow> bridge_channel_ops option" where
  "record_read o1 =
     (if bo_frames_read o1 = - 1 then None else Some (o1\<lparr>bo_frames_read := bo_frames_read o1 + 1\<rparr>))"

subsection \<open>Detecting a code\<close>

fun feed_digits :: "string \<Rightarrow> string \<Rightarrow> builtin_features \<Rightarrow> builtin_features \<times> dtmf_feature_result list" where
  "feed_digits cid [] e = (e, [])"
| "feed_digits cid (d # ds) e =
     (case process_dtmf cid d e of (e1, r) \<Rightarrow> map_prod id ((#) r) (feed_digits cid ds e1))"

text \<open>A code is reachable when no feature is triggered by a proper prefix of it.\<close>

definition code_reachable :: "builtin_features \<Rightarrow> string \<Rightarrow> bool" where
  "code_reachable e code \<longleftrightarrow>
     (\<forall>f \<in> set (bf_features e). starts_with (df_code f) code \<longrightarrow> df_code f = [] \<or> df_code f = code)"

lemma process_dtmf_features [simp]: "bf_features (fst (process_dtmf cid d e)) = bf_features e"
  by (simp add: process_dtmf_def Let_def split: option.split)

lemma starts_with_trans_app: "starts_with (a @ b) c \<Longrightarrow> starts_with a c"
  by (auto simp: starts_with_iff)

lemma feed_code:
  assumes "find (\<lambda>f. code = df_code f) (bf_features e) = Some f" "code_reachable e code"
    and "code = pre @ rest" "rest \<noteq> []"
    and "pre = (case hget (bf_digit_buffers e) cid of Some b \<Rightarrow> b | None \<Rightarrow> [])"
  shows "\<exists>e'. feed_digits cid rest e =
    (e', replicate (length rest - 1) Collecting @ [Triggered (df_action f)]) \<and> hget (bf_digit_buffers e') cid = None"
  using assms
proof (induction rest arbitrary: pre e)
  case (Cons d ds)
  let ?buf = "pre @ [d]"
  have buf: "(case hget (bf_digit_buffers e) cid of Some b \<Rightarrow> b | None \<Rightarrow> []) @ [d] = ?buf" using Cons.prems(5) by simp
  show ?case
  proof (cases "ds = []")
    case True
    then have "process_dtmf cid d e = (e\<lparr>bf_digit_buffers := hremove cid (bf_digit_buffers e)\<rparr>, Triggered (df_action f))"
      unfolding process_dtmf_def Let_def buf using Cons.prems(1,3) by simp
    then show ?thesis by (simp add: True)
  next
    case False
    have f: "f \<in> set (bf_features e)" "df_code f = code"
      using Cons.prems(1) by (auto simp: find_Some_iff)
    have none: "find (\<lambda>g. ?buf = df_code g) (bf_features e) = None"
    proof (rule ccontr)
      assume "\<not> ?thesis"
      then obtain g where g: "g \<in> set (bf_features e)" "df_code g = ?buf" by (auto simp: find_None_iff)
      moreover have "starts_with (df_code g) code" using g Cons.prems(3) by (simp add: starts_with_iff)
      ultimately have "?buf = code" using Cons.prems(2) by (auto simp: code_reachable_def)
      then show False using False Cons.prems(3) by simp
    qed
    have "\<exists>g \<in> set (bf_features e). starts_with ?buf (df_code g)"
      using f Cons.prems(3) by (intro bexI [of _ f]) (auto simp: starts_with_iff)
    then have p: "process_dtmf cid d e = (e\<lparr>bf_digit_buffers := hinsert cid ?buf (bf_digit_buffers e)\<rparr>, Collecting)"
      unfolding process_dtmf_def Let_def buf none by simp
    have "\<exists>e'. feed_digits cid ds (fst (process_dtmf cid d e)) =
        (e', replicate (length ds - 1) Collecting @ [Triggered (df_action f)]) \<and> hget (bf_digit_buffers e') cid = None"
      using False Cons.prems by (intro Cons.IH [of _ ?buf]) (simp_all add: p code_reachable_def)
    then show ?thesis using False p by (cases ds) auto
  qed
qed simp

text \<open>
  Pressing a configured code triggers its feature: with an empty buffer, if no shorter feature
  code is a prefix of it, every digit but the last is collected and the last one triggers the first
  feature with that code, leaving the buffer empty for the next code.
\<close>

theorem feature_code_detected:
  assumes "find (\<lambda>f. code = df_code f) (bf_features e) = Some f" "code \<noteq> []" "code_reachable e code"
    and "get_buffered_digits cid e = None"
  shows "\<exists>e'. feed_digits cid code e =
    (e', replicate (length code - 1) Collecting @ [Triggered (df_action f)]) \<and> get_buffered_digits cid e' = None"
  using feed_code [OF assms(1,3), of "[]" code cid] assms(2,4) by (simp add: get_buffered_digits_def)

theorem feature_code_detected_witness:
  "\<exists>e'. feed_digits ''c'' ''12'' (features_with_config (features_config_default\<lparr>fc_disconnect_code := ''12''\<rparr>)) =
    (e', [Collecting, Triggered Disconnect])"
proof -
  let ?e = "features_with_config (features_config_default\<lparr>fc_disconnect_code := ''12''\<rparr>)"
  let ?f = "\<lparr>df_code = ''12'', df_name = ''Disconnect'', df_activate_on = FA_Both, df_action = Disconnect\<rparr>"
  have "find (\<lambda>f. ''12'' = df_code f) (bf_features ?e) = Some ?f" "code_reachable ?e ''12''"
      "get_buffered_digits ''c'' ?e = None"
    by (simp_all add: features_with_config_def features_config_default_def build_feature_list_def
        feature_unless_empty_def code_reachable_def starts_with_def get_buffered_digits_def)
  from feature_code_detected [OF this(1) _ this(2,3)] show ?thesis by auto
qed

end
