(* ===== verification/Bridge.thy ===== *)
theory Bridge
  imports Channel Bridge_Features
begin

section \<open>Bridges\<close>

text \<open>
  The bridge framework of \<^verbatim>\<open>crates/asterisk-core/src/bridge\<close>: the life cycle in \<^verbatim>\<open>mod.rs\<close>, the
  technologies of \<^verbatim>\<open>implementations.rs\<close> and the event loop each bridged channel runs in
  \<^verbatim>\<open>event_loop.rs\<close>. The objects behind the locks (the bridge, the channel, the handle of type
  \<^verbatim>\<open>Arc<Mutex<BridgeChannel>>\<close> that joining returns) are separate records, as they are separate
  objects of the code; the global tables form \<open>bridge_env\<close>.
\<close>

subsection \<open>Bridges and their members\<close>

datatype video_mode = VM_None | VM_SingleSource | VM_TalkerSource | VM_Sfu

datatype bridge_channel_state = BS_Waiting | BS_Joined | BS_Suspended | BS_Leaving

record bridge_channel =
  bc_channel_id :: string
  bc_channel_name :: string
  bc_state :: bridge_channel_state
  bc_features :: u32

definition bridge_channel_new :: "string \<Rightarrow> string \<Rightarrow> bridge_channel" where
  "bridge_channel_new cid name =
     \<lparr>bc_channel_id = cid, bc_channel_name = name, bc_state = BS_Waiting, bc_features = 0\<rparr>"

record bridge =
  br_unique_id :: string
  br_name :: string
  br_technology :: string
  br_channels :: "bridge_channel list"
  br_flags :: u32
  br_video_mode :: video_mode
  br_dissolved :: bool
  br_cause :: i32
  br_num_active :: nat

definition bridge_new :: "string \<Rightarrow> string \<Rightarrow> bridge" where
  "bridge_new uid name = \<lparr>br_unique_id = uid, br_name = name, br_technology = [], br_channels = [],
     br_flags = 0, br_video_mode = VM_None, br_dissolved = False, br_cause = 0, br_num_active = 0\<rparr>"

definition bridge_with_flags :: "string \<Rightarrow> string \<Rightarrow> u32 \<Rightarrow> bridge" where
  "bridge_with_flags uid name flags = (bridge_new uid name)\<lparr>br_flags := flags\<rparr>"

definition has_channel :: "string \<Rightarrow> bridge \<Rightarrow> bool" where
  "has_channel cid b \<longleftrightarrow> (\<exists>bc \<in> set (br_channels b). bc_channel_id bc = cid)"

definition add_channel :: "string \<Rightarrow> string \<Rightarrow> bridge \<Rightarrow> bridge" where
  "add_channel cid name b =
     (if has_channel cid b then b
      else let cs = br_channels b @ [(bridge_channel_new cid name)\<lparr>bc_state := BS_Joined\<rparr>]
           in b\<lparr>br_channels := cs, br_num_active := length cs\<rparr>)"

definition remove_channel :: "string \<Rightarrow> bridge \<Rightarrow> bridge \<times> bool" where
  "remove_channel cid b =
     (let cs = filter (\<lambda>bc. bc_channel_id bc \<noteq> cid) (br_channels b);
          removed = length cs < length (br_channels b)
      in (if removed then b\<lparr>br_channels := cs, br_num_active := length cs\<rparr> else b\<lparr>br_channels := cs\<rparr>, removed))"

definition num_channels :: "bridge \<Rightarrow> nat" where
  "num_channels b = length (br_channels b)"

record bridge_snapshot =
  bs_unique_id :: string
  bs_name :: string
  bs_technology :: string
  bs_num_channels :: nat
  bs_channel_ids :: "string list"
  bs_video_mode :: video_mode

definition bridge_snapshot_of :: "bridge \<Rightarrow> bridge_snapshot" where
  "bridge_snapshot_of b = \<lparr>bs_unique_id = br_unique_id b, bs_name = br_name b, bs_technology = br_technology b,
     bs_num_channels = length (br_channels b), bs_channel_ids = map bc_channel_id (br_channels b),
     bs_video_mode = br_video_mode b\<rparr>"

subsection \<open>Global tables\<close>

text \<open>The keys of \<^verbatim>\<open>BRIDGE_STORE\<close> and the frames routed to each channel of each simple bridge.\<close>

record bridge_env =
  be_store :: "string list"
  be_routing :: "(string, (string, frame list) hashmap) hashmap"

definition deregister_bridge :: "string \<Rightarrow> bridge_env \<Rightarrow> bridge_env" where
  "deregister_bridge bid e = e\<lparr>be_store := removeAll bid (be_store e)\<rparr>"

definition get_simple_routing :: "string \<Rightarrow> bridge_env \<Rightarrow> bridge_env \<times> (string, frame list) hashmap" where
  "get_simple_routing bid e =
     (case hget (be_routing e) bid of
        Some r \<Rightarrow> (e, r)
      | None \<Rightarrow> (e\<lparr>be_routing := hinsert bid [] (be_routing e)\<rparr>, []))"

definition put_routing :: "string \<Rightarrow> (string, frame list) hashmap \<Rightarrow> bridge_env \<Rightarrow> bridge_env" where
  "put_routing bid r e = e\<lparr>be_routing := hinsert bid r (be_routing e)\<rparr>"

definition remove_simple_routing :: "string \<Rightarrow> bridge_env \<Rightarrow> bridge_env" where
  "remove_simple_routing bid e = e\<lparr>be_routing := hremove bid (be_routing e)\<rparr>"

definition pending_frames :: "(string, frame list) hashmap \<Rightarrow> string \<Rightarrow> frame list" where
  "pending_frames r cid = (case hget r cid of Some fs \<Rightarrow> fs | None \<Rightarrow> [])"

definition take_frames :: "string \<Rightarrow> (string, frame list) hashmap \<Rightarrow> (string, frame list) hashmap \<times> frame list" where
  "take_frames cid r = (hremove cid r, pending_frames r cid)"

subsection \<open>Technologies\<close>

datatype technology = SimpleBridge | HoldingBridge | SoftmixBridge

primrec technology_name :: "technology \<Rightarrow> string" where
  "technology_name SimpleBridge = ''simple_bridge''"
| "technology_name HoldingBridge = ''holding_bridge''"
| "technology_name SoftmixBridge = ''softmix''"

definition simple_bridge_should_pass :: "frame \<Rightarrow> bool" where
  "simple_bridge_should_pass f =
     (case f of
        Voice _ _ _ _ _ _ _ \<Rightarrow> True
      | Video _ _ _ _ _ _ \<Rightarrow> True
      | DtmfBegin _ \<Rightarrow> True
      | DtmfEnd _ _ \<Rightarrow> True
      | Text _ \<Rightarrow> True
      | Cng _ \<Rightarrow> True
      | Control c _ \<Rightarrow> c \<notin> {CF_Hold, CF_Unhold, CF_Hangup}
      | _ \<Rightarrow> False)"

primrec tech_stop :: "technology \<Rightarrow> bridge \<Rightarrow> bridge_env \<Rightarrow> bridge_env" where
  "tech_stop SimpleBridge b e = remove_simple_routing (br_unique_id b) e"
| "tech_stop HoldingBridge b e = e"
| "tech_stop SoftmixBridge b e = e"

primrec tech_join :: "technology \<Rightarrow> bridge \<Rightarrow> unit asterisk_result" where
  "tech_join SimpleBridge b =
     (if 2 < num_channels b then Inl (InvalidArgument ''simple bridge supports at most 2 channels'') else Inr ())"
| "tech_join HoldingBridge b = Inr ()"
| "tech_join SoftmixBridge b = Inr ()"

definition route_frame :: "string \<Rightarrow> frame \<Rightarrow> bridge_channel \<Rightarrow> (string, frame list) hashmap \<Rightarrow> (string, frame list) hashmap" where
  "route_frame from f bc r =
     (if bc_channel_id bc \<noteq> from
      then hinsert (bc_channel_id bc) (pending_frames r (bc_channel_id bc) @ [f]) r else r)"

definition simple_write_frame :: "bridge \<Rightarrow> bridge_channel \<Rightarrow> frame \<Rightarrow> bridge_env \<Rightarrow> bridge_env" where
  "simple_write_frame b from f e =
     (if \<not> simple_bridge_should_pass f then e
      else case get_simple_routing (br_unique_id b) e of
             (e1, r) \<Rightarrow> put_routing (br_unique_id b) (fold (route_frame (bc_channel_id from) f) (br_channels b) r) e1)"

primrec tech_write_frame :: "technology \<Rightarrow> bridge \<Rightarrow> bridge_channel \<Rightarrow> frame \<Rightarrow> bridge_env \<Rightarrow> bridge_env" where
  "tech_write_frame SimpleBridge b from f e = simple_write_frame b from f e"
| "tech_write_frame HoldingBridge b from f e = e"
| "tech_write_frame SoftmixBridge b from f e = e"

subsection \<open>Life cycle\<close>

definition bridge_create ::
  "string \<Rightarrow> string \<Rightarrow> technology \<Rightarrow> bridge_env \<Rightarrow> bridge_env \<times> ch_effect list \<times> bridge asterisk_result" where
  "bridge_create uid name tech e =
     (let b = (bridge_new uid name)\<lparr>br_technology := technology_name tech\<rparr>
      in if uid \<in> set (be_store e)
         then (e, [], Inl (AlreadyExists (''Bridge '' @ uid @ '' already exists'')))
         else (e\<lparr>be_store := be_store e @ [uid]\<rparr>,
               [Publish ''BridgeCreate'' [(''BridgeUniqueid'', uid), (''BridgeType'', ''basic''),
                  (''BridgeTechnology'', ''simple_bridge''), (''BridgeNumChannels'', ''0'')]],
               Inr b))"

text \<open>
  Joining in its three critical sections: the check holds both locks, the bridge is updated under its
  own lock, the channel under its own. The handle is a record of its own.
\<close>

definition join_check :: "channel \<Rightarrow> bridge \<Rightarrow> unit asterisk_result" where
  "join_check ch b =
     (if bridge_id ch \<noteq> None then Inl (InvalidArgument (''Channel '' @ ch_name ch @ '' is already in a bridge''))
      else if br_dissolved b then Inl (InvalidArgument (''Bridge '' @ br_unique_id b @ '' is dissolved''))
      else Inr ())"

definition join_add :: "technology \<Rightarrow> channel \<Rightarrow> bridge \<Rightarrow> bridge \<times> unit asterisk_result" where
  "join_add tech ch b = (let b' = add_channel (unique_id ch) (ch_name ch) b in (b', tech_join tech b'))"

definition join_set :: "bridge \<Rightarrow> channel \<Rightarrow> channel" where
  "join_set b ch = ch\<lparr>bridge_id := Some (br_unique_id b)\<rparr>"

definition bridge_join ::
  "technology \<Rightarrow> channel \<Rightarrow> bridge \<Rightarrow> channel \<times> bridge \<times> ch_effect list \<times> bridge_channel asterisk_result" where
  "bridge_join tech ch b =
     (case join_check ch b of
        Inl e \<Rightarrow> (ch, b, [], Inl e)
      | Inr _ \<Rightarrow>
          (case join_add tech ch b of
             (b', Inl e) \<Rightarrow> (ch, b', [], Inl e)
           | (b', Inr _) \<Rightarrow>
               (join_set b' ch, b',
                [Publish ''BridgeEnter'' [(''BridgeUniqueid'', br_unique_id b'), (''BridgeType'', ''basic''),
                   (''BridgeTechnology'', ''simple_bridge''), (''BridgeNumChannels'', show_nat (num_channels b')),
                   (''Channel'', ch_name ch), (''Uniqueid'', unique_id ch)]],
                Inr ((bridge_channel_new (unique_id ch) (ch_name ch))\<lparr>bc_state := BS_Joined\<rparr>))))"

definition bridge_dissolve :: "technology \<Rightarrow> bridge \<Rightarrow> bridge_env \<Rightarrow> bridge \<times> bridge_env \<times> ch_effect list" where
  "bridge_dissolve tech b e =
     (if br_dissolved b then (b, e, [])
      else let b' = b\<lparr>br_dissolved := True, br_channels := map (\<lambda>bc. bc\<lparr>bc_state := BS_Leaving\<rparr>) (br_channels b)\<rparr>
           in (b', deregister_bridge (br_unique_id b) (tech_stop tech b' e),
               [Publish ''BridgeDestroy'' [(''BridgeUniqueid'', br_unique_id b), (''BridgeType'', ''basic''),
                  (''BridgeTechnology'', ''simple_bridge'')]]))"

definition should_dissolve :: "bridge \<Rightarrow> bool" where
  "should_dissolve b \<longleftrightarrow> \<not> br_dissolved b \<and>
     (flags_contain (br_flags b) DISSOLVE_EMPTY \<and> num_channels b = 0
      \<or> flags_contain (br_flags b) DISSOLVE_HANGUP \<and> num_channels b < 2)"

definition bridge_leave ::
  "technology \<Rightarrow> bridge_channel \<Rightarrow> channel \<Rightarrow> bridge \<Rightarrow> bridge_env
   \<Rightarrow> bridge_channel \<times> channel \<times> bridge \<times> bridge_env \<times> ch_effect list" where
  "bridge_leave tech bc ch b e =
     (let b1 = fst (remove_channel (bc_channel_id bc) b);
          leave = Publish ''BridgeLeave'' [(''BridgeUniqueid'', br_unique_id b), (''BridgeType'', ''basic''),
                    (''BridgeTechnology'', ''simple_bridge''), (''Channel'', bc_channel_name bc),
                    (''Uniqueid'', bc_channel_id bc)]
      in case (if should_dissolve b1 then bridge_dissolve tech b1 e else (b1, e, [])) of
           (b2, e2, effs) \<Rightarrow> (bc\<lparr>bc_state := BS_Leaving\<rparr>, ch\<lparr>bridge_id := None\<rparr>, b2, e2, leave # effs))"

subsection \<open>The event loop of a bridged channel\<close>

datatype frame_action = FContinue | FLeave | FWrite frame

definition should_pass_frame :: "frame \<Rightarrow> bool" where
  "should_pass_frame f =
     (case f of
        Voice _ _ _ _ _ _ _ \<Rightarrow> True
      | Video _ _ _ _ _ _ \<Rightarrow> True
      | DtmfBegin _ \<Rightarrow> True
      | DtmfEnd _ _ \<Rightarrow> True
      | Text _ \<Rightarrow> True
      | Control c _ \<Rightarrow> c \<notin> {CF_Hold, CF_Unhold, CF_Hangup}
      | NullFrame \<Rightarrow> False
      | Cng _ \<Rightarrow> True
      | _ \<Rightarrow> False)"

definition process_digit ::
  "(dtmf_feature_result \<Rightarrow> frame_action) \<Rightarrow> string \<Rightarrow> char \<Rightarrow> frame \<Rightarrow> builtin_features option
   \<Rightarrow> builtin_features option \<times> frame_action" where
  "process_digit act cid digit f feats =
     (case feats of
        Some eng \<Rightarrow> (case process_dtmf cid digit eng of (eng', r) \<Rightarrow> (Some eng', act r))
      | None \<Rightarrow> (None, FWrite f))"

definition process_frame ::
  "frame \<Rightarrow> string \<Rightarrow> builtin_features option \<Rightarrow> builtin_features option \<times> frame_action" where
  "process_frame f cid feats =
     (case f of
        Control CF_Hangup _ \<Rightarrow> (feats, FLeave)
      | Control CF_Hold _ \<Rightarrow> (feats, FContinue)
      | Control CF_Unhold _ \<Rightarrow> (feats, FContinue)
      | DtmfEnd digit _ \<Rightarrow>
          process_digit (\<lambda>r. case r of Triggered _ \<Rightarrow> FContinue | Collecting \<Rightarrow> FContinue
            | FeatureTimeout \<Rightarrow> FWrite f | PassThrough \<Rightarrow> FWrite f) cid digit f feats
      | DtmfBegin digit \<Rightarrow>
          process_digit (\<lambda>r. case r of Triggered _ \<Rightarrow> FContinue | Collecting \<Rightarrow> FContinue
            | _ \<Rightarrow> FWrite f) cid digit f feats
      | NullFrame \<Rightarrow> (feats, FContinue)
      | _ \<Rightarrow> (feats, if should_pass_frame f then FWrite f else FContinue))"

record loop_state =
  ls_handle :: bridge_channel
  ls_channel :: channel
  ls_features :: "builtin_features option"

definition deliver_inbound :: "string \<Rightarrow> bridge \<Rightarrow> channel \<times> bridge_env \<Rightarrow> channel \<times> bridge_env" where
  "deliver_inbound cid b ce =
     (case get_simple_routing (br_unique_id b) (snd ce) of
        (e1, r) \<Rightarrow> (case take_frames cid r of
          (r', inbound) \<Rightarrow> (fold queue_write_frame inbound (fst ce), put_routing (br_unique_id b) r' e1)))"

text \<open>One round of the loop; the flag says whether the loop was left.\<close>

definition loop_round :: "technology \<Rightarrow> bridge \<Rightarrow> loop_state \<times> bridge_env \<Rightarrow> (loop_state \<times> bridge_env) \<times> bool" where
  "loop_round tech b se =
     (let s = fst se; bc = ls_handle s; cid = bc_channel_id bc
      in if bc_state bc = BS_Leaving then (se, True)
         else case deliver_inbound cid b (ls_channel s, snd se) of
           (ch1, e1) \<Rightarrow>
             (case dequeue_frame ch1 of
                (None, ch2) \<Rightarrow> ((s\<lparr>ls_channel := ch2\<rparr>, e1), False)
              | (Some f, ch2) \<Rightarrow>
                  (case process_frame f cid (ls_features s) of
                     (feats, act) \<Rightarrow>
                       (let s2 = s\<lparr>ls_channel := ch2, ls_features := feats\<rparr>
                        in case act of
                             FLeave \<Rightarrow> ((s2\<lparr>ls_handle := bc\<lparr>bc_state := BS_Leaving\<rparr>\<rparr>, e1), True)
                           | FWrite g \<Rightarrow> ((s2, tech_write_frame tech b bc g e1), False)
                           | FContinue \<Rightarrow> ((s2, e1), False)))))"

definition bridge_loop_exit :: "loop_state \<Rightarrow> loop_state" where
  "bridge_loop_exit s = s\<lparr>ls_features := map_option (clear_buffer (bc_channel_id (ls_handle s))) (ls_features s)\<rparr>"

fun loop_rounds :: "nat \<Rightarrow> technology \<Rightarrow> bridge \<Rightarrow> loop_state \<times> bridge_env \<Rightarrow> (loop_state \<times> bridge_env) \<times> bool" where
  "loop_rounds 0 tech b se = (se, False)"
| "loop_rounds (Suc n) tech b se =
     (case loop_round tech b se of
        ((s, e), True) \<Rightarrow> ((bridge_loop_exit s, e), True)
      | (se', False) \<Rightarrow> loop_rounds n tech b se')"

end
