(* ===== verification/Bridge_Call.thy ===== *)
theory Bridge_Call
  imports Bridge
begin

section \<open>Calls over a simple bridge\<close>

text \<open>
  What two channels in a simple bridge hear of each other. The event loops of the two members run as
  separate tasks; a schedule lists whose round comes next, so a statement about every schedule is one
  about every interleaving of the rounds.
\<close>

datatype side = Caller | Callee

record two_party =
  tp_caller :: loop_state
  tp_callee :: loop_state
  tp_env :: bridge_env

fun run_schedule :: "bridge \<Rightarrow> side list \<Rightarrow> two_party \<Rightarrow> two_party" where
  "run_schedule b [] c = c"
| "run_schedule b (Caller # ss) c =
     (case loop_round SimpleBridge b (tp_caller c, tp_env c) of
        ((s, e), _) \<Rightarrow> run_schedule b ss (c\<lparr>tp_caller := s, tp_env := e\<rparr>))"
| "run_schedule b (Callee # ss) c =
     (case loop_round SimpleBridge b (tp_callee c, tp_env c) of
        ((s, e), _) \<Rightarrow> run_schedule b ss (c\<lparr>tp_callee := s, tp_env := e\<rparr>))"

definition is_hangup_frame :: "frame \<Rightarrow> bool" where
  "is_hangup_frame f \<longleftrightarrow> (case f of Control CF_Hangup _ \<Rightarrow> True | _ \<Rightarrow> False)"

subsection \<open>Frames that pass\<close>

lemma should_pass_same: "simple_bridge_should_pass f = should_pass_frame f"
  by (simp add: simple_bridge_should_pass_def should_pass_frame_def split: frame.split)

lemma process_frame_plain:
  "\<not> is_hangup_frame f \<Longrightarrow>
   process_frame f cid None = (None, if should_pass_frame f then FWrite f else FContinue)"
  by (cases f) (auto simp: process_frame_def process_digit_def is_hangup_frame_def should_pass_frame_def
      split: control_frame.splits)

subsection \<open>The routing table\<close>

text \<open>The frames that wait for a member of a bridge.\<close>

definition waiting :: "bridge \<Rightarrow> bridge_env \<Rightarrow> string \<Rightarrow> frame list" where
  "waiting b e cid = (case hget (be_routing e) (br_unique_id b) of Some r \<Rightarrow> pending_frames r cid | None \<Rightarrow> [])"

lemma pending_frames_Nil [simp]: "pending_frames [] cid = []"
  by (simp add: pending_frames_def)

lemma deliver_inbound_waiting:
  assumes "deliver_inbound cid b (ch, e) = (ch', e')"
  shows "ch' = fold queue_write_frame (waiting b e cid) ch"
    and "waiting b e' cid' = (if cid' = cid then [] else waiting b e cid')"
  using assms
  by (auto simp: deliver_inbound_def get_simple_routing_def take_frames_def put_routing_def waiting_def
      pending_frames_def split: option.splits)

lemma pending_fold_route:
  "distinct (map bc_channel_id bcs) \<Longrightarrow>
   pending_frames (fold (route_frame from f) bcs r) cid =
     pending_frames r cid @ (if cid \<in> bc_channel_id ` set bcs \<and> cid \<noteq> from then [f] else [])"
proof (induction bcs arbitrary: r)
  case (Cons bc bcs)
  then show ?case by (auto simp: route_frame_def pending_frames_def)
qed simp

lemma write_frame_waiting:
  assumes "distinct (map bc_channel_id (br_channels b))"
  shows "waiting b (simple_write_frame b bc f e) cid =
    waiting b e cid @ (if simple_bridge_should_pass f \<and> has_channel cid b \<and> cid \<noteq> bc_channel_id bc then [f] else [])"
proof -
  have "has_channel cid b \<longleftrightarrow> cid \<in> bc_channel_id ` set (br_channels b)" by (auto simp: has_channel_def)
  then show ?thesis
    by (auto simp: simple_write_frame_def get_simple_routing_def put_routing_def waiting_def
        pending_fold_route [OF assms] split: option.split)
qed

lemma queue_write_frames:
  "length (write_queue ch) + length fs \<le> MAX_FRAME_QUEUE_SIZE \<Longrightarrow>
   fold queue_write_frame fs ch = ch\<lparr>write_queue := write_queue ch @ fs\<rparr>"
proof (induction fs arbitrary: ch)
  case (Cons f fs)
  then have "queue_write_frame f ch = ch\<lparr>write_queue := write_queue ch @ [f]\<rparr>" by (simp add: queue_write_frame_def)
  then show ?case using Cons.IH [of "queue_write_frame f ch"] Cons.prems by simp
qed simp


subsection \<open>A round of a member without features\<close>

definition plain_loop :: "string \<Rightarrow> loop_state \<Rightarrow> bool" where
  "plain_loop cid s \<longleftrightarrow> bc_channel_id (ls_handle s) = cid \<and> bc_state (ls_handle s) \<noteq> BS_Leaving \<and>
     ls_features s = None \<and> \<not> list_ex is_hangup_frame (frame_queue (ls_channel s))"

abbreviation inq :: "loop_state \<Rightarrow> frame list" where
  "inq s \<equiv> frame_queue (ls_channel s)"

abbreviation outq :: "loop_state \<Rightarrow> frame list" where
  "outq s \<equiv> write_queue (ls_channel s)"

lemma dequeue_frame_inq:
  "dequeue_frame ch = (case frame_queue ch of [] \<Rightarrow> None | f # _ \<Rightarrow> Some f, ch\<lparr>frame_queue := drop 1 (frame_queue ch)\<rparr>)"
  by (simp add: dequeue_frame_def split: list.split)

lemma round_plain:
  assumes "plain_loop cid s" "distinct (map bc_channel_id (br_channels b))"
    and "length (outq s) + length (waiting b e cid) \<le> MAX_FRAME_QUEUE_SIZE"
  obtains s' e' where "loop_round SimpleBridge b (s, e) = ((s', e'), False)" "plain_loop cid s'"
    "inq s' = drop 1 (inq s)" "outq s' = outq s @ waiting b e cid" "waiting b e' cid = []"
    "\<And>other. other \<noteq> cid \<Longrightarrow> has_channel other b \<Longrightarrow>
       waiting b e' other = waiting b e other @ filter should_pass_frame (take 1 (inq s))"
proof -
  obtain ch1 e1 where d: "deliver_inbound cid b (ls_channel s, e) = (ch1, e1)" by fastforce
  note w = deliver_inbound_waiting [OF d]
  have ch1: "ch1 = (ls_channel s)\<lparr>write_queue := outq s @ waiting b e cid\<rparr>"
    using w(1) assms(3) by (simp add: queue_write_frames)
  have bc: "bc_channel_id (ls_handle s) = cid" "bc_state (ls_handle s) \<noteq> BS_Leaving" "ls_features s = None"
    using assms(1) by (simp_all add: plain_loop_def)
  show thesis
  proof (cases "inq s")
    case Nil
    have "loop_round SimpleBridge b (s, e) = ((s\<lparr>ls_channel := ch1\<lparr>frame_queue := []\<rparr>\<rparr>, e1), False)"
      using bc d by (simp add: loop_round_def Let_def dequeue_frame_inq ch1 Nil)
    then show thesis by (rule that) (use assms(1) bc Nil w(2) in \<open>simp_all add: plain_loop_def ch1\<close>)
  next
    case (Cons f fs)
    have f: "\<not> is_hangup_frame f" "\<not> list_ex is_hangup_frame fs"
      using assms(1) Cons by (simp_all add: plain_loop_def)
    let ?s = "s\<lparr>ls_channel := ch1\<lparr>frame_queue := fs\<rparr>\<rparr>"
    let ?e = "if should_pass_frame f then simple_write_frame b (ls_handle s) f e1 else e1"
    have "loop_round SimpleBridge b (s, e) = ((?s, ?e), False)"
      using bc d f(1) by (simp add: loop_round_def Let_def dequeue_frame_inq ch1 Cons process_frame_plain)
    then show thesis
      by (rule that) (use bc f Cons w(2) in \<open>simp_all add: plain_loop_def ch1 write_frame_waiting [OF assms(2)] should_pass_same\<close>)
  qed
qed

subsection \<open>Any interleaving of the two loops\<close>

text \<open>What the callee's driver is to send is what it has, what waits for it and what of the caller is still to be read.\<close>

definition flow :: "bridge \<Rightarrow> bridge_env \<Rightarrow> loop_state \<Rightarrow> loop_state \<Rightarrow> frame list" where
  "flow b e from to = outq to @ waiting b e (bc_channel_id (ls_handle to)) @ filter should_pass_frame (inq from)"

definition linked :: "bridge \<Rightarrow> string \<Rightarrow> string \<Rightarrow> two_party \<Rightarrow> bool" where
  "linked b x y c \<longleftrightarrow> plain_loop x (tp_caller c) \<and> plain_loop y (tp_callee c) \<and>
     length (flow b (tp_env c) (tp_caller c) (tp_callee c)) \<le> MAX_FRAME_QUEUE_SIZE \<and>
     length (flow b (tp_env c) (tp_callee c) (tp_caller c)) \<le> MAX_FRAME_QUEUE_SIZE"


lemma round_flow:
  assumes "plain_loop x s" "plain_loop y t" "x \<noteq> y" "has_channel y b" "distinct (map bc_channel_id (br_channels b))"
    and "length (flow b e t s) \<le> MAX_FRAME_QUEUE_SIZE"
  obtains s' e' where "loop_round SimpleBridge b (s, e) = ((s', e'), False)" "plain_loop x s'"
    "inq s' = drop 1 (inq s)" "waiting b e' x = []" "inq s = [] \<longrightarrow> waiting b e' y = waiting b e y"
    "flow b e' s' t = flow b e s t" "flow b e' t s' = flow b e t s"
proof -
  have id: "bc_channel_id (ls_handle s) = x" "bc_channel_id (ls_handle t) = y"
    using assms(1,2) by (simp_all add: plain_loop_def)
  have "length (outq s) + length (waiting b e x) \<le> MAX_FRAME_QUEUE_SIZE"
    using assms(6) id by (simp add: flow_def)
  then obtain s' e' where r: "loop_round SimpleBridge b (s, e) = ((s', e'), False)" "plain_loop x s'"
      "inq s' = drop 1 (inq s)" "outq s' = outq s @ waiting b e x" "waiting b e' x = []"
      "\<And>other. other \<noteq> x \<Longrightarrow> has_channel other b \<Longrightarrow>
         waiting b e' other = waiting b e other @ filter should_pass_frame (take 1 (inq s))"
    by (rule round_plain [OF assms(1,5)]) (rule that)
  have y: "waiting b e' y = waiting b e y @ filter should_pass_frame (take 1 (inq s))"
    by (rule r(6) [OF assms(3) [symmetric] assms(4)])
  have "filter should_pass_frame (take 1 (inq s)) @ filter should_pass_frame (drop 1 (inq s))
      = filter should_pass_frame (inq s)"
    by (simp flip: filter_append)
  then have "flow b e' s' t = flow b e s t" using r(3) y id by (simp add: flow_def)
  moreover have "flow b e' t s' = flow b e t s"
    using r(2,4,5) id by (simp add: flow_def plain_loop_def)
  ultimately show thesis using r(1,2,3,5) y by (intro that [of s' e']) simp_all
qed

lemma run_schedule_linked:
  assumes "linked b x y c" "x \<noteq> y" "has_channel x b" "has_channel y b" "distinct (map bc_channel_id (br_channels b))"
  shows "linked b x y (run_schedule b ss c) \<and>
    inq (tp_caller (run_schedule b ss c)) = drop (count_list ss Caller) (inq (tp_caller c)) \<and>
    inq (tp_callee (run_schedule b ss c)) = drop (count_list ss Callee) (inq (tp_callee c)) \<and>
    flow b (tp_env (run_schedule b ss c)) (tp_caller (run_schedule b ss c)) (tp_callee (run_schedule b ss c)) =
      flow b (tp_env c) (tp_caller c) (tp_callee c) \<and>
    flow b (tp_env (run_schedule b ss c)) (tp_callee (run_schedule b ss c)) (tp_caller (run_schedule b ss c)) =
      flow b (tp_env c) (tp_callee c) (tp_caller c)"
  using assms(1)
proof (induction ss arbitrary: c)
  case (Cons p ss)
  have l: "plain_loop x (tp_caller c)" "plain_loop y (tp_callee c)"
      "length (flow b (tp_env c) (tp_caller c) (tp_callee c)) \<le> MAX_FRAME_QUEUE_SIZE"
      "length (flow b (tp_env c) (tp_callee c) (tp_caller c)) \<le> MAX_FRAME_QUEUE_SIZE"
    using Cons.prems by (simp_all add: linked_def)
  show ?case
  proof (cases p)
    case Caller
    obtain s' e' where r: "loop_round SimpleBridge b (tp_caller c, tp_env c) = ((s', e'), False)" "plain_loop x s'"
        "inq s' = drop 1 (inq (tp_caller c))"
        "flow b e' s' (tp_callee c) = flow b (tp_env c) (tp_caller c) (tp_callee c)"
        "flow b e' (tp_callee c) s' = flow b (tp_env c) (tp_callee c) (tp_caller c)"
      by (rule round_flow [OF l(1,2) assms(2,4,5) l(4)])
    let ?c = "c\<lparr>tp_caller := s', tp_env := e'\<rparr>"
    have "linked b x y ?c" using l r by (simp add: linked_def)
    from Cons.IH [OF this] show ?thesis by (simp add: Caller r add.commute)
  next
    case Callee
    obtain s' e' where r: "loop_round SimpleBridge b (tp_callee c, tp_env c) = ((s', e'), False)" "plain_loop y s'"
        "inq s' = drop 1 (inq (tp_callee c))"
        "flow b e' s' (tp_caller c) = flow b (tp_env c) (tp_callee c) (tp_caller c)"
        "flow b e' (tp_caller c) s' = flow b (tp_env c) (tp_caller c) (tp_callee c)"
      by (rule round_flow [OF l(2,1) assms(2) [symmetric] assms(3,5) l(3)])
    let ?c = "c\<lparr>tp_callee := s', tp_env := e'\<rparr>"
    have "linked b x y ?c" using l r by (simp add: linked_def)
    from Cons.IH [OF this] show ?thesis by (simp add: Callee r add.commute)
  qed
qed simp


lemma run_schedule_append: "run_schedule b (ss @ ts) c = run_schedule b ts (run_schedule b ss c)"
proof (induction ss arbitrary: c)
  case (Cons p ss)
  then show ?case by (cases p) (simp_all split: prod.split)
qed simp

text \<open>After both queues have been read, a round of each member delivers what still waits.\<close>

lemma run_schedule_drained:
  assumes "linked b x y c" "x \<noteq> y" "has_channel x b" "has_channel y b" "distinct (map bc_channel_id (br_channels b))"
    and "inq (tp_caller c) = []" "inq (tp_callee c) = []"
  shows "outq (tp_callee (run_schedule b [Caller, Callee] c)) = flow b (tp_env c) (tp_caller c) (tp_callee c)"
    and "outq (tp_caller (run_schedule b [Caller, Callee] c)) = flow b (tp_env c) (tp_callee c) (tp_caller c)"
proof -
  have l: "plain_loop x (tp_caller c)" "plain_loop y (tp_callee c)"
      "length (flow b (tp_env c) (tp_caller c) (tp_callee c)) \<le> MAX_FRAME_QUEUE_SIZE"
      "length (flow b (tp_env c) (tp_callee c) (tp_caller c)) \<le> MAX_FRAME_QUEUE_SIZE"
    using assms(1) by (simp_all add: linked_def)
  obtain s1 e1 where 1: "loop_round SimpleBridge b (tp_caller c, tp_env c) = ((s1, e1), False)" "plain_loop x s1"
      "inq s1 = drop 1 (inq (tp_caller c))" "waiting b e1 x = []"
      "flow b e1 s1 (tp_callee c) = flow b (tp_env c) (tp_caller c) (tp_callee c)"
      "flow b e1 (tp_callee c) s1 = flow b (tp_env c) (tp_callee c) (tp_caller c)"
    by (rule round_flow [OF l(1,2) assms(2,4,5) l(4)])
  have "length (flow b e1 s1 (tp_callee c)) \<le> MAX_FRAME_QUEUE_SIZE" using 1(5) l(3) by simp
  then obtain s2 e2 where 2: "loop_round SimpleBridge b (tp_callee c, e1) = ((s2, e2), False)" "plain_loop y s2"
      "inq s2 = drop 1 (inq (tp_callee c))" "waiting b e2 y = []" "inq (tp_callee c) = [] \<longrightarrow> waiting b e2 x = waiting b e1 x"
      "flow b e2 s2 s1 = flow b e1 (tp_callee c) s1" "flow b e2 s1 s2 = flow b e1 s1 (tp_callee c)"
    by (rule round_flow [OF l(2) 1(2) assms(2) [symmetric] assms(3,5)])
  have id: "bc_channel_id (ls_handle s1) = x" "bc_channel_id (ls_handle s2) = y"
    using 1(2) 2(2) by (simp_all add: plain_loop_def)
  have run: "tp_caller (run_schedule b [Caller, Callee] c) = s1" "tp_callee (run_schedule b [Caller, Callee] c) = s2"
    by (simp_all add: 1(1) 2(1))
  show "outq (tp_callee (run_schedule b [Caller, Callee] c)) = flow b (tp_env c) (tp_caller c) (tp_callee c)"
    unfolding run 1(5) [symmetric] 2(7) [symmetric] using 1(3) 2(4) assms(6) by (simp add: flow_def id)
  show "outq (tp_caller (run_schedule b [Caller, Callee] c)) = flow b (tp_env c) (tp_callee c) (tp_caller c)"
    unfolding run 1(6) [symmetric] 2(6) [symmetric] using 1(4) 2(3,5) assms(7) by (simp add: flow_def id)
qed

subsection \<open>Setting up the call\<close>

definition loop_start :: "bridge_channel \<Rightarrow> channel \<Rightarrow> loop_state" where
  "loop_start h ch = \<lparr>ls_handle = h, ls_channel = ch, ls_features = None\<rparr>"

lemma bridge_join_ok:
  assumes "bridge_join tech ch b = (ch', b', effs, Inr h)"
  shows "h = (bridge_channel_new (unique_id ch) (ch_name ch))\<lparr>bc_state := BS_Joined\<rparr>"
    and "ch' = ch\<lparr>bridge_id := Some (br_unique_id b)\<rparr>" "b' = add_channel (unique_id ch) (ch_name ch) b"
    and "\<not> br_dissolved b" "bridge_id ch = None"
  using assms
  by (auto simp: bridge_join_def join_check_def join_add_def join_set_def add_channel_def Let_def
      split: if_splits sum.splits)

lemma loop_start_plain:
  assumes "bridge_join tech ch b = (ch', b', effs, Inr h)" "\<not> list_ex is_hangup_frame (frame_queue ch)"
  shows "plain_loop (unique_id ch) (loop_start h ch')" "inq (loop_start h ch') = frame_queue ch"
    "outq (loop_start h ch') = write_queue ch"
  using bridge_join_ok [OF assms(1)] assms(2) by (simp_all add: plain_loop_def loop_start_def bridge_channel_new_def)

text \<open>
  (C7) Two channels that join a new simple bridge hear each other: whatever the interleaving of their
  event loops, once each loop had a round for every frame its channel had queued and one more, each
  driver has to send exactly the frames of the other side that a bridge passes, in order, nothing
  twice and nothing of its own.
\<close>

theorem bridge_delivers_both_ways:
  assumes "bridge_create uid name SimpleBridge e0 = (e, effs0, Inr b0)" "hget (be_routing e0) uid = None"
    and "bridge_join SimpleBridge ch1 b0 = (ch1', b1, effs1, Inr h1)"
    and "bridge_join SimpleBridge ch2 b1 = (ch2', b, effs2, Inr h2)"
    and "unique_id ch1 \<noteq> unique_id ch2" "write_queue ch1 = []" "write_queue ch2 = []"
    and "\<not> list_ex is_hangup_frame (frame_queue ch1)" "\<not> list_ex is_hangup_frame (frame_queue ch2)"
    and "length (frame_queue ch1) \<le> MAX_FRAME_QUEUE_SIZE" "length (frame_queue ch2) \<le> MAX_FRAME_QUEUE_SIZE"
    and "length (frame_queue ch1) \<le> count_list ss Caller" "length (frame_queue ch2) \<le> count_list ss Callee"
    and "c = run_schedule b (ss @ [Caller, Callee])
           \<lparr>tp_caller = loop_start h1 ch1', tp_callee = loop_start h2 ch2', tp_env = e\<rparr>"
  shows "write_queue (ls_channel (tp_callee c)) = filter should_pass_frame (frame_queue ch1) \<and>
    write_queue (ls_channel (tp_caller c)) = filter should_pass_frame (frame_queue ch2)"
proof -
  let ?x = "unique_id ch1" and ?y = "unique_id ch2"
  let ?c = "\<lparr>tp_caller = loop_start h1 ch1', tp_callee = loop_start h2 ch2', tp_env = e\<rparr>"
  have b0: "br_channels b0 = []" "br_unique_id b0 = uid" "be_routing e = be_routing e0"
    using assms(1) by (auto simp: bridge_create_def bridge_new_def Let_def split: if_splits)
  have b: "map bc_channel_id (br_channels b) = [?x, ?y]" "br_unique_id b = uid"
    using bridge_join_ok(3) [OF assms(3)] bridge_join_ok(3) [OF assms(4)] b0 assms(5)
    by (auto simp: add_channel_def has_channel_def bridge_channel_new_def)
  have mem: "has_channel ?x b" "has_channel ?y b" "distinct (map bc_channel_id (br_channels b))"
    using b(1) assms(5) by (auto simp: has_channel_def map_eq_Cons_conv)
  have w: "waiting b e k = []" for k using b0 b(2) assms(2) by (simp add: waiting_def)
  note s1 = loop_start_plain [OF assms(3,8)] and s2 = loop_start_plain [OF assms(4,9)]
  have f: "flow b e (loop_start h1 ch1') (loop_start h2 ch2') = filter should_pass_frame (frame_queue ch1)"
      "flow b e (loop_start h2 ch2') (loop_start h1 ch1') = filter should_pass_frame (frame_queue ch2)"
    using s1 s2 assms(6,7) by (simp_all add: flow_def w)
  have "linked b ?x ?y ?c"
    using s1 s2 f le_trans [OF length_filter_le assms(10)] le_trans [OF length_filter_le assms(11)]
    by (simp add: linked_def)
  note r = run_schedule_linked [OF this assms(5) mem, of ss]
  have "inq (tp_caller (run_schedule b ss ?c)) = []" "inq (tp_callee (run_schedule b ss ?c)) = []"
    using r s1(2) s2(2) assms(12,13) by simp_all
  note d = run_schedule_drained [OF conjunct1 [OF r] assms(5) mem this]
  show ?thesis unfolding assms(14) run_schedule_append d using r f by simp
qed


definition sample_caller :: channel where
  "sample_caller = (channel_new ''u1'' ''SIP/a'')\<lparr>frame_queue := [Text ''hello'', NullFrame, DtmfBegin CHR ''1'']\<rparr>"

definition sample_callee :: channel where
  "sample_callee = (channel_new ''u2'' ''SIP/b'')\<lparr>frame_queue := [Text ''hi'']\<rparr>"

definition sample_env :: bridge_env where
  "sample_env = \<lparr>be_store = [], be_routing = []\<rparr>"

lemma sample_setup:
  "\<exists>e effs0 b0 ch1 b1 effs1 h1 ch2 b effs2 h2.
     bridge_create ''br'' ''call'' SimpleBridge sample_env = (e, effs0, Inr b0) \<and>
     bridge_join SimpleBridge sample_caller b0 = (ch1, b1, effs1, Inr h1) \<and>
     bridge_join SimpleBridge sample_callee b1 = (ch2, b, effs2, Inr h2)"
  by (simp add: bridge_create_def bridge_join_def join_check_def join_add_def add_channel_def has_channel_def
      bridge_new_def bridge_channel_new_def num_channels_def sample_env_def sample_caller_def sample_callee_def
      channel_new_def Let_def)

theorem bridge_delivers_both_ways_witness:
  "\<exists>b h1 h2 ch1 ch2 e. write_queue (ls_channel (tp_callee (run_schedule b
      ([Callee, Caller, Caller, Callee, Caller] @ [Caller, Callee])
      \<lparr>tp_caller = loop_start h1 ch1, tp_callee = loop_start h2 ch2, tp_env = e\<rparr>)))
    = [Text ''hello'', DtmfBegin CHR ''1'']"
proof -
  obtain e effs0 b0 ch1 b1 effs1 h1 ch2 b effs2 h2 where
    s: "bridge_create ''br'' ''call'' SimpleBridge sample_env = (e, effs0, Inr b0)"
      "bridge_join SimpleBridge sample_caller b0 = (ch1, b1, effs1, Inr h1)"
      "bridge_join SimpleBridge sample_callee b1 = (ch2, b, effs2, Inr h2)"
    using sample_setup by blast
  have "hget (be_routing sample_env) ''br'' = None" "unique_id sample_caller \<noteq> unique_id sample_callee"
      "write_queue sample_caller = []" "write_queue sample_callee = []"
      "\<not> list_ex is_hangup_frame (frame_queue sample_caller)" "\<not> list_ex is_hangup_frame (frame_queue sample_callee)"
      "length (frame_queue sample_caller) \<le> MAX_FRAME_QUEUE_SIZE" "length (frame_queue sample_callee) \<le> MAX_FRAME_QUEUE_SIZE"
      "length (frame_queue sample_caller) \<le> count_list [Callee, Caller, Caller, Callee, Caller] Caller"
      "length (frame_queue sample_callee) \<le> count_list [Callee, Caller, Caller, Callee, Caller] Callee"
      "filter should_pass_frame (frame_queue sample_caller) = [Text ''hello'', DtmfBegin CHR ''1'']"
    by (simp_all add: sample_env_def sample_caller_def sample_callee_def channel_new_def is_hangup_frame_def
        MAX_FRAME_QUEUE_SIZE_def should_pass_frame_def)
  with bridge_delivers_both_ways [OF s(1) _ s(2,3) _ _ _ _ _ _ _ _ _ refl, of "[Callee, Caller, Caller, Callee, Caller]"]
  show ?thesis by metis
qed

end
