(* ===== verification/Bridge_Life.thy ===== *)
theory Bridge_Life
  imports Bridge_Call
begin

section \<open>The life cycle of a bridge\<close>

text \<open>
  Joining, leaving and dissolving as the tasks of several channels perform them. Each operation takes the
  lock of the bridge several times; the relation below has one step per critical section, so its
  reachable states are those of every interleaving.
\<close>

subsection \<open>Membership under any interleaving\<close>

inductive bridge_step :: "technology \<Rightarrow> bridge \<Rightarrow> bridge \<Rightarrow> bool" for tech where
  step_join: "bridge_step tech b (fst (join_add tech ch b))"
| step_leave: "bridge_step tech b (fst (remove_channel cid b))"
| step_dissolve: "bridge_dissolve tech b e = (b', e', effs) \<Longrightarrow> bridge_step tech b b'"

inductive bridge_reach :: "technology \<Rightarrow> bridge \<Rightarrow> bridge \<Rightarrow> bool" for tech b0 where
  reach_refl: "bridge_reach tech b0 b0"
| reach_step: "bridge_reach tech b0 b \<Longrightarrow> bridge_step tech b b' \<Longrightarrow> bridge_reach tech b0 b'"

inductive_cases bridge_stepE: "bridge_step tech b b'"

definition bridge_wf :: "bridge \<Rightarrow> bool" where
  "bridge_wf b \<longleftrightarrow> distinct (map bc_channel_id (br_channels b)) \<and> br_num_active b = length (br_channels b)"

lemma bridge_wf_new:
  "bridge_wf (bridge_with_flags uid name flags) \<and> br_unique_id (bridge_with_flags uid name flags) = uid \<and>
   br_flags (bridge_with_flags uid name flags) = flags"
  by (simp add: bridge_wf_def bridge_with_flags_def bridge_new_def)

lemma bridge_wf_add: "bridge_wf b \<Longrightarrow> bridge_wf (add_channel cid name b)"
  by (auto simp: bridge_wf_def add_channel_def has_channel_def bridge_channel_new_def Let_def)

lemma bridge_wf_remove: "bridge_wf b \<Longrightarrow> bridge_wf (fst (remove_channel cid b))"
  by (auto simp: bridge_wf_def remove_channel_def Let_def distinct_map_filter not_less intro: le_antisym)

lemma bridge_wf_dissolve: "bridge_wf b \<Longrightarrow> bridge_dissolve tech b e = (b', e', effs) \<Longrightarrow> bridge_wf b'"
  by (auto simp: bridge_wf_def bridge_dissolve_def Let_def comp_def split: if_splits)

lemma bridge_dissolve_frame:
  "bridge_dissolve tech b e = (b', e', effs) \<Longrightarrow> br_unique_id b' = br_unique_id b \<and> br_dissolved b' \<and> br_flags b' = br_flags b"
  by (auto simp: bridge_dissolve_def Let_def split: if_splits)

lemma bridge_step_keeps:
  assumes "bridge_step tech b b'"
  shows "(bridge_wf b \<longrightarrow> bridge_wf b') \<and> br_unique_id b' = br_unique_id b \<and> br_flags b' = br_flags b \<and>
    (br_dissolved b \<longrightarrow> br_dissolved b')"
  using assms
proof (cases rule: bridge_step.cases)
  case (step_join ch)
  then show ?thesis by (simp add: join_add_def Let_def bridge_wf_add) (simp add: add_channel_def Let_def)
next
  case (step_leave cid)
  then show ?thesis by (simp add: bridge_wf_remove) (simp add: remove_channel_def Let_def)
next
  case (step_dissolve e e' effs)
  then show ?thesis using bridge_wf_dissolve [OF _ step_dissolve] bridge_dissolve_frame [OF step_dissolve] by simp
qed

text \<open>
  (C27) Whatever tasks join, leave or dissolve a bridge and however their critical sections interleave, no
  channel is ever a member twice, the counter of active members is the number of members, the identity and
  the flags stay, and a dissolved bridge stays dissolved.
\<close>

theorem bridge_membership_wf:
  assumes "bridge_reach tech (bridge_with_flags uid name flags) b"
  shows "distinct (map bc_channel_id (br_channels b)) \<and> br_num_active b = num_channels b \<and>
    br_unique_id b = uid \<and> br_flags b = flags \<and>
    (bridge_step tech b b' \<and> br_dissolved b \<longrightarrow> br_dissolved b')"
proof -
  have "bridge_wf b \<and> br_unique_id b = uid \<and> br_flags b = flags"
    using assms
  proof induction
    case (reach_step b b')
    then show ?case using bridge_step_keeps [OF reach_step.hyps(2)] by simp
  qed (rule bridge_wf_new)
  then show ?thesis using bridge_step_keeps [of tech b b'] by (auto simp: bridge_wf_def num_channels_def)
qed

theorem bridge_membership_wf_witness:
  "br_num_active (fst (join_add SimpleBridge (channel_new ''u1'' ''SIP/a'') (bridge_with_flags ''br'' ''call'' 0))) = 1"
proof -
  let ?new = "bridge_with_flags ''br'' ''call'' 0" and ?ch = "channel_new ''u1'' ''SIP/a''"
  let ?b = "fst (join_add SimpleBridge ?ch ?new)"
  have "bridge_reach SimpleBridge ?new ?b" by (rule reach_step [OF reach_refl step_join])
  from bridge_membership_wf [OF this] have "br_num_active ?b = num_channels ?b" by simp
  also have "\<dots> = 1"
    by (simp add: join_add_def add_channel_def has_channel_def num_channels_def bridge_with_flags_def bridge_new_def Let_def)
  finally show ?thesis .
qed

subsection \<open>Races between joining and other operations\<close>

text \<open>
  The check of a join and its update are separate critical sections: a bridge dissolved in between still
  takes the channel, and two joins of one channel that both pass the check make it a member of both bridges.
\<close>

lemma join_add_member:
  "has_channel cid b \<or> fst (join_add tech ch b) = b\<lparr>br_channels := br_channels b @ [bc], br_num_active := length (br_channels b) + 1\<rparr>"
  if "cid = unique_id ch" "bc = \<lparr>bc_channel_id = cid, bc_channel_name = ch_name ch, bc_state = BS_Joined, bc_features = 0\<rparr>"
  using that by (simp add: join_add_def add_channel_def bridge_channel_new_def Let_def)

lemma join_after_dissolve:
  assumes "join_check ch b = Inr ()" "bridge_dissolve tech b e = (b1, e1, effs)" "\<not> has_channel (unique_id ch) b"
  shows "br_dissolved (fst (join_add tech ch b1)) \<and>
    (\<exists>bc \<in> set (br_channels (fst (join_add tech ch b1))). bc_channel_id bc = unique_id ch \<and> bc_state bc = BS_Joined)"
proof -
  have "\<not> br_dissolved b" using assms(1) by (simp add: join_check_def split: if_splits)
  then have b1: "b1 = b\<lparr>br_dissolved := True, br_channels := map (\<lambda>bc. bc\<lparr>bc_state := BS_Leaving\<rparr>) (br_channels b)\<rparr>"
    using assms(2) by (simp add: bridge_dissolve_def Let_def)
  have "\<not> has_channel (unique_id ch) b1" using assms(3) by (simp add: b1 has_channel_def)
  with join_add_member [OF refl refl, of ch b1 tech] show ?thesis by (simp add: b1)
qed

lemma join_race_two_bridges:
  assumes "join_check ch b1 = Inr ()" "join_check ch b2 = Inr ()"
    and "b1' = fst (join_add tech ch b1)" "b2' = fst (join_add tech ch b2)" "ch' = join_set b2' (join_set b1' ch)"
  shows "has_channel (unique_id ch') b1' \<and> has_channel (unique_id ch') b2' \<and> bridge_id ch' = Some (br_unique_id b2)"
proof -
  have "has_channel (unique_id ch) (fst (join_add tech ch b))" for b
  proof (cases "has_channel (unique_id ch) b")
    case True
    then show ?thesis by (simp add: join_add_def add_channel_def)
  next
    case False
    with join_add_member [OF refl refl, of ch b tech] show ?thesis by (simp add: has_channel_def)
  qed
  moreover have "br_unique_id (fst (join_add tech ch b)) = br_unique_id b" for b
    by (simp add: join_add_def add_channel_def Let_def)
  ultimately show ?thesis by (simp add: assms(3-5) join_set_def)
qed


subsection \<open>Dissolving does not reach the event loops\<close>

lemma process_frame_leave: "snd (process_frame f cid feats) = FLeave \<longleftrightarrow> is_hangup_frame f"
  by (cases f) (auto simp: process_frame_def process_digit_def is_hangup_frame_def
      split: control_frame.splits option.splits dtmf_feature_result.splits prod.splits)

lemma fold_queue_write_frame_frame:
  "frame_queue (fold queue_write_frame fs ch) = frame_queue ch \<and> bridge_id (fold queue_write_frame fs ch) = bridge_id ch"
  by (induction fs arbitrary: ch) (simp_all add: queue_write_frame_def)

lemma routed_write: "hget (be_routing e) (br_unique_id b) \<noteq> None \<Longrightarrow>
  hget (be_routing (tech_write_frame tech b bc f e)) (br_unique_id b) \<noteq> None"
  by (cases tech) (auto simp: simple_write_frame_def get_simple_routing_def put_routing_def split: option.split)

text \<open>A loop whose channel has no hangup queued goes on, and enters the bridge into the routing table.\<close>

lemma loop_round_stays:
  assumes "bc_state (ls_handle s) \<noteq> BS_Leaving" "\<not> list_ex is_hangup_frame (inq s)"
  shows "\<exists>s' e'. loop_round tech b (s, e) = ((s', e'), False) \<and> ls_handle s' = ls_handle s \<and>
    \<not> list_ex is_hangup_frame (inq s') \<and> bridge_id (ls_channel s') = bridge_id (ls_channel s) \<and>
    hget (be_routing e') (br_unique_id b) \<noteq> None"
proof -
  obtain ch1 e1 where d: "deliver_inbound (bc_channel_id (ls_handle s)) b (ls_channel s, e) = (ch1, e1)" by fastforce
  have ch1: "frame_queue ch1 = inq s" "bridge_id ch1 = bridge_id (ls_channel s)"
    using deliver_inbound_waiting(1) [OF d] fold_queue_write_frame_frame by simp_all
  have e1: "hget (be_routing e1) (br_unique_id b) \<noteq> None"
    using d by (auto simp: deliver_inbound_def put_routing_def split: prod.splits)
  show ?thesis
  proof (cases "inq s")
    case Nil
    then show ?thesis using assms(1) d ch1 e1 by (simp add: loop_round_def dequeue_frame_inq Let_def)
  next
    case (Cons f fs)
    obtain feats act where p: "process_frame f (bc_channel_id (ls_handle s)) (ls_features s) = (feats, act)" by fastforce
    have f: "act \<noteq> FLeave" "\<not> list_ex is_hangup_frame fs"
      using process_frame_leave [of f "bc_channel_id (ls_handle s)" "ls_features s"] p assms(2) Cons by auto
    then show ?thesis using assms(1) d ch1 e1 p Cons routed_write [of e1 b]
      by (cases act) (simp_all add: loop_round_def dequeue_frame_inq Let_def)
  qed
qed

lemma loop_rounds_stay:
  assumes "bc_state (ls_handle s) \<noteq> BS_Leaving" "\<not> list_ex is_hangup_frame (inq s)"
  shows "\<exists>s' e'. loop_rounds n tech b (s, e) = ((s', e'), False) \<and> bridge_id (ls_channel s') = bridge_id (ls_channel s) \<and>
    (0 < n \<longrightarrow> hget (be_routing e') (br_unique_id b) \<noteq> None)"
  using assms
proof (induction n arbitrary: s e)
  case (Suc n)
  obtain s1 e1 where 1: "loop_round tech b (s, e) = ((s1, e1), False)" "ls_handle s1 = ls_handle s"
      "\<not> list_ex is_hangup_frame (inq s1)" "bridge_id (ls_channel s1) = bridge_id (ls_channel s)"
      "hget (be_routing e1) (br_unique_id b) \<noteq> None"
    using loop_round_stays [OF Suc.prems] by blast
  show ?case
  proof (cases n)
    case 0
    then show ?thesis using 1 by simp
  next
    case (Suc m)
    then show ?thesis using Suc.IH [of s1 e1] Suc.prems(1) 1 by simp
  qed
qed simp


text \<open>
  (C40) Dissolving a bridge does not make its members leave: it marks the entries of the bridge's list, while
  the event loop of a member watches the handle that joining returned. Unless a hangup frame arrives, the
  loop goes on for any number of rounds, its channel still refers to the bridge that is no longer
  registered, and the routing table the technology removed is created again.
\<close>

theorem dissolve_leaves_loops_running:
  assumes "bridge_join tech ch b = (ch', b1, effs1, Inr h)" "bridge_dissolve tech b1 e = (b2, e2, effs2)"
    and "\<not> list_ex is_hangup_frame (frame_queue ch)"
  shows "\<exists>s' e'. loop_rounds n tech b2 (\<lparr>ls_handle = h, ls_channel = ch', ls_features = feats\<rparr>, e2) = ((s', e'), False) \<and>
    bridge_id (ls_channel s') = Some (br_unique_id b) \<and>
    list_all (\<lambda>bc. bc_state bc = BS_Leaving) (br_channels b2) \<and> br_unique_id b \<notin> set (be_store e2) \<and>
    (0 < n \<longrightarrow> hget (be_routing e') (br_unique_id b) \<noteq> None)"
proof -
  note j = bridge_join_ok [OF assms(1)]
  have b1: "\<not> br_dissolved b1" "br_unique_id b1 = br_unique_id b"
    using j(3,4) by (simp_all add: add_channel_def Let_def)
  then have b2: "br_unique_id b2 = br_unique_id b" "list_all (\<lambda>bc. bc_state bc = BS_Leaving) (br_channels b2)"
      "br_unique_id b \<notin> set (be_store e2)"
    using assms(2) by (auto simp: bridge_dissolve_def Let_def deregister_bridge_def list_all_iff)
  let ?s = "\<lparr>ls_handle = h, ls_channel = ch', ls_features = feats\<rparr>"
  have "bc_state (ls_handle ?s) \<noteq> BS_Leaving" "\<not> list_ex is_hangup_frame (inq ?s)"
    using j(1,2) assms(3) by simp_all
  from loop_rounds_stay [OF this, of n tech b2 e2] show ?thesis using b2 j(2) by simp
qed

theorem dissolve_leaves_loops_running_witness:
  "\<exists>h ch b e s' e'. loop_rounds 5 SimpleBridge b (\<lparr>ls_handle = h, ls_channel = ch, ls_features = None\<rparr>, e) = ((s', e'), False) \<and>
     bridge_id (ls_channel s') = Some ''br''"
proof -
  have "join_check sample_caller (bridge_new ''br'' ''call'') = Inr ()"
    by (simp add: join_check_def sample_caller_def channel_new_def bridge_new_def)
  then obtain ch b1 effs1 h where j: "bridge_join SimpleBridge sample_caller (bridge_new ''br'' ''call'') = (ch, b1, effs1, Inr h)"
    by (simp add: bridge_join_def join_add_def add_channel_def has_channel_def num_channels_def bridge_new_def Let_def)
  obtain b2 e2 effs2 where d: "bridge_dissolve SimpleBridge b1 sample_env = (b2, e2, effs2)"
    by (cases "bridge_dissolve SimpleBridge b1 sample_env")
  have "\<not> list_ex is_hangup_frame (frame_queue sample_caller)"
    by (simp add: sample_caller_def is_hangup_frame_def)
  from dissolve_leaves_loops_running [OF j d this, of 5 None] obtain s' e' where
    "loop_rounds 5 SimpleBridge b2 (\<lparr>ls_handle = h, ls_channel = ch, ls_features = None\<rparr>, e2) = ((s', e'), False)"
    "bridge_id (ls_channel s') = Some ''br''"
    by (auto simp: bridge_new_def)
  then show ?thesis by blast
qed

subsection \<open>A refused join\<close>

lemma fold_write_waiting:
  assumes "distinct (map bc_channel_id (br_channels b))" "has_channel cid b" "cid \<noteq> bc_channel_id bc"
  shows "waiting b (fold (simple_write_frame b bc) fs e) cid = waiting b e cid @ filter should_pass_frame fs"
  by (induction fs arbitrary: e) (simp_all add: write_frame_waiting [OF assms(1)] assms(2,3) should_pass_same)

lemma num_channels_remove:
  assumes "distinct (map bc_channel_id (br_channels b))" "has_channel cid b"
  shows "num_channels (fst (remove_channel cid b)) = num_channels b - 1"
proof -
  have "length (filter (\<lambda>bc. bc_channel_id bc \<noteq> cid) bcs) = length bcs - 1"
    if "distinct (map bc_channel_id bcs)" "cid \<in> bc_channel_id ` set bcs" for bcs
    using that
  proof (induction bcs)
    case (Cons bc bcs)
    have "filter (\<lambda>b. bc_channel_id b \<noteq> cid) bcs = bcs" if "bc_channel_id bc = cid"
      using Cons.prems(1) that by (intro filter_True) (auto, metis imageI)
    moreover have "bcs \<noteq> []" if "bc_channel_id bc \<noteq> cid" using Cons.prems(2) that by auto
    ultimately show ?case using Cons by (cases "bc_channel_id bc = cid") auto
  qed simp
  from this [OF assms(1)] show ?thesis
    using assms(2) by (auto simp: num_channels_def remove_channel_def has_channel_def Let_def)
qed


text \<open>
  A third channel that a simple bridge refuses stays in its list of members: every frame a member
  sends is stored for it although no loop will fetch it, any further join is refused, and when one of
  the two parties leaves, the bridge counts two members and is not dissolved under the other.
\<close>

theorem refused_join_leaves_member:
  assumes "num_channels b = 2" "\<not> br_dissolved b" "distinct (map bc_channel_id (br_channels b))"
    and "bridge_id ch = None" "\<not> has_channel (unique_id ch) b" "bc \<in> set (br_channels b)"
    and "bridge_id ch2 = None"
  shows "\<exists>b' err. bridge_join SimpleBridge ch b = (ch, b', [], Inl err) \<and> has_channel (unique_id ch) b' \<and>
    waiting b' (fold (simple_write_frame b' bc) fs e) (unique_id ch) = waiting b' e (unique_id ch) @ filter should_pass_frame fs \<and>
    (\<exists>b2 err2. bridge_join SimpleBridge ch2 b' = (ch2, b2, [], Inl err2)) \<and>
    \<not> should_dissolve (fst (remove_channel (bc_channel_id bc) b'))"
proof -
  let ?m = "\<lparr>bc_channel_id = unique_id ch, bc_channel_name = ch_name ch, bc_state = BS_Joined, bc_features = 0\<rparr>"
  let ?b = "b\<lparr>br_channels := br_channels b @ [?m], br_num_active := length (br_channels b) + 1\<rparr>"
  have add: "add_channel (unique_id ch) (ch_name ch) b = ?b"
    using assms(5) by (simp add: add_channel_def bridge_channel_new_def Let_def)
  have n: "num_channels ?b = 3" using assms(1) by (simp add: num_channels_def)
  have join: "bridge_join SimpleBridge ch b = (ch, ?b, [], Inl (InvalidArgument ''simple bridge supports at most 2 channels''))"
    using assms(2,4) n by (simp add: bridge_join_def join_check_def join_add_def add Let_def)
  have mem: "has_channel (unique_id ch) ?b" by (simp add: has_channel_def)
  have bc: "unique_id ch \<noteq> bc_channel_id bc" "has_channel (bc_channel_id bc) ?b"
    using assms(5,6) by (auto simp: has_channel_def)
  have dist: "distinct (map bc_channel_id (br_channels ?b))"
    using assms(3,5) by (auto simp: has_channel_def)
  have "num_channels (add_channel (unique_id ch2) (ch_name ch2) ?b) > 2"
    using n by (simp add: add_channel_def num_channels_def Let_def)
  then have j2: "\<exists>b2 err2. bridge_join SimpleBridge ch2 ?b = (ch2, b2, [], Inl err2)"
    using assms(2,7) by (simp add: bridge_join_def join_check_def join_add_def Let_def)
  have "\<not> should_dissolve (fst (remove_channel (bc_channel_id bc) ?b))"
    using num_channels_remove [OF dist bc(2)] n by (simp add: should_dissolve_def)
  with join mem fold_write_waiting [OF dist mem bc(1), of fs e] j2 show ?thesis by blast
qed


theorem refused_join_leaves_member_witness:
  "\<exists>b b' err. num_channels b = 2 \<and> bridge_join SimpleBridge (channel_new ''u3'' ''SIP/c'') b = (channel_new ''u3'' ''SIP/c'', b', [], Inl err) \<and>
     has_channel ''u3'' b'"
proof -
  let ?b = "add_channel ''u2'' ''SIP/b'' (add_channel ''u1'' ''SIP/a'' (bridge_new ''br'' ''call''))"
  let ?ch = "channel_new ''u3'' ''SIP/c''"
  have "num_channels ?b = 2" "\<not> br_dissolved ?b" "distinct (map bc_channel_id (br_channels ?b))"
      "bridge_id ?ch = None" "\<not> has_channel (unique_id ?ch) ?b" "hd (br_channels ?b) \<in> set (br_channels ?b)" "unique_id ?ch = ''u3''"
    by (simp_all add: add_channel_def has_channel_def bridge_new_def bridge_channel_new_def num_channels_def
        channel_new_def Let_def)
  with refused_join_leaves_member [of ?b ?ch "hd (br_channels ?b)" ?ch "[]" sample_env] show ?thesis by metis
qed

subsection \<open>Feature codes pressed on a phone\<close>

text \<open>A pressed digit is a begin frame and an end frame.\<close>

definition presses :: "u32 \<Rightarrow> string \<Rightarrow> frame list" where
  "presses duration ds = concat (map (\<lambda>d. [DtmfBegin d, DtmfEnd d duration]) ds)"

definition doubled :: "string \<Rightarrow> string" where
  "doubled ds = concat (map (\<lambda>d. [d, d]) ds)"

fun process_frames :: "string \<Rightarrow> frame list \<Rightarrow> builtin_features option \<Rightarrow> builtin_features option" where
  "process_frames cid [] feats = feats"
| "process_frames cid (f # fs) feats = process_frames cid fs (fst (process_frame f cid feats))"

lemma process_frames_presses:
  "process_frames cid (presses duration ds) (Some e) = Some (fst (feed_digits cid (doubled ds) e))"
proof (induction ds arbitrary: e)
  case (Cons d ds)
  then show ?case by (simp add: presses_def doubled_def process_frame_def process_digit_def split: prod.split)
qed (simp add: presses_def doubled_def)

text \<open>Codes of at least two digits, the first two different.\<close>

definition two_digit_codes :: "builtin_features \<Rightarrow> bool" where
  "two_digit_codes e \<longleftrightarrow> list_all (\<lambda>f. 2 \<le> length (df_code f) \<and> df_code f ! 0 \<noteq> df_code f ! 1) (bf_features e)"

lemma process_dtmf_single:
  assumes "two_digit_codes e" "get_buffered_digits cid e = None"
  obtains e1 where "process_dtmf cid d e = (e1, Collecting)" "get_buffered_digits cid e1 = Some [d]" "bf_features e1 = bf_features e"
  | e1 where "process_dtmf cid d e = (e1, PassThrough)" "get_buffered_digits cid e1 = None" "bf_features e1 = bf_features e"
proof -
  have "[d] \<noteq> df_code f" if "f \<in> set (bf_features e)" for f
    using assms(1) that by (cases "df_code f") (auto simp: two_digit_codes_def list_all_iff)
  then have "find (\<lambda>f. [d] = df_code f) (bf_features e) = None" by (auto simp: find_None_iff)
  then show thesis using assms(2) that
    by (cases "\<exists>f \<in> set (bf_features e). starts_with [d] (df_code f)")
      (simp_all add: process_dtmf_def get_buffered_digits_def)
qed

lemma process_dtmf_double:
  assumes "two_digit_codes e" "get_buffered_digits cid e = Some [d]"
  obtains e1 where "process_dtmf cid d e = (e1, PassThrough)" "get_buffered_digits cid e1 = None" "bf_features e1 = bf_features e"
proof -
  have no: "\<not> starts_with [d, d] (df_code f)" if "f \<in> set (bf_features e)" for f
    using assms(1) that by (auto simp: two_digit_codes_def list_all_iff starts_with_iff)
  then have "find (\<lambda>f. [d, d] = df_code f) (bf_features e) = None"
    by (auto simp: find_None_iff starts_with_iff dest!: sym [of "[d, d]"])
  then show thesis using assms(2) that no by (simp add: process_dtmf_def get_buffered_digits_def)
qed


lemma feed_doubled:
  assumes "two_digit_codes e" "get_buffered_digits cid e = None"
  shows "Triggered a \<notin> set (snd (feed_digits cid (doubled ds) e))"
  using assms
proof (induction ds arbitrary: e)
  case (Cons d ds)
  have step: "Triggered a \<notin> set (snd (feed_digits cid (doubled (d # ds)) e))"
    if "process_dtmf cid d e = (e1, r1)" "process_dtmf cid d e1 = (e2, PassThrough)" "r1 \<in> {Collecting, PassThrough}"
      "get_buffered_digits cid e2 = None" "bf_features e2 = bf_features e" for e1 r1 e2
    using Cons.IH [of e2] Cons.prems(1) that by (auto simp: doubled_def two_digit_codes_def)
  consider e1 where "process_dtmf cid d e = (e1, Collecting)" "get_buffered_digits cid e1 = Some [d]" "bf_features e1 = bf_features e"
    | e1 where "process_dtmf cid d e = (e1, PassThrough)" "get_buffered_digits cid e1 = None" "bf_features e1 = bf_features e"
    using Cons.prems by (rule process_dtmf_single)
  then show ?case
  proof cases
    case (1 e1)
    have "two_digit_codes e1" using Cons.prems(1) 1(3) by (simp add: two_digit_codes_def)
    then obtain e2 where "process_dtmf cid d e1 = (e2, PassThrough)" "get_buffered_digits cid e2 = None" "bf_features e2 = bf_features e1"
      using 1(2) by (rule process_dtmf_double)
    then show ?thesis using step [of e1 Collecting e2] 1 by simp
  next
    case (2 e1)
    have "e1 = e\<lparr>bf_digit_buffers := hremove cid (bf_digit_buffers e)\<rparr>"
      using 2(1) by (auto simp: process_dtmf_def Let_def split: option.splits if_splits)
    then have "process_dtmf cid d e1 = (e1, PassThrough)"
      using 2(1) Cons.prems(2) by (auto simp: process_dtmf_def get_buffered_digits_def Let_def delete_idem split: option.splits if_splits)
    then show ?thesis using step [of e1 PassThrough e1] 2 by simp
  qed
qed (simp add: doubled_def)

text \<open>
  In the event loop no feature code of two or more digits whose first two differ can be dialled: a
  pressed digit is a begin and an end frame and the loop feeds both to the feature engine, which sees
  every digit twice; whatever is pressed, no feature is triggered.
\<close>

theorem pressed_codes_never_trigger:
  assumes "two_digit_codes e" "get_buffered_digits cid e = None"
  shows "process_frames cid (presses duration ds) (Some e) = Some (fst (feed_digits cid (doubled ds) e)) \<and>
    (\<forall>a. Triggered a \<notin> set (snd (feed_digits cid (doubled ds) e)))"
  using process_frames_presses feed_doubled [OF assms] by blast

theorem pressed_codes_never_trigger_witness:
  "Triggered Disconnect \<notin> set (snd (feed_digits ''c'' (doubled ''12'')
     (features_with_config (features_config_default\<lparr>fc_blind_transfer_code := [], fc_attended_transfer_code := [],
        fc_disconnect_code := ''12''\<rparr>))))"
proof -
  let ?e = "features_with_config (features_config_default\<lparr>fc_blind_transfer_code := [], fc_attended_transfer_code := [],
    fc_disconnect_code := ''12''\<rparr>)"
  have "two_digit_codes ?e" "get_buffered_digits ''c'' ?e = None"
    by (simp_all add: features_with_config_def features_config_default_def build_feature_list_def
        feature_unless_empty_def two_digit_codes_def get_buffered_digits_def)
  from pressed_codes_never_trigger [OF this, where ds = "''12''"] show ?thesis by blast
qed

end
