(* ===== verification/Softmix.thy ===== *)
theory Softmix
  imports Bridge
begin

section \<open>Mixing of conference audio\<close>

text \<open>
  The multi-party technology of \<^verbatim>\<open>crates/asterisk-core/src/bridge/softmix.rs\<close>: the shared mixing
  state, what the technology does when a channel joins, leaves or sends a frame, one mixing interval, and
  the frame a channel is given. Samples are \<^verbatim>\<open>i16\<close> words read by \<^const>\<open>sint\<close>; the \<^verbatim>\<open>i32\<close> sums
  are integers with the overflow checks written out, an overflow being the outer \<^const>\<open>None\<close>.
\<close>

unbundle bit_operations_syntax

type_synonym i16 = "16 word"

subsection \<open>State\<close>

definition DEFAULT_SOFTMIX_INTERVAL_MS :: u32 where "DEFAULT_SOFTMIX_INTERVAL_MS = 20"
definition SOFTMIX_MIN_SAMPLE_RATE :: u32 where "SOFTMIX_MIN_SAMPLE_RATE = 8000"
definition DEFAULT_INTERNAL_RATE :: u32 where "DEFAULT_INTERNAL_RATE = 8000"

definition softmix_samples :: "u32 \<Rightarrow> u32 \<Rightarrow> nat" where
  "softmix_samples rate interval_ms = unat rate * unat interval_ms div 1000"

record softmix_channel_data =
  sc_our_buf :: "i16 list"
  sc_have_audio :: bool
  sc_channel_name :: string

definition softmix_channel_data_new :: "string \<Rightarrow> nat \<Rightarrow> softmix_channel_data" where
  "softmix_channel_data_new name num_samples =
     \<lparr>sc_our_buf = replicate num_samples 0, sc_have_audio = False, sc_channel_name = name\<rparr>"

definition softmix_clear :: "softmix_channel_data \<Rightarrow> softmix_channel_data" where
  "softmix_clear cd = cd\<lparr>sc_our_buf := map (\<lambda>_. 0) (sc_our_buf cd), sc_have_audio := False\<rparr>"

record softmix_data =
  sd_internal_rate :: u32
  sd_mixing_interval_ms :: u32
  sd_channel_buffers :: "(string, softmix_channel_data) hashmap"
  sd_num_samples :: nat
  sd_running :: bool
  sd_output_frames :: "(string, i16 list) hashmap"

definition softmix_data_new :: "u32 \<Rightarrow> u32 \<Rightarrow> softmix_data" where
  "softmix_data_new internal_rate mixing_interval_ms =
     \<lparr>sd_internal_rate = internal_rate, sd_mixing_interval_ms = mixing_interval_ms, sd_channel_buffers = [],
      sd_num_samples = softmix_samples internal_rate mixing_interval_ms, sd_running = False, sd_output_frames = []\<rparr>"

definition softmix_with_params :: "u32 \<Rightarrow> u32 \<Rightarrow> softmix_data" where
  "softmix_with_params internal_rate interval_ms =
     softmix_data_new (max internal_rate SOFTMIX_MIN_SAMPLE_RATE)
       (if interval_ms = 0 then DEFAULT_SOFTMIX_INTERVAL_MS else interval_ms)"

subsection \<open>One mixing interval\<close>

definition add_i32 :: "int \<Rightarrow> int \<Rightarrow> int option" where
  "add_i32 a b = (if - (2 ^ 31) \<le> a + b \<and> a + b < 2 ^ 31 then Some (a + b) else None)"

definition clamp_i16 :: "int \<Rightarrow> i16" where
  "clamp_i16 m = word_of_int (max (- 32768) (min 32767 m))"

fun add_samples :: "i16 list \<Rightarrow> int list \<Rightarrow> int list option" where
  "add_samples (s # ss) (t # ts) =
     Option.bind (add_i32 t (sint s)) (\<lambda>u. map_option ((#) u) (add_samples ss ts))"
| "add_samples ss ts = Some ts"

fun total_mix :: "softmix_channel_data list \<Rightarrow> int list \<Rightarrow> int list option" where
  "total_mix [] ts = Some ts"
| "total_mix (cd # cds) ts =
     Option.bind (if sc_have_audio cd then add_samples (sc_our_buf cd) ts else Some ts) (total_mix cds)"

definition own_contribution :: "softmix_channel_data option \<Rightarrow> nat \<Rightarrow> int" where
  "own_contribution chan_data i =
     (case chan_data of
        Some cd \<Rightarrow> if sc_have_audio cd \<and> i < length (sc_our_buf cd) then sint (sc_our_buf cd ! i) else 0
      | None \<Rightarrow> 0)"

definition channel_output :: "int list \<Rightarrow> softmix_channel_data option \<Rightarrow> i16 list option" where
  "channel_output mixed chan_data =
     those (map (\<lambda>i. map_option clamp_i16 (add_i32 (mixed ! i) (- own_contribution chan_data i))) [0..<length mixed])"

fun mix_outputs :: "int list \<Rightarrow> (string, softmix_channel_data) hashmap \<Rightarrow> string list
    \<Rightarrow> (string, i16 list) hashmap \<Rightarrow> (string, i16 list) hashmap option" where
  "mix_outputs mixed bufs [] out = Some out"
| "mix_outputs mixed bufs (k # ks) out =
     Option.bind (channel_output mixed (hget bufs k)) (\<lambda>os. mix_outputs mixed bufs ks (hinsert k os out))"

definition softmix_mix :: "softmix_data \<Rightarrow> softmix_data option" where
  "softmix_mix d =
     (let bufs = sd_channel_buffers d
      in if bufs = [] then Some d
         else Option.bind (total_mix (map snd bufs) (replicate (sd_num_samples d) 0)) (\<lambda>mixed.
              map_option (\<lambda>out. d\<lparr>sd_output_frames := out,
                                  sd_channel_buffers := map (\<lambda>(k, cd). (k, softmix_clear cd)) bufs\<rparr>)
                (mix_outputs mixed bufs (map fst bufs) [])))"

text \<open>A tick of the mixing task; the flag says whether the task goes on.\<close>

definition mixing_tick :: "softmix_data \<Rightarrow> (softmix_data \<times> bool) option" where
  "mixing_tick d = (if sd_running d then map_option (\<lambda>d'. (d', True)) (softmix_mix d) else Some (d, False))"

subsection \<open>The technology\<close>

definition softmix_start :: "softmix_data \<Rightarrow> softmix_data" where
  "softmix_start d = d\<lparr>sd_running := True\<rparr>"

definition softmix_stop :: "softmix_data \<Rightarrow> softmix_data" where
  "softmix_stop d = d\<lparr>sd_running := False, sd_channel_buffers := [], sd_output_frames := []\<rparr>"

definition softmix_join :: "bridge_channel \<Rightarrow> softmix_data \<Rightarrow> softmix_data" where
  "softmix_join bc d = d\<lparr>sd_channel_buffers := hinsert (bc_channel_id bc)
     (softmix_channel_data_new (bc_channel_name bc) (sd_num_samples d)) (sd_channel_buffers d)\<rparr>"

definition softmix_leave :: "bridge_channel \<Rightarrow> softmix_data \<Rightarrow> softmix_data" where
  "softmix_leave bc d = d\<lparr>sd_channel_buffers := hremove (bc_channel_id bc) (sd_channel_buffers d),
     sd_output_frames := hremove (bc_channel_id bc) (sd_output_frames d)\<rparr>"

definition i16_from_le :: "u8 \<Rightarrow> u8 \<Rightarrow> i16" where
  "i16_from_le lo hi = ucast lo OR push_bit 8 (ucast hi)"

definition i16_to_le :: "i16 \<Rightarrow> u8 list" where
  "i16_to_le s = [ucast s, ucast (signed_drop_bit 8 s)]"

definition buffer_audio :: "u8 list \<Rightarrow> softmix_channel_data \<Rightarrow> softmix_channel_data" where
  "buffer_audio data cd =
     (let n = min (length data div 2) (length (sc_our_buf cd))
      in cd\<lparr>sc_our_buf := map (\<lambda>i. i16_from_le (data ! (i * 2)) (data ! (i * 2 + 1))) [0..<n] @ drop n (sc_our_buf cd),
            sc_have_audio := True\<rparr>)"

definition softmix_write_frame :: "bridge_channel \<Rightarrow> frame \<Rightarrow> softmix_data \<Rightarrow> softmix_data" where
  "softmix_write_frame from f d =
     (case f of
        Voice _ _ data _ _ _ _ \<Rightarrow>
          (case hget (sd_channel_buffers d) (bc_channel_id from) of
             Some cd \<Rightarrow> d\<lparr>sd_channel_buffers := hinsert (bc_channel_id from) (buffer_audio data cd) (sd_channel_buffers d)\<rparr>
           | None \<Rightarrow> d)
      | _ \<Rightarrow> d)"

definition get_mixed_output :: "string \<Rightarrow> u32 \<Rightarrow> softmix_data \<Rightarrow> frame option" where
  "get_mixed_output cid codec d =
     (case hget (sd_output_frames d) cid of
        Some samples \<Rightarrow>
          if list_all (\<lambda>s. s = 0) samples then None
          else Some (Voice codec (of_nat (length samples)) (concat (map i16_to_le samples)) 0 (- 1) 0 None)
      | None \<Rightarrow> None)"


subsection \<open>Sums without overflow\<close>

lemma sint_i16: "- 32768 \<le> sint (s :: i16)" "sint (s :: i16) \<le> 32767"
  using sint_greater_eq [of s] sint_less [of s] by simp_all

lemma abs_sint_i16: "\<bar>sint (s :: i16)\<bar> \<le> 32768"
  using sint_i16 [of s] by simp

lemma own_contribution_bound: "\<bar>own_contribution cd i\<bar> \<le> 32768"
  by (simp add: own_contribution_def abs_sint_i16 split: option.split)

lemma add_i32_small: "\<bar>a\<bar> \<le> m * 32768 \<Longrightarrow> \<bar>b\<bar> \<le> 32768 \<Longrightarrow> m < 65535 \<Longrightarrow> add_i32 a b = Some (a + b)"
  by (simp add: add_i32_def abs_le_iff)

lemma add_samples_sum:
  assumes "\<And>i. i < length ts \<Longrightarrow> \<bar>ts ! i\<bar> \<le> m * 32768" "m < 65535"
  shows "\<exists>us. add_samples ss ts = Some us \<and> length us = length ts \<and>
    (\<forall>i < length ts. us ! i = ts ! i + (if i < length ss then sint (ss ! i) else 0))"
  using assms(1)
proof (induction ss ts rule: add_samples.induct)
  case (1 s ss t ts)
  have a: "add_i32 t (sint s) = Some (t + sint s)"
    using 1(2) [of 0] assms(2) by (intro add_i32_small abs_sint_i16) simp_all
  have "\<exists>us. add_samples ss ts = Some us \<and> length us = length ts \<and>
      (\<forall>i < length ts. us ! i = ts ! i + (if i < length ss then sint (ss ! i) else 0))"
    by (rule 1(1) [OF a]) (use 1(2) [of "Suc i" for i] in simp)
  then show ?case by (auto simp: a nth_Cons split: nat.split)
qed simp_all

lemma sum_contributions_bound: "\<bar>\<Sum>cd \<leftarrow> cds. own_contribution (f cd) i\<bar> \<le> int (length cds) * 32768"
proof (induction cds)
  case (Cons cd cds)
  then show ?case using own_contribution_bound [of "f cd" i] by (simp add: algebra_simps)
qed simp

lemma total_mix_sum:
  assumes "\<And>i. i < length ts \<Longrightarrow> \<bar>ts ! i\<bar> \<le> m * 32768" "m + int (length cds) \<le> 65535"
  shows "\<exists>us. total_mix cds ts = Some us \<and> length us = length ts \<and>
    (\<forall>i < length ts. us ! i = ts ! i + (\<Sum>cd \<leftarrow> cds. own_contribution (Some cd) i))"
  using assms
proof (induction cds arbitrary: ts m)
  case (Cons cd cds)
  have "m < 65535" using Cons.prems(2) by simp
  obtain us where us: "(if sc_have_audio cd then add_samples (sc_our_buf cd) ts else Some ts) = Some us"
      "length us = length ts" "\<And>i. i < length ts \<Longrightarrow> us ! i = ts ! i + own_contribution (Some cd) i"
    using add_samples_sum [OF Cons.prems(1) \<open>m < 65535\<close>, of "sc_our_buf cd"] that
    by (cases "sc_have_audio cd") (auto simp: own_contribution_def)
  have "\<bar>us ! i\<bar> \<le> (m + 1) * 32768" if "i < length us" for i
    using us(2,3) that Cons.prems(1) [of i] own_contribution_bound [of "Some cd" i] by (simp add: algebra_simps)
  from Cons.IH [OF this] show ?case using us Cons.prems(2) by auto
qed simp


subsection \<open>Mix minus\<close>

text \<open>What a participant is to hear at a sample: the sum of what the others contribute.\<close>

definition sum_of_others :: "string \<Rightarrow> (string, softmix_channel_data) hashmap \<Rightarrow> nat \<Rightarrow> int" where
  "sum_of_others cid bufs i = (\<Sum>(_, cd) \<leftarrow> filter (\<lambda>(k, _). k \<noteq> cid) bufs. own_contribution (Some cd) i)"

lemma sum_of_others_absent:
  "hget bufs cid = None \<Longrightarrow> sum_of_others cid bufs i = (\<Sum>cd \<leftarrow> map snd bufs. own_contribution (Some cd) i)"
proof (induction bufs)
  case (Cons kc bufs)
  then show ?case by (cases kc) (simp add: sum_of_others_def split: if_splits)
qed (simp add: sum_of_others_def)

lemma sum_of_others_split:
  "hm_wf bufs \<Longrightarrow> hget bufs cid = Some cd \<Longrightarrow>
   (\<Sum>cd \<leftarrow> map snd bufs. own_contribution (Some cd) i) - own_contribution (Some cd) i = sum_of_others cid bufs i"
proof (induction bufs)
  case (Cons kc bufs)
  obtain k c where kc: "kc = (k, c)" by (cases kc)
  show ?case
  proof (cases "k = cid")
    case True
    then have "hget bufs cid = None" using Cons.prems(1) by (simp add: kc hm_wf_def map_of_eq_None_iff)
    with True show ?thesis
      using sum_of_others_absent [of bufs cid i] Cons.prems(2) by (simp add: kc sum_of_others_def)
  next
    case False
    then show ?thesis using Cons by (simp add: kc sum_of_others_def hm_wf_def algebra_simps)
  qed
qed simp

lemma sum_of_others_bound: "\<bar>sum_of_others cid bufs i\<bar> \<le> int (length bufs) * 32768"
proof -
  have "length (filter (\<lambda>(k, _). k \<noteq> cid) bufs) \<le> length bufs" by (rule length_filter_le)
  moreover have "\<bar>sum_of_others cid bufs i\<bar> \<le> int (length (filter (\<lambda>(k, _). k \<noteq> cid) bufs)) * 32768"
    using sum_contributions_bound [where f = "\<lambda>kc. Some (snd kc)" and cds = "filter (\<lambda>(k, _). k \<noteq> cid) bufs" and i = i]
    by (simp add: sum_of_others_def case_prod_unfold)
  ultimately show ?thesis by linarith
qed

lemma those_map_Some: "(\<And>x. x \<in> set xs \<Longrightarrow> f x = Some (g x)) \<Longrightarrow> those (map f xs) = Some (map g xs)"
  by (induction xs) simp_all

lemma channel_output_others:
  assumes "hm_wf bufs" "length bufs \<le> 65535" "hget bufs cid = Some cd"
    and "\<And>i. i < length mixed \<Longrightarrow> mixed ! i = (\<Sum>cd \<leftarrow> map snd bufs. own_contribution (Some cd) i)"
  shows "channel_output mixed (hget bufs cid) = Some (map (\<lambda>i. clamp_i16 (sum_of_others cid bufs i)) [0..<length mixed])"
  unfolding channel_output_def
proof (rule those_map_Some)
  fix i assume "i \<in> set [0..<length mixed]"
  then have s: "mixed ! i + - own_contribution (Some cd) i = sum_of_others cid bufs i"
    using assms(4) [of i] sum_of_others_split [OF assms(1,3), of i] by simp
  then have "add_i32 (mixed ! i) (- own_contribution (Some cd) i) = Some (sum_of_others cid bufs i)"
    using sum_of_others_bound [of cid bufs i] assms(2) unfolding add_i32_def s by (simp add: abs_le_iff)
  then show "map_option clamp_i16 (add_i32 (mixed ! i) (- own_contribution (hget bufs cid) i))
      = Some (clamp_i16 (sum_of_others cid bufs i))" by (simp add: assms(3))
qed

lemma mix_outputs_all:
  "(\<And>k. k \<in> set ks \<Longrightarrow> channel_output mixed (hget bufs k) = Some (g k)) \<Longrightarrow>
   \<exists>out'. mix_outputs mixed bufs ks out = Some out' \<and> (\<forall>k. hget out' k = (if k \<in> set ks then Some (g k) else hget out k))"
proof (induction ks arbitrary: out)
  case (Cons k ks)
  from Cons.IH [of "hinsert k (g k) out"] Cons.prems show ?case by auto
qed simp

lemma mix_aux:
  assumes "hm_wf (sd_channel_buffers d)" "length (sd_channel_buffers d) \<le> 65535"
  obtains d' where "softmix_mix d = Some d'"
    "sd_channel_buffers d' = map (\<lambda>(k, cd). (k, softmix_clear cd)) (sd_channel_buffers d)"
    "sd_num_samples d' = sd_num_samples d"
    "\<forall>cid. hget (sd_channel_buffers d) cid \<noteq> None \<longrightarrow> hget (sd_output_frames d') cid =
       Some (map (\<lambda>i. clamp_i16 (sum_of_others cid (sd_channel_buffers d) i)) [0..<sd_num_samples d])"
proof -
  let ?bufs = "sd_channel_buffers d" and ?z = "replicate (sd_num_samples d) (0 :: int)"
  let ?g = "\<lambda>cid. map (\<lambda>i. clamp_i16 (sum_of_others cid ?bufs i)) [0..<sd_num_samples d]"
  obtain us where us: "total_mix (map snd ?bufs) ?z = Some us" "length us = sd_num_samples d"
      "\<And>i. i < length us \<Longrightarrow> us ! i = (\<Sum>cd \<leftarrow> map snd ?bufs. own_contribution (Some cd) i)"
    using total_mix_sum [of ?z 0 "map snd ?bufs"] assms(2) by auto
  have "channel_output us (hget ?bufs k) = Some (?g k)" if k: "k \<in> set (map fst ?bufs)" for k
  proof -
    have "hget ?bufs k \<noteq> None" using k by (simp add: map_of_eq_None_iff)
    then obtain cd where "hget ?bufs k = Some cd" by blast
    from channel_output_others [OF assms this us(3)] us(2) show ?thesis by simp
  qed
  from mix_outputs_all [of "map fst ?bufs" us ?bufs ?g "[]", OF this] obtain out where
    out: "mix_outputs us ?bufs (map fst ?bufs) [] = Some out" "\<And>k. k \<in> fst ` set ?bufs \<Longrightarrow> hget out k = Some (?g k)" by auto
  show thesis
  proof (cases "?bufs = []")
    case True
    then show thesis by (intro that [of d]) (simp_all add: softmix_mix_def)
  next
    case False
    show thesis
      by (rule that [of "d\<lparr>sd_output_frames := out, sd_channel_buffers := map (\<lambda>(k, cd). (k, softmix_clear cd)) ?bufs\<rparr>"])
        (use False us out in \<open>simp_all add: softmix_mix_def map_of_eq_None_iff\<close>)
  qed
qed


subsection \<open>Runs of a conference\<close>

datatype softmix_op = MxJoin bridge_channel | MxLeave bridge_channel | MxWrite bridge_channel frame | MxMix

primrec softmix_step :: "softmix_op \<Rightarrow> softmix_data \<Rightarrow> softmix_data option" where
  "softmix_step (MxJoin bc) d = Some (softmix_join bc d)"
| "softmix_step (MxLeave bc) d = Some (softmix_leave bc d)"
| "softmix_step (MxWrite bc f) d = Some (softmix_write_frame bc f d)"
| "softmix_step MxMix d = softmix_mix d"

fun softmix_run :: "softmix_op list \<Rightarrow> softmix_data \<Rightarrow> softmix_data option" where
  "softmix_run [] d = Some d"
| "softmix_run (x # xs) d = Option.bind (softmix_step x d) (softmix_run xs)"

text \<open>One buffer per channel, each of the length of an interval.\<close>

definition softmix_wf :: "softmix_data \<Rightarrow> bool" where
  "softmix_wf d \<longleftrightarrow> hm_wf (sd_channel_buffers d) \<and>
     (\<forall>k cd. hget (sd_channel_buffers d) k = Some cd \<longrightarrow> length (sc_our_buf cd) = sd_num_samples d)"

lemma length_buffer_audio [simp]: "length (sc_our_buf (buffer_audio data cd)) = length (sc_our_buf cd)"
  by (simp add: buffer_audio_def Let_def)

lemma hget_map_snd: "hget (map (\<lambda>(k, v). (k, f v)) m) k = map_option f (hget m k)"
  by (induction m) auto

lemma softmix_step_wf: "softmix_wf d \<Longrightarrow> softmix_step x d = Some d' \<Longrightarrow> softmix_wf d'"
proof (cases x)
  case (MxWrite bc f)
  then show "softmix_wf d \<Longrightarrow> softmix_step x d = Some d' \<Longrightarrow> softmix_wf d'"
    by (auto simp: softmix_wf_def softmix_write_frame_def split: frame.splits option.splits if_splits)
next
  case MxMix
  then show "softmix_wf d \<Longrightarrow> softmix_step x d = Some d' \<Longrightarrow> softmix_wf d'"
    by (auto simp: softmix_wf_def softmix_mix_def Let_def hget_map_snd softmix_clear_def hm_wf_def comp_def
        case_prod_beta bind_eq_Some_conv split: if_splits)
qed (auto simp: softmix_wf_def softmix_join_def softmix_leave_def softmix_channel_data_new_def split: if_splits)

lemma softmix_run_wf: "softmix_wf d \<Longrightarrow> softmix_run xs d = Some d' \<Longrightarrow> softmix_wf d'"
  by (induction xs arbitrary: d) (auto simp: bind_eq_Some_conv intro: softmix_step_wf)

lemma softmix_new_wf: "softmix_wf (softmix_with_params rate interval)"
  by (simp add: softmix_wf_def softmix_with_params_def softmix_data_new_def)

text \<open>
  (C13) After any course of a conference with at most 65535 participants, mixing does not overflow and
  gives every participant at every sample the exact sum of what the other participants contribute,
  limited to the range of a sample: nobody hears themselves, and the order in which the participants are
  kept does not matter.
\<close>

theorem mix_minus_own:
  assumes "softmix_run ops (softmix_with_params rate interval) = Some d"
    and "length (sd_channel_buffers d) \<le> 65535" "hget (sd_channel_buffers d) cid = Some cd"
  shows "\<exists>d'. softmix_mix d = Some d' \<and> hget (sd_output_frames d') cid =
    Some (map (\<lambda>i. clamp_i16 (sum_of_others cid (sd_channel_buffers d) i)) [0..<sd_num_samples d])"
proof -
  have "hm_wf (sd_channel_buffers d)"
    using softmix_run_wf [OF softmix_new_wf assms(1)] by (simp add: softmix_wf_def)
  then obtain d' where "softmix_mix d = Some d'"
    "\<forall>cid. hget (sd_channel_buffers d) cid \<noteq> None \<longrightarrow> hget (sd_output_frames d') cid =
       Some (map (\<lambda>i. clamp_i16 (sum_of_others cid (sd_channel_buffers d) i)) [0..<sd_num_samples d])"
    using assms(2) by (rule mix_aux)
  then show ?thesis using assms(3) by auto
qed


theorem mix_minus_own_witness:
  "\<exists>d d' os. softmix_run [MxJoin (bridge_channel_new ''a'' ''A''), MxJoin (bridge_channel_new ''b'' ''B''),
      MxWrite (bridge_channel_new ''a'' ''A'') (frame_voice 0 1 [5, 0])] (softmix_with_params 8000 20) = Some d \<and>
    softmix_mix d = Some d' \<and> hget (sd_output_frames d') ''b'' = Some os \<and> length os = 160"
proof -
  let ?ops = "[MxJoin (bridge_channel_new ''a'' ''A''), MxJoin (bridge_channel_new ''b'' ''B''),
      MxWrite (bridge_channel_new ''a'' ''A'') (frame_voice 0 1 [5, 0])]"
  obtain d where d: "softmix_run ?ops (softmix_with_params 8000 20) = Some d" by simp
  then have "length (sd_channel_buffers d) = 2" "hget (sd_channel_buffers d) ''b'' \<noteq> None" "sd_num_samples d = 160"
    by (auto simp: softmix_with_params_def softmix_data_new_def softmix_samples_def SOFTMIX_MIN_SAMPLE_RATE_def
        softmix_join_def softmix_write_frame_def frame_voice_def bridge_channel_new_def)
  then obtain cd where "length (sd_channel_buffers d) \<le> 65535" "hget (sd_channel_buffers d) ''b'' = Some cd" by auto
  from mix_minus_own [OF d this] obtain d' where "softmix_mix d = Some d'"
    "hget (sd_output_frames d') ''b'' = Some (map (\<lambda>i. clamp_i16 (sum_of_others ''b'' (sd_channel_buffers d) i)) [0..<160])"
    using \<open>sd_num_samples d = 160\<close> by auto
  then show ?thesis using d by (metis (no_types, lifting) length_map length_upt diff_zero)
qed

subsection \<open>One speaker\<close>

lemma i16_to_from_le: "i16_to_le (i16_from_le lo hi) = [lo, hi]"
  by (auto simp: i16_to_le_def i16_from_le_def bit_simps intro!: bit_word_eqI)

lemma clamp_sint: "clamp_i16 (sint s) = s"
  using sint_i16 [of s] by (simp add: clamp_i16_def max_def min_def)

lemma concat_pairs:
  "2 * n \<le> length data \<Longrightarrow> concat (map (\<lambda>i. [data ! (i * 2), data ! (i * 2 + 1)]) [0..<n]) = take (2 * n) data"
proof (induction n)
  case (Suc n)
  then have "take (2 * Suc n) data = take (2 * n) data @ [data ! (2 * n), data ! (2 * n + 1)]"
    using take_Suc_conv_app_nth [of "2 * n" data] take_Suc_conv_app_nth [of "Suc (2 * n)" data] by simp
  then show ?case using Suc by (simp add: mult.commute)
qed simp

definition samples_of :: "u8 list \<Rightarrow> i16 list" where
  "samples_of data = map (\<lambda>i. i16_from_le (data ! (i * 2)) (data ! (i * 2 + 1))) [0..<length data div 2]"

lemma samples_of_bytes: "even (length data) \<Longrightarrow> concat (map i16_to_le (samples_of data)) = data"
  using concat_pairs [of "length data div 2" data] by (simp add: samples_of_def comp_def i16_to_from_le)

lemma samples_of_silent: "even (length data) \<Longrightarrow> list_all (\<lambda>s. s = 0) (samples_of data) \<longleftrightarrow> list_all (\<lambda>x. x = 0) data"
proof
  assume *: "even (length data)" "list_all (\<lambda>s. s = 0) (samples_of data)"
  then have "samples_of data = replicate (length (samples_of data)) 0" by (simp add: list_all_iff replicate_length_same)
  then have "data = concat (map i16_to_le (replicate (length (samples_of data)) 0))" using samples_of_bytes [OF *(1)] by simp
  moreover have "list_all (\<lambda>x. x = 0) (concat (map i16_to_le (replicate k 0)))" for k
    by (induction k) (simp_all add: i16_to_le_def)
  ultimately show "list_all (\<lambda>x. x = 0) data" by metis
next
  assume "list_all (\<lambda>x. x = 0) data"
  then have "data ! j = 0" if "j < length data" for j using that by (simp add: list_all_length)
  then show "list_all (\<lambda>s. s = 0) (samples_of data)" by (auto simp: samples_of_def list_all_iff i16_from_le_def)
qed


lemma buffer_audio_full:
  "length data = 2 * length (sc_our_buf cd) \<Longrightarrow>
   buffer_audio data cd = cd\<lparr>sc_our_buf := samples_of data, sc_have_audio := True\<rparr>"
  by (simp add: buffer_audio_def samples_of_def Let_def)

lemma sum_of_others_silent:
  "(\<And>k cd. (k, cd) \<in> set bufs \<Longrightarrow> k \<noteq> cid \<Longrightarrow> \<not> sc_have_audio cd) \<Longrightarrow> sum_of_others cid bufs i = 0"
proof (induction bufs)
  case (Cons kc bufs)
  then have "sum_of_others cid bufs i = 0" by (meson list.set_intros(2))
  moreover obtain k cd where "kc = (k, cd)" by (cases kc)
  ultimately show ?case using Cons.prems [of k cd] by (auto simp: sum_of_others_def own_contribution_def)
qed (simp add: sum_of_others_def)

text \<open>When only one participant has audio, another one is to hear just that.\<close>

lemma sum_of_others_one_speaker:
  assumes "hm_wf bufs" "hget bufs a = Some ca" "hget bufs b = Some cb" "a \<noteq> b"
    and "\<And>k cd. hget bufs k = Some cd \<Longrightarrow> k \<noteq> a \<Longrightarrow> \<not> sc_have_audio cd"
  shows "sum_of_others a bufs i = 0" "sum_of_others b bufs i = own_contribution (Some ca) i"
proof -
  show a: "sum_of_others a bufs i = 0"
    using assms(5) by (intro sum_of_others_silent) (simp add: hm_wf_in_set [OF assms(1)])
  have "own_contribution (Some cb) i = 0" using assms(3-5) by (simp add: own_contribution_def)
  then show "sum_of_others b bufs i = own_contribution (Some ca) i"
    using sum_of_others_split [OF assms(1,2), of i] sum_of_others_split [OF assms(1,3), of i] a by linarith
qed

lemma clamp_zero [simp]: "clamp_i16 0 = 0"
  using clamp_sint [of 0] by simp




end
