(* ===== verification/Spec2Isabelle.thy ===== *)
theory Spec2Isabelle
  imports Pbx_Config Channel_IO Channel_Store Apps Sip_Via Sip_Layer Sip_Call
    Config_Roundtrip Rtp_Session Jitter_Buffer Bridge_Life Softmix
begin

text \<open>
  A verification library for the PBX in \<^verbatim>\<open>src/crates\<close>: its dialplan engine, its channels
  and bridges, its SIP signalling, its RTP media sessions and its configuration files.

  \<^bold>\<open>The program and how its parts interact.\<close> A call enters through the SIP stack
  (\<^verbatim>\<open>asterisk-sip\<close>): a datagram is parsed into a message, matched with a transaction, and turned
  into a session with a dialog and a negotiated session description. The call then is a channel
  (\<^verbatim>\<open>asterisk-core/src/channel\<close>), registered in the channel store, whose frames pass through
  generators, hooks and the DTMF state machine. The dialplan executor
  (\<^verbatim>\<open>asterisk-core/src/pbx\<close>) looks up the channel's location in the dialplan that was loaded from
  \<^verbatim>\<open>extensions.conf\<close>, substitutes variables in the application's arguments, and runs the
  application (\<^verbatim>\<open>asterisk-apps\<close>), until the channel hangs up. Two channels that talk to each other
  are members of a bridge (\<^verbatim>\<open>asterisk-core/src/bridge\<close>), whose event loops route the frames; on the
  wire the frames are RTP packets (\<^verbatim>\<open>asterisk-sip/src/rtp\<close>) that a jitter buffer can reorder.
  Settings come from files read by \<^verbatim>\<open>asterisk-config\<close>.

  \<^bold>\<open>Conventions.\<close> A Rust \<open>String\<close> is the list of its bytes; a \<open>HashMap\<close> is an association list,
  whose order stands for the iteration order; machine integers are words of their width; an
  \<open>Instant\<close> is a number of nanoseconds and every operation that reads the clock takes the reading
  \<open>now\<close>. A panic (arithmetic overflow, a slice inside a character) is the outer value
  \<^const>\<open>None\<close>, and a loop that need not end is a partial function in the option monad. Random
  identifiers, hash functions, name resolution, the global configuration, dialplan functions and
  the expression evaluator are arguments of the definitions that use them. Effects on the outside
  (datagrams, events, callbacks) are lists in the order in which they happen.

  \<^bold>\<open>The theories.\<close>
  \<^item> \<open>Rust_Prelude\<close>, \<open>Rust_Net\<close>: what the source uses of the standard library (strings, hash maps,
    integer parsers, IP address literals), with the rewrite rules that all proofs share.
  \<^item> \<open>Ast_Types\<close>: \<^verbatim>\<open>asterisk-types\<close>, the enumerations, flags, frames, parties and errors.
  \<^item> \<open>Dialplan\<close>: \<^verbatim>\<open>pbx/mod.rs\<close>. The pattern matcher accepts exactly the language a pattern
    denotes; the search through includes is reachability in the include graph, cycles included
    (locale \<open>include_walk\<close>, which both recursive searches interpret).
  \<^item> \<open>Pbx_Config\<close>: \<^verbatim>\<open>pbx/pbx_config.rs\<close>. Loading is total and keeps the dialplan well formed;
    steps written with \<open>n\<close> get consecutive priorities; printed directives are read back.
  \<^item> \<open>Substitute\<close>: \<^verbatim>\<open>pbx/substitute.rs\<close>. Templates, nesting, the substring operator and the
    freedom from panics on ASCII values.
  \<^item> \<open>Pbx_Exec\<close>, \<open>Apps\<close>: \<^verbatim>\<open>pbx/exec.rs\<close>, \<^verbatim>\<open>pbx/app_registry.rs\<close> and the flow control
    applications. The steps of an extension run once each in order, a run ends with one hangup and
    the right cause, and where it does not end.
  \<^item> \<open>Dtmf\<close>, \<open>Hooks\<close>, \<open>Channel\<close>, \<open>Channel_IO\<close>, \<open>Channel_Store\<close>: \<^verbatim>\<open>channel/*.rs\<close>. The digit
    machine and its timing, the hook lists (locale \<open>hook_chain\<close>), the channel with its queues
    (locale \<open>bounded_fifo\<close>), the read and write pipelines, and the two indexes of the store.
  \<^item> \<open>Sip_Parser\<close>, \<open>Sip_Roundtrip\<close>, \<open>Sip_Via\<close>: \<^verbatim>\<open>parser/mod.rs\<close>. Parser and printer of messages
    and URIs, their round trip, the parser's bounds, and the stamping of Via headers.
  \<^item> \<open>Sip_Transaction\<close>: \<^verbatim>\<open>transaction/mod.rs\<close>. The four machines and their timer tasks.
  \<^item> \<open>Sip_Stack\<close>, \<open>Sip_Layer\<close>: \<^verbatim>\<open>stack.rs\<close>. Matching, CANCEL, the timer pass; over any sequence
    of operations the tables stay well typed, transactions are reaped (locale \<open>timed_txn\<close>,
    interpreted for the four machines), the first final response wins, and retransmissions are
    replayed.
  \<^item> \<open>Sip_Dialog\<close>, \<open>Sip_Session\<close>, \<open>Sip_Call\<close>: \<^verbatim>\<open>dialog/mod.rs\<close>, \<^verbatim>\<open>session/mod.rs\<close>. Sequence
    numbers increase; two sessions that set up a call agree on it to its end.
  \<^item> \<open>Sip_Sdp\<close>, \<open>Sip_Offer\<close>: \<^verbatim>\<open>sdp/mod.rs\<close> with the parts of \<^verbatim>\<open>ice.rs\<close>, \<^verbatim>\<open>dtls.rs\<close> and
    \<^verbatim>\<open>crypto.rs\<close> that session descriptions print. Round trip, offers and answers.
  \<^item> \<open>Sip_Acl\<close>, \<open>Sip_Auth\<close>: \<^verbatim>\<open>acl.rs\<close>, the NAT address selection of \<^verbatim>\<open>sdp/mod.rs\<close>,
    \<^verbatim>\<open>auth/mod.rs\<close> and \<^verbatim>\<open>authenticator.rs\<close>. Access lists refine their first matching network; a
    digest exchange between the two sides succeeds; what replays show.
  \<^item> \<open>Config_File\<close>, \<open>Config_Roundtrip\<close>: \<^verbatim>\<open>asterisk-config/src/lib.rs\<close>. Includes cannot leave the
    directory of the file; printed categories are read back.
  \<^item> \<open>Rtp_Packet\<close>, \<open>Rtp_Session\<close>: \<^verbatim>\<open>rtp/mod.rs\<close>. Packets and telephone events with their round
    trips, the port allocator; a session locks to its source, ignores the rest, and delivers voice and
    digits to its peer.
  \<^item> \<open>Jitter_Buffer\<close>: \<^verbatim>\<open>rtp/jitter_buffer.rs\<close>. The contract of a buffer (locale \<open>jitter_buffer\<close>,
    interpreted for the fixed, the adaptive and the enhanced one): what is played was put, in time,
    and memory is bounded.
  \<^item> \<open>Bridge_Features\<close>, \<open>Bridge\<close>: \<^verbatim>\<open>bridge/*.rs\<close>. Detection of feature codes; membership, the life
    cycle, the routing of the simple bridge and the event loop of a member.
  \<^item> \<open>Bridge_Call\<close>, \<open>Bridge_Life\<close>: two parties of a simple bridge hear each other under every
    interleaving of their loops; membership stays well formed under every interleaving of critical
    sections; what dissolving and refused joins leave behind.
  \<^item> \<open>Softmix\<close>: \<^verbatim>\<open>bridge/softmix.rs\<close>. Mixing is the saturated sum of the others, without overflow.

  \<^bold>\<open>Bounds and fuel.\<close> The executor's limit of ten thousand iterations, the queue limit of one thousand
  frames, the 200 frames of a jitter buffer, the parser's limits on headers, the include depth and the
  substitution depth of the code are the code's own constants. No definition uses fuel of its own: loops
  without a bound in the code are partial functions, and the theorems about them state that a result
  exists; the event loop of a bridged channel, which waits for frames forever, is given round by round.

  \<^bold>\<open>Not modelled.\<close> Sockets, tokio tasks and locks (an operation is one step on explicit state);
  codecs, which are signal processing; quality scores in floating point; cryptography; the network
  servers for management (\<^verbatim>\<open>asterisk-ami\<close>, \<^verbatim>\<open>asterisk-ari\<close>); database and file backends
  (\<^verbatim>\<open>asterisk-cdr\<close>, \<^verbatim>\<open>asterisk-res\<close>, \<^verbatim>\<open>asterisk-formats\<close>); the applications that only drive
  media; the C-callable shim and the test crates. The expression evaluator computes with floating
  point numbers and regular expressions and is an argument of the substitution.
\<close>

end
